(* ===== verification/Prelude.thy ===== *)
theory Prelude
  imports "HOL-Library.Word"
begin

text \<open>
  The parts of Go and of its standard library that every component uses: machine integers,
  byte slices that may be nil, pointers that may be nil, errors with their messages and their
  wrapping, run-time panics, big-endian integers, and the decimal and hexadecimal verbs of
  \<open>fmt\<close>.  The generic lemmas and the interface of a fixed-width codec are here too.
\<close>

unbundle bit_operations_syntax

named_theorems stmt_Inr \<open>when a statement on the database succeeds\<close>
named_theorems handled_Next \<open>when a handler of a session goes on to another state\<close>

section \<open>Integers, slices and pointers\<close>

type_synonym byte = "8 word"
type_synonym uint32 = "32 word"
type_synonym uint64 = "64 word"

text \<open>Signed integers are two's complement words; comparisons on them read the word by \<open>sint\<close>.\<close>

type_synonym int32 = "32 word"
type_synonym int64 = "64 word"

text \<open>
  A \<open>[]byte\<close> is nil (\<open>None\<close>) or a sequence of bytes.  \<open>len\<close>, \<open>append\<close> and
  \<open>bytes.Equal\<close> do not tell nil from empty; a comparison with \<open>nil\<close> and the database driver do.
\<close>

type_synonym slice = "byte list option"

definition bs :: "slice \<Rightarrow> byte list" where
  "bs s = (case s of None \<Rightarrow> [] | Some b \<Rightarrow> b)"

definition bytes_Equal :: "slice \<Rightarrow> slice \<Rightarrow> bool" where
  "bytes_Equal a b \<longleftrightarrow> bs a = bs b"

text \<open>\<open>append([]byte(nil), s...)\<close>: a copy, nil when there is nothing to copy.\<close>

definition clone :: "slice \<Rightarrow> slice" where
  "clone s = (if bs s = [] then None else Some (bs s))"

text \<open>\<open>[]byte(s)\<close> for a string: the bytes of its characters.\<close>

definition string_bytes :: "string \<Rightarrow> byte list" where
  "string_bytes s = map of_char s"

text \<open>\<open>strings.Contains\<close>\<close>

definition strings_Contains :: "string \<Rightarrow> string \<Rightarrow> bool" where
  "strings_Contains s substr \<longleftrightarrow> list_ex (\<lambda>i. take (length substr) (drop i s) = substr) [0..<length s + 1]"

text \<open>A generated getter: the field of the message behind the pointer, the zero value for nil.\<close>

definition getp :: "'b \<Rightarrow> ('a \<Rightarrow> 'b) \<Rightarrow> 'a option \<Rightarrow> 'b" where
  "getp zero field p = (case p of None \<Rightarrow> zero | Some m \<Rightarrow> field m)"

lemma bs_simps [simp]: "bs None = []" "bs (Some b) = b"
  by (simp_all add: bs_def)

lemma getp_simps [simp]: "getp z f None = z" "getp z f (Some m) = f m"
  by (simp_all add: getp_def)

lemma bs_clone [simp]: "bs (clone s) = bs s"
  by (simp add: clone_def)

lemma bytes_Equal_refl [simp]: "bytes_Equal a a"
  by (simp add: bytes_Equal_def)

lemma bytes_Equal_sym: "bytes_Equal a b \<longleftrightarrow> bytes_Equal b a"
  by (auto simp: bytes_Equal_def)

lemma bytes_Equal_Some [simp]: "bytes_Equal (Some a) (Some b) \<longleftrightarrow> a = b"
  by (simp add: bytes_Equal_def)

section \<open>Errors, panics and results\<close>

text \<open>
  \<open>Errorf m\<close> is a leaf error with message \<open>m\<close>; \<open>Wrapf m e\<close> is
  \<open>fmt.Errorf("m%w", e)\<close>, \<open>Join\<close> holds the two errors of \<open>errors.Join\<close>.  The sentinel errors the code compares with have their own constructors.
\<close>

datatype go_error =
    ErrNoRows
  | ErrCanceled
  | Errorf string
  | Wrapf string go_error
  | Join go_error go_error

primrec Error :: "go_error \<Rightarrow> string" where
  "Error ErrNoRows = ''sql: no rows in result set''"
| "Error ErrCanceled = ''context canceled''"
| "Error (Errorf m) = m"
| "Error (Wrapf m e) = m @ Error e"
| "Error (Join a b) = Error a @ [CHR 0x0A] @ Error b"

text \<open>\<open>errors.Is\<close> against a sentinel follows the wrapping.\<close>

primrec errors_Is :: "go_error \<Rightarrow> go_error \<Rightarrow> bool" where
  "errors_Is ErrNoRows t = (t = ErrNoRows)"
| "errors_Is ErrCanceled t = (t = ErrCanceled)"
| "errors_Is (Errorf m) t = False"
| "errors_Is (Wrapf m e) t = errors_Is e t"
| "errors_Is (Join a b) t = (errors_Is a t \<or> errors_Is b t)"

text \<open>\<open>errors.Join\<close> of two errors, either of which may be nil.\<close>

definition errors_Join :: "go_error option \<Rightarrow> go_error option \<Rightarrow> go_error option" where
  "errors_Join a b =
     (case (a, b) of
        (Some x, Some y) \<Rightarrow> Some (Join x y)
      | (Some x, None) \<Rightarrow> Some (Wrapf [] x)
      | (None, Some y) \<Rightarrow> Some (Wrapf [] y)
      | (None, None) \<Rightarrow> None)"

text \<open>
  A call returns a value, returns an error, or panics (nil dereference, slice bounds, division
  by zero, send on a closed channel): the two failures are kept apart, because a caller that
  drops the error does not stop the panic.
\<close>

datatype failure = Err go_error | Panic string

type_synonym 'a res = "failure + 'a"

definition res_bind :: "'a res \<Rightarrow> ('a \<Rightarrow> 'b res) \<Rightarrow> 'b res" where
  "res_bind m f = (case m of Inl e \<Rightarrow> Inl e | Inr x \<Rightarrow> f x)"

definition fail :: "string \<Rightarrow> 'a res" where
  "fail m = Inl (Err (Errorf m))"

definition nil_deref :: "'a res" where
  "nil_deref = Inl (Panic ''nil pointer dereference'')"

text \<open>\<open>if err != nil { return fmt.Errorf("m: %w", err) }\<close>\<close>

definition wrap_err :: "string \<Rightarrow> 'a res \<Rightarrow> 'a res" where
  "wrap_err m r = (case r of Inl (Err e) \<Rightarrow> Inl (Err (Wrapf m e)) | Inl (Panic p) \<Rightarrow> Inl (Panic p) | Inr x \<Rightarrow> Inr x)"

definition is_panic :: "'a res \<Rightarrow> bool" where
  "is_panic r = (case r of Inl (Panic _) \<Rightarrow> True | _ \<Rightarrow> False)"

lemma res_bind_simps [simp]:
  "res_bind (Inl e) f = Inl e" "res_bind (Inr x) f = f x"
  by (simp_all add: res_bind_def)

lemma res_bind_eq_Inr [stmt_Inr]: "res_bind m f = Inr y \<longleftrightarrow> (\<exists>x. m = Inr x \<and> f x = Inr y)"
  by (cases m) auto

lemma res_bind_eq_Inl: "res_bind m f = Inl e \<longleftrightarrow> m = Inl e \<or> (\<exists>x. m = Inr x \<and> f x = Inl e)"
  by (cases m) auto

lemma res_bind_cong [fundef_cong]:
  "m = m' \<Longrightarrow> (\<And>x. m' = Inr x \<Longrightarrow> f x = g x) \<Longrightarrow> res_bind m f = res_bind m' g"
  by (cases m') auto

lemma wrap_err_simps [simp]:
  "wrap_err m (Inr x) = Inr x"
  "wrap_err m (Inl (Err e)) = Inl (Err (Wrapf m e))"
  "wrap_err m (Inl (Panic p)) = Inl (Panic p)"
  by (simp_all add: wrap_err_def)

lemma wrap_err_eq_Inr [simp]: "wrap_err m r = Inr x \<longleftrightarrow> r = Inr x"
  by (simp add: wrap_err_def split: sum.splits failure.splits)

lemma is_panic_simps [simp]:
  "is_panic (Inl (Panic p))" "\<not> is_panic (Inl (Err e))" "\<not> is_panic (Inr x)"
  by (simp_all add: is_panic_def)

lemma is_panic_res_bind: "is_panic (res_bind m f) \<longleftrightarrow> is_panic m \<or> (\<exists>x. m = Inr x \<and> is_panic (f x))"
  by (cases m) (auto simp: is_panic_def)

lemma is_panic_wrap_err [simp]: "is_panic (wrap_err m r) = is_panic r"
  by (simp add: wrap_err_def is_panic_def split: sum.split failure.split)

lemma fail_neq_Inr [simp]: "fail m \<noteq> Inr x" "Inr x \<noteq> fail m" "\<not> is_panic (fail m)"
  by (simp_all add: fail_def)

lemma res_bind_fail [simp]: "res_bind (fail m) f = fail m" "res_bind nil_deref f = nil_deref"
  by (simp_all add: fail_def nil_deref_def)

lemma nil_deref_simps [simp]: "is_panic nil_deref" "nil_deref \<noteq> Inr x" "Inr x \<noteq> nil_deref"
  by (simp_all add: nil_deref_def)

section \<open>Formatting verbs\<close>

definition digit :: "nat \<Rightarrow> char" where
  "digit n = char_of (if n < 10 then 48 + n else 87 + n)"

fun itoa :: "nat \<Rightarrow> string" where
  "itoa n = (if n < 10 then [digit n] else itoa (n div 10) @ [digit (n mod 10)])"

declare itoa.simps [simp del]

text \<open>\<open>%d\<close> of a signed 64-bit value.\<close>

definition itoa_s :: "int \<Rightarrow> string" where
  "itoa_s i = (if i < 0 then ''-'' @ itoa (nat (- i)) else itoa (nat i))"

text \<open>\<open>%x\<close> of a byte slice: two lower-case digits per byte.\<close>

definition hex_byte :: "byte \<Rightarrow> string" where
  "hex_byte b = [digit (unat b div 16), digit (unat b mod 16)]"

definition hex :: "byte list \<Rightarrow> string" where
  "hex b = concat (map hex_byte b)"

section \<open>Big-endian integers\<close>

text \<open>
  \<open>binary.BigEndian.PutUint32/PutUint64\<close> write the most significant byte first;
  \<open>Uint32/Uint64\<close> read the first 4 or 8 bytes back.  Every read in the code is preceded by a
  length check, so the value of a read from a shorter slice is never used.
\<close>

primrec be_nat :: "nat \<Rightarrow> nat \<Rightarrow> byte list" where
  "be_nat 0 x = []"
| "be_nat (Suc k) x = be_nat k (x div 256) @ [word_of_nat (x mod 256)]"

definition nat_be :: "byte list \<Rightarrow> nat" where
  "nat_be b = foldl (\<lambda>acc x. acc * 256 + unat x) 0 b"

definition be32 :: "uint32 \<Rightarrow> byte list" where
  "be32 v = be_nat 4 (unat v)"

definition be64 :: "uint64 \<Rightarrow> byte list" where
  "be64 v = be_nat 8 (unat v)"

definition unbe32 :: "byte list \<Rightarrow> uint32" where
  "unbe32 b = word_of_nat (nat_be (take 4 b))"

definition unbe64 :: "byte list \<Rightarrow> uint64" where
  "unbe64 b = word_of_nat (nat_be (take 8 b))"

lemma length_be_nat [simp]: "length (be_nat k x) = k"
  by (induction k arbitrary: x) auto

lemma nat_be_snoc: "nat_be (b @ [x]) = nat_be b * 256 + unat x"
  by (simp add: nat_be_def)

lemma nat_be_Nil [simp]: "nat_be [] = 0"
  by (simp add: nat_be_def)

lemma unat_byte_of_nat: "unat (word_of_nat x :: byte) = x mod 256"
  by (simp add: unat_of_nat)

lemma unat_byte: "unat (x :: byte) < 256"
  using unsigned_less [of x, where ?'a = nat] by simp

lemma unat_uint32: "unat (x :: uint32) < 4294967296"
  using unsigned_less [of x, where ?'a = nat] by simp

lemma unat_uint64: "unat (x :: uint64) < 18446744073709551616"
  using unsigned_less [of x, where ?'a = nat] by simp

lemma be_nat_numeral [simp]:
  "be_nat (numeral n) x = be_nat (pred_numeral n) (x div 256) @ [word_of_nat (x mod 256)]"
  by (subst numeral_eq_Suc) simp

lemma nat_be_be_nat: "nat_be (be_nat k x) = x mod 256 ^ k"
proof (induction k arbitrary: x)
  case (Suc k)
  have "nat_be (be_nat (Suc k) x) = (x div 256 mod 256 ^ k) * 256 + x mod 256"
    by (simp add: nat_be_snoc unat_byte_of_nat Suc.IH)
  also have "\<dots> = x mod 256 ^ Suc k"
    by (simp add: mod_mult2_eq mult.commute)
  finally show ?case .
qed simp

lemma nat_be_bound: "nat_be b < 256 ^ length b"
proof (induction b rule: rev_induct)
  case (snoc x b)
  note unat_byte [of x]
  moreover have "nat_be b + 1 \<le> 256 ^ length b"
    using snoc.IH by simp
  hence "(nat_be b + 1) * 256 \<le> 256 ^ length b * 256"
    by (rule mult_le_mono1)
  ultimately show ?case
    by (simp add: nat_be_snoc)
qed simp

lemma be_nat_nat_be: "length b = k \<Longrightarrow> be_nat k (nat_be b) = b"
proof (induction b arbitrary: k rule: rev_induct)
  case (snoc x b)
  with snoc unat_byte [of x] show ?case
    by (auto simp: nat_be_snoc)
qed simp

lemma length_be32 [simp]: "length (be32 v) = 4"
  by (simp add: be32_def del: be_nat_numeral)

lemma length_be64 [simp]: "length (be64 v) = 8"
  by (simp add: be64_def del: be_nat_numeral)

lemma unbe32_be32 [simp]: "unbe32 (be32 v) = v"
  using unat_uint32 [of v] nat_be_be_nat [of 4 "unat v"] by (simp add: be32_def unbe32_def del: be_nat_numeral)

lemma unbe64_be64 [simp]: "unbe64 (be64 v) = v"
  using unat_uint64 [of v] nat_be_be_nat [of 8 "unat v"] by (simp add: be64_def unbe64_def del: be_nat_numeral)

lemma be32_unbe32: "length b = 4 \<Longrightarrow> be32 (unbe32 b) = b"
  using nat_be_bound [of b] by (simp add: be32_def unbe32_def unat_of_nat be_nat_nat_be del: be_nat_numeral)

lemma be64_unbe64: "length b = 8 \<Longrightarrow> be64 (unbe64 b) = b"
  using nat_be_bound [of b] by (simp add: be64_def unbe64_def unat_of_nat be_nat_nat_be del: be_nat_numeral)
text \<open>Reading back ignores what follows the integer.\<close>

lemma unbe32_append [simp]: "unbe32 (be32 v @ r) = v"
  using unbe32_be32 [of v] by (simp add: unbe32_def)

lemma unbe64_append [simp]: "unbe64 (be64 v @ r) = v"
  using unbe64_be64 [of v] by (simp add: unbe64_def)

lemma unbe32_take [simp]: "unbe32 (take 4 b) = unbe32 b"
  by (simp add: unbe32_def)

section \<open>Fixed-width codecs\<close>

text \<open>
  What the serialisers rely on: an encoding of constant width that can be read back.  Sequences
  of encodings can then be cut at multiples of the width, and a concatenation determines its parts.
\<close>

locale fixed_codec =
  fixes enc :: "'a \<Rightarrow> byte list"
    and dec :: "byte list \<Rightarrow> 'a"
    and width :: nat
  assumes width_pos: "0 < width"
    and length_enc [simp]: "length (enc x) = width"
    and dec_enc [simp]: "dec (enc x) = x"
    and enc_dec: "length b = width \<Longrightarrow> enc (dec b) = b"
begin

lemma enc_inj: "enc x = enc y \<longleftrightarrow> x = y"
  using dec_enc by metis

lemma enc_append_inj: "enc x @ r = enc y @ s \<longleftrightarrow> x = y \<and> r = s"
  by (simp add: enc_inj)

lemma length_concat_enc: "length (concat (map enc xs)) = width * length xs"
  by (induction xs) auto

lemma dec_nth_concat:
  "i < length xs \<Longrightarrow> dec (take width (drop (i * width) (concat (map enc xs)))) = xs ! i"
proof (induction xs arbitrary: i)
  case (Cons x xs)
  then show ?case by (cases i) simp_all
qed simp

lemma concat_enc_inj:
  "length xs = length ys \<Longrightarrow>
   concat (map enc xs) @ r = concat (map enc ys) @ s \<longleftrightarrow> xs = ys \<and> r = s"
  by (induction xs ys rule: list_induct2) (auto simp: enc_append_inj)

end

interpretation be32c: fixed_codec be32 unbe32 4
  by unfold_locales (simp_all add: be32_unbe32)

interpretation be64c: fixed_codec be64 unbe64 8
  by unfold_locales (simp_all add: be64_unbe64)

end
