(* ===== verification/Sql.thy ===== *)
theory Sql
  imports Prelude
begin

text \<open>
  The SQL that the storage layer issues, as operations on tables.  A table is the list of its
  rows in insertion order; NULL is \<open>None\<close>.  The statements of the source (\<open>INSERT\<close>, upsert,
  \<open>SELECT\<close> with \<open>WHERE\<close>, \<open>ORDER BY\<close> and \<open>LIMIT\<close>, \<open>UPDATE\<close>, \<open>DELETE\<close>) and the constraints of
  its \<open>CREATE TABLE\<close> statements (\<open>NOT NULL\<close>, \<open>PRIMARY KEY\<close>) have their SQL meaning.  Rows that
  an \<open>ORDER BY\<close> leaves tied come in insertion order.  What depends on the third-party driver is
  the parameter \<open>engine\<close>: how a \<open>[]byte\<close> argument is bound, the unused capacity of the slices it
  scans blobs into, and the error of a call that fails for reasons of its own (disk, locking).
\<close>

record engine =
  en_bind_blob :: "slice \<Rightarrow> slice"
  en_spare :: "byte list \<Rightarrow> byte list"
  en_fault :: "go_error option"

text \<open>The documented behaviour of the driver: nil is bound as NULL, other slices as their bytes.\<close>

definition driver_ok :: "engine \<Rightarrow> bool" where
  "driver_ok en \<longleftrightarrow> en_fault en = None \<and> (\<forall>s. en_bind_blob en s = s)"

definition run_stmt :: "engine \<Rightarrow> 'a res \<Rightarrow> 'a res" where
  "run_stmt en r = (case en_fault en of Some e \<Rightarrow> Inl (Err e) | None \<Rightarrow> r)"

section \<open>Arguments and constraints\<close>

text \<open>
  \<open>database/sql\<close> refuses unsigned arguments that do not fit a signed 64-bit integer, and refuses
  to scan a negative integer into an unsigned variable.
\<close>

definition u64_arg :: "nat \<Rightarrow> uint64 \<Rightarrow> unit res" where
  "u64_arg n v =
     (if sint v < 0
      then fail (''sql: converting argument $'' @ itoa n @ '' type: uint64 values with high bit set are not supported'')
      else Inr ())"

definition scan_u64 :: "string \<Rightarrow> int64 \<Rightarrow> uint64 res" where
  "scan_u64 col v =
     (if sint v < 0
      then fail (''sql: Scan error on column '' @ col @ '': converting driver.Value type int64 ('' @ itoa_s (sint v) @ '') to a uint64: invalid syntax'')
      else Inr v)"

definition not_null :: "string \<Rightarrow> slice \<Rightarrow> unit res" where
  "not_null col v = (if v = None then fail (''NOT NULL constraint failed: '' @ col) else Inr ())"

text \<open>The first check that fails.\<close>

primrec check_all :: "unit res list \<Rightarrow> unit res" where
  "check_all [] = Inr ()"
| "check_all (c # cs) = res_bind c (\<lambda>_. check_all cs)"

section \<open>Statements\<close>

text \<open>Equality of SQL values: NULL equals nothing.\<close>

definition sql_eq :: "'k option \<Rightarrow> 'k option \<Rightarrow> bool" where
  "sql_eq a b \<longleftrightarrow> a \<noteq> None \<and> a = b"

text \<open>\<open>INSERT\<close> into a table with a primary key.\<close>

definition insert_row :: "('r \<Rightarrow> 'k option) \<Rightarrow> string \<Rightarrow> 'r \<Rightarrow> 'r list \<Rightarrow> 'r list res" where
  "insert_row key col row rows =
     (if \<exists>r\<in>set rows. sql_eq (key r) (key row) then fail (''UNIQUE constraint failed: '' @ col)
      else Inr (rows @ [row]))"

text \<open>\<open>INSERT ... ON CONFLICT(key) DO UPDATE SET\<close> every other column.\<close>

definition upsert_row :: "('r \<Rightarrow> 'k option) \<Rightarrow> 'r \<Rightarrow> 'r list \<Rightarrow> 'r list" where
  "upsert_row key row rows =
     (if \<exists>r\<in>set rows. sql_eq (key r) (key row)
      then map (\<lambda>r. if sql_eq (key r) (key row) then row else r) rows
      else rows @ [row])"

text \<open>\<open>SELECT ... WHERE key = ?\<close> of one row.\<close>

definition select_row :: "('r \<Rightarrow> 'k option) \<Rightarrow> 'k option \<Rightarrow> 'r list \<Rightarrow> 'r option" where
  "select_row key k rows = find (\<lambda>r. sql_eq (key r) k) rows"

text \<open>
  \<open>ORDER BY c ASC\<close>, \<open>ORDER BY c DESC\<close> and \<open>LIMIT\<close> (a negative limit is none).  SQL leaves open how tied
  rows are ordered; here they come in the order of their insertion, and the specification of eviction
  (\<open>Store_Spec\<close>) allows every choice among them.
\<close>

definition order_asc :: "('r \<Rightarrow> int64) \<Rightarrow> 'r list \<Rightarrow> 'r list" where
  "order_asc c rows = sort_key (\<lambda>r. sint (c r)) rows"

definition order_desc :: "('r \<Rightarrow> int64) \<Rightarrow> 'r list \<Rightarrow> 'r list" where
  "order_desc c rows = sort_key (\<lambda>r. - sint (c r)) rows"

definition limit_rows :: "int \<Rightarrow> 'r list \<Rightarrow> 'r list" where
  "limit_rows n rows = (if n < 0 then rows else take (nat n) rows)"

text \<open>\<open>for rows.Next() { x, err := scan(rows); ... append }\<close>\<close>

primrec scan_rows :: "('r \<Rightarrow> 'a res) \<Rightarrow> 'r list \<Rightarrow> 'a list res" where
  "scan_rows scan [] = Inr []"
| "scan_rows scan (r # rs) = res_bind (scan r) (\<lambda>x. res_bind (scan_rows scan rs) (\<lambda>xs. Inr (x # xs)))"

text \<open>\<open>row.Scan\<close> of \<open>QueryRow\<close>: \<open>sql.ErrNoRows\<close> when the query selects nothing.\<close>

definition scan_row :: "('r \<Rightarrow> 'a res) \<Rightarrow> 'r option \<Rightarrow> 'a res" where
  "scan_row scan row = (case row of None \<Rightarrow> Inl (Err ErrNoRows) | Some r \<Rightarrow> scan r)"

text \<open>
  The operator \<open>LIKE\<close> of the engine as it is documented, on ASCII text: \<open>%\<close> stands for any text,
  \<open>_\<close> for any character, and letters match in either case.  What the engine does on other text is
  left open.
\<close>

definition ascii :: "char \<Rightarrow> bool" where
  "ascii c \<longleftrightarrow> (of_char c :: nat) < 128"

definition lower :: "char \<Rightarrow> char" where
  "lower c = (if (65 :: nat) \<le> of_char c \<and> (of_char c :: nat) \<le> 90 then char_of ((of_char c :: nat) + 32) else c)"

fun like_match :: "string \<Rightarrow> string \<Rightarrow> bool" where
  "like_match [] s = (s = [])"
| "like_match (p # ps) [] = (p = CHR ''%'' \<and> like_match ps [])"
| "like_match (p # ps) (c # s) =
     (if p = CHR ''%'' then like_match ps (c # s) \<or> like_match (p # ps) s
      else (p = CHR ''_'' \<or> lower p = lower c) \<and> like_match ps s)"

definition like_ok :: "(string \<Rightarrow> string \<Rightarrow> bool) \<Rightarrow> bool" where
  "like_ok like \<longleftrightarrow> (\<forall>p s. list_all ascii p \<and> list_all ascii s \<longrightarrow> like p s = like_match p s)"

section \<open>Lemmas\<close>

lemma run_stmt_ok [simp]: "en_fault en = None \<Longrightarrow> run_stmt en r = r"
  by (simp add: run_stmt_def)

lemma run_stmt_eq_Inr [stmt_Inr]: "run_stmt en r = Inr x \<longleftrightarrow> en_fault en = None \<and> r = Inr x"
  by (auto simp: run_stmt_def split: option.splits)

lemma driver_okD [simp]:
  "driver_ok en \<Longrightarrow> en_fault en = None" "driver_ok en \<Longrightarrow> en_bind_blob en s = s"
  by (simp_all add: driver_ok_def)

lemma check_all_eq_Inr: "check_all cs = Inr u \<longleftrightarrow> (\<forall>c\<in>set cs. c = Inr ())"
  by (induction cs) (auto simp: res_bind_eq_Inr)

lemma check_all_not_panic: "\<forall>c\<in>set cs. \<not> is_panic c \<Longrightarrow> \<not> is_panic (check_all cs)"
  by (induction cs) (auto simp: res_bind_def split: sum.split)

lemma u64_arg_eq_Inr [simp]: "u64_arg n v = Inr u \<longleftrightarrow> 0 \<le> sint v"
  by (auto simp: u64_arg_def)

lemma scan_u64_eq_Inr [simp]: "scan_u64 col v = Inr u \<longleftrightarrow> 0 \<le> sint v \<and> u = v"
  by (auto simp: scan_u64_def)

lemma not_null_eq_Inr [simp]: "not_null col v = Inr u \<longleftrightarrow> v \<noteq> None"
  by (auto simp: not_null_def)

lemma check_not_panic [simp]:
  "\<not> is_panic (u64_arg n v)" "\<not> is_panic (not_null col b)" "\<not> is_panic (scan_u64 c v)"
  by (simp_all add: u64_arg_def not_null_def scan_u64_def)

lemma sql_eq_simps [simp]:
  "sql_eq a (Some k) \<longleftrightarrow> a = Some k" "\<not> sql_eq a None" "\<not> sql_eq None b"
  by (auto simp: sql_eq_def)

lemma find_append:
  "find P (xs @ ys) = (case find P xs of Some x \<Rightarrow> Some x | None \<Rightarrow> find P ys)"
  by (induction xs) auto

lemma insert_row_eq_Inr [stmt_Inr]:
  "insert_row key col row rows = Inr rows' \<longleftrightarrow>
     (\<forall>r\<in>set rows. \<not> sql_eq (key r) (key row)) \<and> rows' = rows @ [row]"
  by (auto simp: insert_row_def)

lemma set_order [simp]: "set (order_asc c rows) = set rows" "set (order_desc c rows) = set rows"
  by (simp_all add: order_asc_def order_desc_def)

lemma set_limit_rows: "set (limit_rows n rows) \<subseteq> set rows"
  by (auto simp: limit_rows_def dest: in_set_takeD)

lemma length_limit_rows: "0 \<le> n \<Longrightarrow> length (limit_rows n rows) \<le> nat n"
  by (simp add: limit_rows_def)

lemma scan_rows_eq_Inr:
  "scan_rows scan rs = Inr xs \<longleftrightarrow> list_all2 (\<lambda>r x. scan r = Inr x) rs xs"
  by (induction rs arbitrary: xs) (auto simp: res_bind_eq_Inr list_all2_Cons1)

lemma scan_rows_map: "\<forall>r\<in>set rs. scan r = Inr (f r) \<Longrightarrow> scan_rows scan rs = Inr (map f rs)"
  by (induction rs) auto

lemma scan_rows_panic:
  "r \<in> set rs \<Longrightarrow> is_panic (scan r) \<Longrightarrow> \<forall>r'\<in>set rs. is_panic (scan r') \<or> (\<exists>x. scan r' = Inr x) \<Longrightarrow>
   is_panic (scan_rows scan rs)"
proof (induction rs)
  case (Cons a rs)
  show ?case
  proof (cases "is_panic (scan a)")
    case True
    then show ?thesis by (auto simp: is_panic_def split: sum.splits failure.splits)
  next
    case False
    with Cons.prems obtain x where x: "scan a = Inr x" and "r \<in> set rs" by auto
    with Cons have "is_panic (scan_rows scan rs)" by auto
    with x show ?thesis by (auto simp: is_panic_def split: sum.splits failure.splits)
  qed
qed simp

lemma select_row_Some:
  "select_row key k rows = Some r \<Longrightarrow> r \<in> set rows \<and> key r = k \<and> k \<noteq> None"
  by (auto simp: select_row_def find_Some_iff sql_eq_def)

lemma select_row_None [simp]: "select_row key None rows = None"
  by (simp add: select_row_def find_None_iff)

lemma select_row_eq_None:
  "select_row key k rows = None \<longleftrightarrow> (\<forall>r\<in>set rows. \<not> sql_eq (key r) k)"
  by (auto simp: select_row_def find_None_iff)

lemma select_row_append:
  "select_row key k (rows @ [row]) =
     (case select_row key k rows of Some r \<Rightarrow> Some r | None \<Rightarrow> if sql_eq (key row) k then Some row else None)"
  by (induction rows) (auto simp: select_row_def)

section \<open>Interfaces of keyed tables\<close>

text \<open>
  A table whose rows are written once: an insert fails when its key is present, and a successful
  insert makes the row readable and leaves every other key alone.
\<close>

locale write_once =
  fixes ins :: "'r \<Rightarrow> 't \<Rightarrow> 't res"
    and get :: "'k \<Rightarrow> 't \<Rightarrow> 'r option"
    and keyof :: "'r \<Rightarrow> 'k option"
  assumes get_ins: "ins r t = Inr t' \<Longrightarrow> get k t' = (if keyof r = Some k then Some r else get k t)"
    and ins_fresh: "ins r t = Inr t' \<Longrightarrow> keyof r = Some k \<Longrightarrow> get k t = None"
    and ins_dup: "get k t \<noteq> None \<Longrightarrow> keyof r = Some k \<Longrightarrow> \<exists>e. ins r t = Inl (Err e)"
begin

text \<open>A client that inserts and ignores failures.\<close>

definition try_ins :: "'r \<Rightarrow> 't \<Rightarrow> 't" where
  "try_ins r t = (case ins r t of Inl _ \<Rightarrow> t | Inr t' \<Rightarrow> t')"

lemma try_ins_keeps: "get k t = Some v \<Longrightarrow> get k (try_ins r t) = Some v"
  using get_ins [of r t] ins_fresh [of r t] by (auto simp: try_ins_def split: sum.split)

text \<open>Rows are never overwritten by later inserts.\<close>

lemma fold_try_ins_keeps: "get k t = Some v \<Longrightarrow> get k (fold try_ins rs t) = Some v"
  by (induction rs arbitrary: t) (auto intro: try_ins_keeps)

end

text \<open>
  A table whose rows are replaced: after a put, the row is the one its key returns, and every
  other key returns what it did.
\<close>

locale replace_table =
  fixes put :: "'r \<Rightarrow> 't \<Rightarrow> 't"
    and get :: "'k \<Rightarrow> 't \<Rightarrow> 'r option"
    and keyof :: "'r \<Rightarrow> 'k option"
  assumes get_put: "get k (put r t) = (if keyof r = Some k then Some r else get k t)"
begin

text \<open>After a sequence of puts, a key returns the last row put under it.\<close>

lemma get_fold_put:
  "get k (fold put rs t) =
     (case find (\<lambda>r. keyof r = Some k) (rev rs) of Some r \<Rightarrow> Some r | None \<Rightarrow> get k t)"
proof (induction rs arbitrary: t)
  case (Cons r rs)
  from Cons.IH [of "put r t"] show ?case
    by (auto simp: get_put find_append split: option.split)
qed simp

lemma put_put: "keyof r = keyof r' \<Longrightarrow> get k (put r' (put r t)) = get k (put r' t)"
  by (simp add: get_put)

end

text \<open>Both are implemented by lists of rows with a key column.\<close>

interpretation rows_once: write_once "insert_row key col" "\<lambda>k. select_row key (Some k)" key for key col
proof unfold_locales
  fix r t t' k
  assume "insert_row key col r t = Inr t'"
  hence fresh: "\<forall>x\<in>set t. \<not> sql_eq (key x) (key r)" and t': "t' = t @ [r]"
    by (auto simp: insert_row_eq_Inr)
  show "select_row key (Some k) t' = (if key r = Some k then Some r else select_row key (Some k) t)"
  proof (cases "key r = Some k")
    case True
    with fresh have "select_row key (Some k) t = None" by (simp add: select_row_eq_None)
    with True t' show ?thesis by (simp add: select_row_append)
  next
    case False
    with t' show ?thesis by (simp add: select_row_append split: option.split)
  qed
  assume "key r = Some k"
  with fresh show "select_row key (Some k) t = None" by (simp add: select_row_eq_None)
next
  fix k t r
  assume "select_row key (Some k) t \<noteq> None" "key r = Some k"
  thus "\<exists>e. insert_row key col r t = Inl (Err e)"
    by (auto simp: select_row_eq_None insert_row_def fail_def)
qed

lemma select_upsert_row:
  "select_row key (Some k) (upsert_row key r t) = (if key r = Some k then Some r else select_row key (Some k) t)"
proof (cases "\<exists>x\<in>set t. sql_eq (key x) (key r)")
  case False
  then have "upsert_row key r t = t @ [r]" by (simp add: upsert_row_def)
  moreover have "key r = Some k \<Longrightarrow> select_row key (Some k) t = None"
    using False by (simp add: select_row_eq_None)
  ultimately show ?thesis
    by (auto simp: select_row_append split: option.split)
next
  case True
  have "select_row key (Some k) (map (\<lambda>x. if sql_eq (key x) (key r) then r else x) t) =
      (if key r = Some k then (if \<exists>x\<in>set t. sql_eq (key x) (key r) then Some r else None) else select_row key (Some k) t)"
    by (cases "key r"; induction t) (auto simp: select_row_def)
  with True show ?thesis by (auto simp: upsert_row_def)
qed

interpretation rows_replace: replace_table "upsert_row key" "\<lambda>k. select_row key (Some k)" key for key
  by unfold_locales (rule select_upsert_row)

end
