(* ===== verification/Crypto.thy ===== *)
theory Crypto
  imports Prelude
begin

text \<open>
  The package \<open>crypto/\<close>: thin wrappers that check key sizes before they call the primitives of
  Go's \<open>crypto\<close> packages.  The primitives themselves are the fields of a parameter; what the
  protocol needs of them (a digest has 32 bytes, a signature made with the private key of a pair
  verifies under its public key) are the named predicates \<open>sha256_ok\<close> and \<open>keypair_ok\<close>.
\<close>

record crypto_prims =
  sha256_Sum256 :: "byte list \<Rightarrow> byte list"
  ed25519_Sign :: "byte list \<Rightarrow> byte list \<Rightarrow> byte list"
  ed25519_Verify :: "byte list \<Rightarrow> byte list \<Rightarrow> byte list \<Rightarrow> bool"
  x25519_NewPrivateKey :: "byte list \<Rightarrow> go_error + byte list"
  x25519_NewPublicKey :: "byte list \<Rightarrow> go_error + byte list"
  x25519_ECDH :: "byte list \<Rightarrow> byte list \<Rightarrow> go_error + byte list"

definition sha256_ok :: "crypto_prims \<Rightarrow> bool" where
  "sha256_ok cr \<longleftrightarrow> (\<forall>m. length (sha256_Sum256 cr m) = 32)"

definition keypair_ok :: "crypto_prims \<Rightarrow> byte list \<Rightarrow> byte list \<Rightarrow> bool" where
  "keypair_ok cr pub priv \<longleftrightarrow>
     length pub = 32 \<and> length priv = 64 \<and>
     (\<forall>m. ed25519_Verify cr pub m (ed25519_Sign cr priv m))"

section \<open>Hashing\<close>

definition Hash :: "crypto_prims \<Rightarrow> byte list \<Rightarrow> byte list" where
  "Hash cr data = sha256_Sum256 cr data"

fun appendChunks :: "byte list \<Rightarrow> slice list \<Rightarrow> byte list" where
  "appendChunks appended [] = appended"
| "appendChunks appended (chunk # chunks) = appendChunks (appended @ bs chunk) chunks"

definition HashChunks :: "crypto_prims \<Rightarrow> slice list \<Rightarrow> byte list" where
  "HashChunks cr chunks = Hash cr (appendChunks [] chunks)"

section \<open>Signatures\<close>

definition PrivateKeySize :: nat where "PrivateKeySize = 64"
definition PublicKeySize :: nat where "PublicKeySize = 32"

text \<open>\<open>GenerateKeyPair\<close>: the argument is the outcome of \<open>ed25519.GenerateKey(rand.Reader)\<close>.\<close>

definition GenerateKeyPair :: "go_error + byte list \<times> byte list \<Rightarrow> (slice \<times> slice) res" where
  "GenerateKeyPair generated =
     (case generated of Inl e \<Rightarrow> Inl (Err e) | Inr (pub, priv) \<Rightarrow> Inr (Some pub, Some priv))"

definition Sign :: "crypto_prims \<Rightarrow> slice \<Rightarrow> byte list \<Rightarrow> slice res" where
  "Sign cr privateKey message =
     (if length (bs privateKey) \<noteq> PrivateKeySize
      then fail (''expected key size '' @ itoa PrivateKeySize @ '', got '' @ itoa (length (bs privateKey)))
      else Inr (Some (ed25519_Sign cr (bs privateKey) message)))"

definition Verify :: "crypto_prims \<Rightarrow> slice \<Rightarrow> byte list \<Rightarrow> slice \<Rightarrow> bool res" where
  "Verify cr publicKey message signature =
     (if length (bs publicKey) \<noteq> PublicKeySize
      then fail (''expected key size '' @ itoa PublicKeySize @ '', got '' @ itoa (length (bs publicKey)))
      else Inr (ed25519_Verify cr (bs publicKey) message (bs signature)))"

section \<open>Key agreement\<close>

text \<open>\<open>GenerateSessionKeyPair\<close>: the argument is the outcome of \<open>ecdh.X25519().GenerateKey\<close>, a
  private key with its public half.\<close>

definition GenerateSessionKeyPair :: "go_error + byte list \<times> byte list \<Rightarrow> (slice \<times> slice) res" where
  "GenerateSessionKeyPair generated =
     (case generated of
        Inl e \<Rightarrow> Inl (Err e)
      | Inr (privateKeyBytes, publicKeyBytes) \<Rightarrow> Inr (Some publicKeyBytes, Some privateKeyBytes))"

definition DeriveSharedSecret :: "crypto_prims \<Rightarrow> slice \<Rightarrow> slice \<Rightarrow> slice res" where
  "DeriveSharedSecret cr myPrivateKey peerPublicKey =
     (case x25519_NewPrivateKey cr (bs myPrivateKey) of
        Inl e \<Rightarrow> Inl (Err e)
      | Inr newPrivateKey \<Rightarrow>
          (case x25519_NewPublicKey cr (bs peerPublicKey) of
             Inl e \<Rightarrow> Inl (Err e)
           | Inr newPeerPublicKey \<Rightarrow>
               (case x25519_ECDH cr newPrivateKey newPeerPublicKey of
                  Inl e \<Rightarrow> Inl (Err e)
                | Inr sharedSecret \<Rightarrow> Inr (Some sharedSecret))))"

section \<open>Lemmas\<close>

lemma length_Hash: "sha256_ok cr \<Longrightarrow> length (Hash cr m) = 32"
  by (simp add: sha256_ok_def Hash_def)

lemma appendChunks_concat: "appendChunks acc chunks = acc @ concat (map bs chunks)"
  by (induction chunks arbitrary: acc) auto

lemma Verify_eq_Inr:
  "Verify cr pub m sig = Inr ok \<longleftrightarrow>
     length (bs pub) = 32 \<and> ok = ed25519_Verify cr (bs pub) m (bs sig)"
  by (auto simp: Verify_def PublicKeySize_def)

lemma Sign_eq_Inr:
  "Sign cr priv m = Inr sig \<longleftrightarrow>
     length (bs priv) = 64 \<and> sig = Some (ed25519_Sign cr (bs priv) m)"
  by (auto simp: Sign_def PrivateKeySize_def)

lemma Sign_not_panic [simp]: "\<not> is_panic (Sign cr priv m)"
  by (simp add: Sign_def)

lemma Verify_not_panic [simp]: "\<not> is_panic (Verify cr pub m sig)"
  by (simp add: Verify_def)

lemma Sign_Verify:
  "keypair_ok cr pub priv \<Longrightarrow> Sign cr (Some priv) m = Inr sig \<Longrightarrow> Verify cr (Some pub) m sig = Inr True"
  by (simp add: Sign_eq_Inr Verify_eq_Inr keypair_ok_def)

lemma keypair_okD:
  "keypair_ok cr pub priv \<Longrightarrow> length pub = 32"
  "keypair_ok cr pub priv \<Longrightarrow> length priv = 64"
  "keypair_ok cr pub priv \<Longrightarrow> ed25519_Verify cr pub m (ed25519_Sign cr priv m)"
  by (simp_all add: keypair_ok_def)

section \<open>A concrete instance\<close>

text \<open>
  An instance of the primitives on which concrete runs can be evaluated: the digest is the
  message padded or cut to 32 bytes, a private key is its public key twice, and a signature is
  the public key followed by the message.
\<close>

definition demo_crypto :: crypto_prims where
  "demo_crypto =
     \<lparr>sha256_Sum256 = (\<lambda>m. take 32 (m @ replicate 32 0)),
      ed25519_Sign = (\<lambda>priv m. take 32 priv @ m),
      ed25519_Verify = (\<lambda>pub m sig. sig = pub @ m),
      x25519_NewPrivateKey = Inr, x25519_NewPublicKey = Inr,
      x25519_ECDH = (\<lambda>priv pub. Inr (map2 (\<lambda>x y. x + y) priv pub))\<rparr>"

definition demo_pub :: "byte \<Rightarrow> byte list" where
  "demo_pub b = replicate 32 b"

definition demo_priv :: "byte \<Rightarrow> byte list" where
  "demo_priv b = replicate 64 b"

lemma demo_sha256_ok: "sha256_ok demo_crypto"
  by (auto simp: sha256_ok_def demo_crypto_def min_def)

lemma demo_keypair_ok: "keypair_ok demo_crypto (demo_pub b) (demo_priv b)"
  by (simp add: keypair_ok_def demo_crypto_def demo_pub_def demo_priv_def)

end
