(* ===== verification/Wire_Types.thy ===== *)
theory Wire_Types
  imports Prelude
begin

text \<open>
  The protocol messages of \<open>wire/gen/core.pb.go\<close>, as records with the fields of the Go structs
  (prefixed by the message, since Isabelle's field names are global).  A message pointer is an
  option.  Proto3 enumerations are open: a decoded value may be any \<open>int32\<close>, so they are words
  with named constants.
\<close>

type_synonym Visibility = int32
type_synonym ConfidenceLevel = int32
type_synonym ServicePolicy = int32

definition CONFIDENCE_LOW :: ConfidenceLevel where "CONFIDENCE_LOW = 1"
definition CONFIDENCE_HIGH :: ConfidenceLevel where "CONFIDENCE_HIGH = 2"

definition POLICY_NONE :: ServicePolicy where "POLICY_NONE = 0"
definition POLICY_LIGHT :: ServicePolicy where "POLICY_LIGHT = 1"
definition POLICY_STRICT :: ServicePolicy where "POLICY_STRICT = 2"

lemmas policy_defs = POLICY_NONE_def POLICY_LIGHT_def POLICY_STRICT_def

record CumulativeTotals =
  ct_CumulativeSent :: uint64
  ct_CumulativeReceived :: uint64

record ShareRecord =
  sr_Id :: slice
  sr_SenderPubkey :: slice
  sr_ReceiverPubkey :: slice
  sr_PrevSender :: slice
  sr_PrevReceiver :: slice
  sr_SenderRecordIndex :: uint64
  sr_ReceiverRecordIndex :: uint64
  sr_SenderTotals :: "CumulativeTotals option"
  sr_ReceiverTotals :: "CumulativeTotals option"
  sr_RequestHash :: slice
  sr_ChunkHashes :: "slice list"
  sr_BytesTotal :: uint64
  sr_Timestamp :: int64
  sr_SenderSig :: slice
  sr_ReceiverSig :: slice
  sr_FileHash :: slice
  sr_Visibility :: Visibility

record TransferRequest =
  tr_RequesterPubkey :: slice
  tr_FileHash :: slice
  tr_ChunkIndices :: "uint32 list"
  tr_Nonce :: slice
  tr_Timestamp :: int64
  tr_Signature :: slice

record FileMeta =
  fm_FileHash :: slice
  fm_FileName :: string
  fm_FileSize :: uint64
  fm_ChunkSize :: uint64
  fm_ChunkHashes :: "slice list"
  fm_OriginPubkey :: slice
  fm_OriginSig :: slice
  fm_CreatedAt :: int64

record CheckpointWitness =
  cw_WitnessPubkey :: slice
  cw_WitnessSig :: slice
  cw_EncounterCluster :: string

record Checkpoint =
  cp_DevicePubkey :: slice
  cp_ChainHead :: slice
  cp_RecordIndex :: uint64
  cp_Totals :: "CumulativeTotals option"
  cp_RawBalance :: int64
  cp_Timestamp :: int64
  cp_DeviceSig :: slice
  cp_Witnesses :: "CheckpointWitness option list"
  cp_Confidence :: ConfidenceLevel

record ForkEvidence =
  fe_DevicePubkey :: slice
  fe_RecordA :: "ShareRecord option"
  fe_RecordB :: "ShareRecord option"
  fe_ReporterPubkey :: slice
  fe_ReporterSig :: slice
  fe_DetectedAt :: int64

record PeerInfo =
  pi_Pubkey :: slice
  pi_ChainHead :: slice
  pi_RecordIndex :: uint64
  pi_Totals :: "CumulativeTotals option"
  pi_LastSeen :: int64
  pi_HasForkEvidence :: bool
  pi_TransportType :: string

record GossipPayload =
  gp_SelfSummary :: "PeerInfo option"
  gp_PeerSummaries :: "PeerInfo option list"
  gp_ForkEvidence :: "ForkEvidence option list"
  gp_SeedingFiles :: "FileMeta option list"
  gp_LatestCheckpoint :: "Checkpoint option"

record HandshakeMsg =
  hs_SessionId :: slice
  hs_EphemeralPubkey :: slice
  hs_IdentityPubkey :: slice
  hs_Policy :: ServicePolicy
  hs_LatestCheckpoint :: "Checkpoint option"
  hs_RecordsSinceCheckpoint :: "ShareRecord option list"

record ChunkData =
  cd_ChunkIndex :: uint32
  cd_Data :: slice

record ChunkBatch =
  cb_FileHash :: slice
  cb_Chunks :: "ChunkData option list"

record FileCapability =
  fc_FileHash :: slice
  fc_GrantedTo :: slice
  fc_GrantedBy :: slice
  fc_ExpiresAt :: int64
  fc_Signature :: slice

text \<open>The \<open>oneof\<close> of an envelope: one wrapper struct per alternative, each with a message pointer.\<close>

datatype Envelope_Payload =
    Envelope_Handshake "HandshakeMsg option"
  | Envelope_TransferRequest "TransferRequest option"
  | Envelope_ChunkBatch "ChunkBatch option"
  | Envelope_ShareRecord "ShareRecord option"
  | Envelope_Gossip "GossipPayload option"
  | Envelope_ForkEvidence "ForkEvidence option"

record Envelope =
  env_Payload :: "Envelope_Payload option"

text \<open>
  The functions of the protobuf runtime that the code calls.  Marshalling a nil message gives a nil slice.
\<close>

record proto_lib =
  marshal_ShareRecord :: "ShareRecord option \<Rightarrow> slice res"
  unmarshal_ShareRecord :: "byte list \<Rightarrow> ShareRecord res"
  marshal_Witness :: "CheckpointWitness option \<Rightarrow> byte list res"
  unmarshal_Witness :: "byte list \<Rightarrow> CheckpointWitness res"
  marshal_TransferRequest :: "TransferRequest \<Rightarrow> byte list res"
  marshal_Envelope :: "Envelope \<Rightarrow> byte list res"
  unmarshal_Envelope :: "byte list \<Rightarrow> Envelope res"
  size_Handshake :: "HandshakeMsg \<Rightarrow> nat"

text \<open>The getters of the envelope: nil unless the payload is of the asked kind.\<close>

definition GetHandshake :: "Envelope option \<Rightarrow> HandshakeMsg option" where
  "GetHandshake x =
     (case x of None \<Rightarrow> None
      | Some e \<Rightarrow> (case env_Payload e of Some (Envelope_Handshake m) \<Rightarrow> m | _ \<Rightarrow> None))"

definition GetChunkBatch :: "Envelope option \<Rightarrow> ChunkBatch option" where
  "GetChunkBatch x =
     (case x of None \<Rightarrow> None
      | Some e \<Rightarrow> (case env_Payload e of Some (Envelope_ChunkBatch m) \<Rightarrow> m | _ \<Rightarrow> None))"

definition GetShareRecord :: "Envelope option \<Rightarrow> ShareRecord option" where
  "GetShareRecord x =
     (case x of None \<Rightarrow> None
      | Some e \<Rightarrow> (case env_Payload e of Some (Envelope_ShareRecord m) \<Rightarrow> m | _ \<Rightarrow> None))"

definition GetGossip :: "Envelope option \<Rightarrow> GossipPayload option" where
  "GetGossip x =
     (case x of None \<Rightarrow> None
      | Some e \<Rightarrow> (case env_Payload e of Some (Envelope_Gossip m) \<Rightarrow> m | _ \<Rightarrow> None))"

text \<open>\<open>&pb.Envelope{Payload: p}\<close>\<close>

definition envelope :: "Envelope_Payload \<Rightarrow> Envelope" where
  "envelope p = \<lparr>env_Payload = Some p\<rparr>"

lemma envelope_getters [simp]:
  "GetHandshake (Some (envelope (Envelope_Handshake m))) = m"
  "GetChunkBatch (Some (envelope (Envelope_ChunkBatch b))) = b"
  "GetShareRecord (Some (envelope (Envelope_ShareRecord r))) = r"
  "GetGossip (Some (envelope (Envelope_Gossip g))) = g"
  "GetHandshake None = None" "GetChunkBatch None = None"
  "GetShareRecord None = None" "GetGossip None = None"
  by (simp_all add: envelope_def GetHandshake_def GetChunkBatch_def GetShareRecord_def GetGossip_def)

end
