(* ===== verification/Store.thy ===== *)
theory Store
  imports Sql Crypto Wire_Types
begin

text \<open>
  The package \<open>storage/\<close>: the tables of \<open>db.go\<close> as lists of row records, the schema migrations,
  and one definition per method of \<open>Store\<close>.  A method that changes the database returns the new
  one or the failure, in which case nothing was written (each method issues one statement).
  Identifiers of the rows are the column names of the \<open>CREATE TABLE\<close> statements.
\<close>

section \<open>Tables\<close>

record RecordRow =
  rr_id :: slice
  rr_sender_pubkey :: slice
  rr_receiver_pubkey :: slice
  rr_prev_sender :: slice
  rr_prev_receiver :: slice
  rr_sender_record_index :: int64
  rr_receiver_record_index :: int64
  rr_sender_cumulative_sent :: int64
  rr_sender_cumulative_received :: int64
  rr_receiver_cumulative_sent :: int64
  rr_receiver_cumulative_received :: int64
  rr_request_hash :: slice
  rr_chunk_hashes :: slice
  rr_bytes_total :: int64
  rr_timestamp :: int64
  rr_sender_sig :: slice
  rr_receiver_sig :: slice
  rr_file_hash :: slice
  rr_visibility :: int32

record PeerRow =
  pr_pubkey :: slice
  pr_chain_head :: slice
  pr_record_index :: int64
  pr_cumulative_sent :: int64
  pr_cumulative_received :: int64
  pr_last_seen :: int64
  pr_has_fork_evidence :: bool
  pr_transport_type :: string

record FileRow =
  fr_file_hash :: slice
  fr_file_name :: string
  fr_file_size :: int64
  fr_chunk_size :: int64
  fr_chunk_hashes :: slice
  fr_origin_pubkey :: slice
  fr_origin_sig :: slice
  fr_created_at :: int64

record CheckpointRow =
  cr_device_pubkey :: slice
  cr_chain_head :: slice
  cr_record_index :: int64
  cr_cumulative_sent :: int64
  cr_cumulative_received :: int64
  cr_raw_balance :: int64
  cr_timestamp :: int64
  cr_device_sig :: slice
  cr_witnesses :: slice
  cr_confidence :: int32

record ForkRow =
  kr_device_pubkey :: slice
  kr_record_a :: slice
  kr_record_b :: slice
  kr_reporter_pubkey :: slice
  kr_reporter_sig :: slice
  kr_detected_at :: int64

record RequestRow =
  qr_hash :: slice
  qr_requester_pubkey :: slice
  qr_file_hash :: slice
  qr_chunk_indices :: slice
  qr_nonce :: slice
  qr_timestamp :: int64
  qr_signature :: slice
  qr_status :: string

text \<open>The struct \<open>TransferStateRow\<close>, which is also the row of its table.\<close>

record TransferStateRow =
  ts_ID :: string
  ts_PeerID :: string
  ts_Direction :: string
  ts_FileHash :: slice
  ts_State :: string
  ts_LastError :: string
  ts_UpdatedAt :: int64

text \<open>The struct \<open>Identity\<close>; its table has at most the row with \<open>id = 1\<close>.\<close>

record Identity =
  id_Pubkey :: slice
  id_PrivateKey :: slice
  id_CreatedAt :: int64
  id_ChainHead :: slice
  id_ChainIndex :: uint64
  id_CumulativeSent :: uint64
  id_CumulativeReceived :: uint64

record Store =
  share_records :: "RecordRow list"
  peers :: "PeerRow list"
  files :: "FileRow list"
  checkpoints :: "CheckpointRow list"
  fork_evidence :: "ForkRow list"
  transfer_requests :: "RequestRow list"
  identity_row :: "Identity option"
  transfer_state :: "TransferStateRow list"

definition empty_store :: Store where
  "empty_store = \<lparr>share_records = [], peers = [], files = [], checkpoints = [], fork_evidence = [],
     transfer_requests = [], identity_row = None, transfer_state = []\<rparr>"

section \<open>Blob encodings\<close>

definition joinHashes :: "slice list \<Rightarrow> slice" where
  "joinHashes hashes = fold (\<lambda>h out. if bs h = [] then out else Some (bs out @ bs h)) hashes None"

text \<open>
  \<open>data[i:i+32]\<close> may reach past the length of the slice up to its capacity; \<open>buf\<close> is the
  slice extended to its capacity, \<open>n\<close> its length.
\<close>

function splitFrom :: "byte list \<Rightarrow> nat \<Rightarrow> nat \<Rightarrow> slice list res" where
  "splitFrom buf n i =
     (if i < n
      then if i + 32 \<le> length buf
           then res_bind (splitFrom buf n (i + 32)) (\<lambda>hs. Inr (Some (take 32 (drop i buf)) # hs))
           else Inl (Panic ''slice bounds out of range'')
      else Inr [])"
  by pat_completeness auto
termination
  by (relation "measure (\<lambda>(buf, n, i). n - i)") auto

definition splitHashes :: "engine \<Rightarrow> slice \<Rightarrow> slice list res" where
  "splitHashes en data = splitFrom (bs data @ en_spare en (bs data)) (length (bs data)) 0"

definition marshalUint32s :: "uint32 list \<Rightarrow> slice" where
  "marshalUint32s values = (if length values = 0 then None else Some (concat (map be32 values)))"

definition unmarshalUint32s :: "slice \<Rightarrow> uint32 list" where
  "unmarshalUint32s data =
     (if length (bs data) = 0 then []
      else map (\<lambda>i. unbe32 (drop (i * 4) (bs data))) [0..<length (bs data) div 4])"

text \<open>Each witness is marshalled and prefixed with its length.\<close>

fun marshalWitnessLoop :: "proto_lib \<Rightarrow> byte list \<Rightarrow> CheckpointWitness option list \<Rightarrow> byte list res" where
  "marshalWitnessLoop pl out [] = Inr out"
| "marshalWitnessLoop pl out (w # ws) =
     res_bind (marshal_Witness pl w) (\<lambda>data.
       marshalWitnessLoop pl ((out @ be32 (of_nat (length data))) @ data) ws)"

definition marshalWitnesses :: "proto_lib \<Rightarrow> CheckpointWitness option list \<Rightarrow> slice res" where
  "marshalWitnesses pl witnesses =
     (if length witnesses = 0 then Inr None
      else res_bind (marshalWitnessLoop pl [] witnesses) (\<lambda>out. Inr (Some out)))"

function unmarshalWitnessLoop :: "proto_lib \<Rightarrow> byte list \<Rightarrow> nat \<Rightarrow> CheckpointWitness option list res" where
  "unmarshalWitnessLoop pl data offset =
     (if offset < length data
      then if offset + 4 > length data then fail ''invalid witness data: truncated length''
        else let len = unat (unbe32 (take 4 (drop offset data))) in
          if offset + 4 + len > length data then fail ''invalid witness data: truncated payload''
          else res_bind (unmarshal_Witness pl (take len (drop (offset + 4) data))) (\<lambda>w.
                 res_bind (unmarshalWitnessLoop pl data (offset + 4 + len)) (\<lambda>ws. Inr (Some w # ws)))
      else Inr [])"
  by pat_completeness auto
termination
  by (relation "measure (\<lambda>(pl, data, offset). length data - offset)") auto

definition unmarshalWitnesses :: "proto_lib \<Rightarrow> slice \<Rightarrow> CheckpointWitness option list res" where
  "unmarshalWitnesses pl data =
     (if length (bs data) = 0 then Inr [] else unmarshalWitnessLoop pl (bs data) 0)"

declare splitFrom.simps [simp del] unmarshalWitnessLoop.simps [simp del]

section \<open>Share records\<close>

definition record_row :: "engine \<Rightarrow> ShareRecord \<Rightarrow> RecordRow" where
  "record_row en r =
     \<lparr>rr_id = en_bind_blob en (sr_Id r),
      rr_sender_pubkey = en_bind_blob en (sr_SenderPubkey r),
      rr_receiver_pubkey = en_bind_blob en (sr_ReceiverPubkey r),
      rr_prev_sender = en_bind_blob en (sr_PrevSender r),
      rr_prev_receiver = en_bind_blob en (sr_PrevReceiver r),
      rr_sender_record_index = sr_SenderRecordIndex r,
      rr_receiver_record_index = sr_ReceiverRecordIndex r,
      rr_sender_cumulative_sent = getp 0 ct_CumulativeSent (sr_SenderTotals r),
      rr_sender_cumulative_received = getp 0 ct_CumulativeReceived (sr_SenderTotals r),
      rr_receiver_cumulative_sent = getp 0 ct_CumulativeSent (sr_ReceiverTotals r),
      rr_receiver_cumulative_received = getp 0 ct_CumulativeReceived (sr_ReceiverTotals r),
      rr_request_hash = en_bind_blob en (sr_RequestHash r),
      rr_chunk_hashes = en_bind_blob en (joinHashes (sr_ChunkHashes r)),
      rr_bytes_total = sr_BytesTotal r,
      rr_timestamp = sr_Timestamp r,
      rr_sender_sig = en_bind_blob en (sr_SenderSig r),
      rr_receiver_sig = en_bind_blob en (sr_ReceiverSig r),
      rr_file_hash = en_bind_blob en (sr_FileHash r),
      rr_visibility = sr_Visibility r\<rparr>"

definition InsertRecord :: "engine \<Rightarrow> ShareRecord \<Rightarrow> Store \<Rightarrow> Store res" where
  "InsertRecord en record s =
     (let row = record_row en record in
      res_bind (check_all
        [u64_arg 6 (rr_sender_record_index row), u64_arg 7 (rr_receiver_record_index row),
         u64_arg 8 (rr_sender_cumulative_sent row), u64_arg 9 (rr_sender_cumulative_received row),
         u64_arg 10 (rr_receiver_cumulative_sent row), u64_arg 11 (rr_receiver_cumulative_received row),
         u64_arg 14 (rr_bytes_total row)]) (\<lambda>_.
      run_stmt en (
      res_bind (check_all
        [not_null ''share_records.sender_pubkey'' (rr_sender_pubkey row),
         not_null ''share_records.receiver_pubkey'' (rr_receiver_pubkey row),
         not_null ''share_records.request_hash'' (rr_request_hash row),
         not_null ''share_records.sender_sig'' (rr_sender_sig row),
         not_null ''share_records.receiver_sig'' (rr_receiver_sig row),
         not_null ''share_records.file_hash'' (rr_file_hash row)]) (\<lambda>_.
      res_bind (insert_row rr_id ''share_records.id'' row (share_records s)) (\<lambda>rows.
      Inr (s\<lparr>share_records := rows\<rparr>))))))"

definition scanRecord :: "engine \<Rightarrow> RecordRow \<Rightarrow> ShareRecord res" where
  "scanRecord en row =
     res_bind (scan_u64 ''sender_record_index'' (rr_sender_record_index row)) (\<lambda>senderRecordIndex.
     res_bind (scan_u64 ''receiver_record_index'' (rr_receiver_record_index row)) (\<lambda>receiverRecordIndex.
     res_bind (scan_u64 ''sender_cumulative_sent'' (rr_sender_cumulative_sent row)) (\<lambda>senderCumulativeSent.
     res_bind (scan_u64 ''sender_cumulative_received'' (rr_sender_cumulative_received row)) (\<lambda>senderCumulativeReceived.
     res_bind (scan_u64 ''receiver_cumulative_sent'' (rr_receiver_cumulative_sent row)) (\<lambda>receiverCumulativeSent.
     res_bind (scan_u64 ''receiver_cumulative_received'' (rr_receiver_cumulative_received row)) (\<lambda>receiverCumulativeReceived.
     res_bind (scan_u64 ''bytes_total'' (rr_bytes_total row)) (\<lambda>bytesTotal.
     res_bind (splitHashes en (rr_chunk_hashes row)) (\<lambda>chunkHashes.
     Inr \<lparr>sr_Id = rr_id row, sr_SenderPubkey = rr_sender_pubkey row, sr_ReceiverPubkey = rr_receiver_pubkey row,
          sr_PrevSender = rr_prev_sender row, sr_PrevReceiver = rr_prev_receiver row,
          sr_SenderRecordIndex = senderRecordIndex, sr_ReceiverRecordIndex = receiverRecordIndex,
          sr_SenderTotals = Some \<lparr>ct_CumulativeSent = senderCumulativeSent, ct_CumulativeReceived = senderCumulativeReceived\<rparr>,
          sr_ReceiverTotals = Some \<lparr>ct_CumulativeSent = receiverCumulativeSent, ct_CumulativeReceived = receiverCumulativeReceived\<rparr>,
          sr_RequestHash = rr_request_hash row, sr_ChunkHashes = chunkHashes, sr_BytesTotal = bytesTotal,
          sr_Timestamp = rr_timestamp row, sr_SenderSig = rr_sender_sig row, sr_ReceiverSig = rr_receiver_sig row,
          sr_FileHash = rr_file_hash row, sr_Visibility = rr_visibility row\<rparr>))))))))"

definition GetRecord :: "engine \<Rightarrow> slice \<Rightarrow> Store \<Rightarrow> ShareRecord res" where
  "GetRecord en recId s =
     run_stmt en (scan_row (scanRecord en) (select_row rr_id (en_bind_blob en recId) (share_records s)))"

definition of_device :: "engine \<Rightarrow> slice \<Rightarrow> RecordRow \<Rightarrow> bool" where
  "of_device en d row \<longleftrightarrow>
     sql_eq (rr_sender_pubkey row) (en_bind_blob en d) \<or> sql_eq (rr_receiver_pubkey row) (en_bind_blob en d)"

definition GetRecordsByDevice :: "engine \<Rightarrow> slice \<Rightarrow> uint64 \<Rightarrow> int \<Rightarrow> Store \<Rightarrow> ShareRecord list res" where
  "GetRecordsByDevice en devicePublicKey fromIndex limit s =
     (if devicePublicKey = None then fail ''device public key is required''
      else if limit \<le> 0 then fail ''limit must be positive''
      else res_bind (check_all [u64_arg 3 fromIndex, u64_arg 4 fromIndex]) (\<lambda>_.
        run_stmt en (scan_rows (scanRecord en) (limit_rows limit (order_asc rr_timestamp
          (filter (\<lambda>row. of_device en devicePublicKey row \<and>
             (sint fromIndex \<le> sint (rr_sender_record_index row) \<or> sint fromIndex \<le> sint (rr_receiver_record_index row)))
             (share_records s)))))))"

definition GetRecordsBetween :: "engine \<Rightarrow> slice \<Rightarrow> uint64 \<Rightarrow> uint64 \<Rightarrow> int \<Rightarrow> Store \<Rightarrow> ShareRecord list res" where
  "GetRecordsBetween en publicKey fromIndex toIndex limit s =
     (if publicKey = None then fail ''public key is required''
      else if fromIndex \<ge> toIndex then fail ''from index must be before to index''
      else if limit \<le> 0 then fail ''limit must be positive''
      else res_bind (check_all [u64_arg 3 fromIndex, u64_arg 4 fromIndex, u64_arg 5 toIndex, u64_arg 6 toIndex]) (\<lambda>_.
        run_stmt en (scan_rows (scanRecord en) (limit_rows limit (order_asc rr_timestamp
          (filter (\<lambda>row. of_device en publicKey row \<and>
             (sint fromIndex \<le> sint (rr_sender_record_index row) \<or> sint fromIndex \<le> sint (rr_receiver_record_index row)) \<and>
             (sint (rr_sender_record_index row) \<le> sint toIndex \<or> sint (rr_receiver_record_index row) \<le> sint toIndex))
             (share_records s)))))))"

definition first_row :: "'r list \<Rightarrow> 'r option" where
  "first_row rows = (case limit_rows 1 rows of [] \<Rightarrow> None | r # _ \<Rightarrow> Some r)"

definition GetLatestRecord :: "engine \<Rightarrow> slice \<Rightarrow> Store \<Rightarrow> ShareRecord res" where
  "GetLatestRecord en publicKey s =
     (if publicKey = None then fail ''public key is required''
      else run_stmt en (scan_row (scanRecord en)
        (first_row (order_desc rr_timestamp (filter (of_device en publicKey) (share_records s))))))"

definition CounterpartyDiversity :: "engine \<Rightarrow> slice \<Rightarrow> int \<Rightarrow> Store \<Rightarrow> (byte list \<rightharpoonup> nat) res" where
  "CounterpartyDiversity en devicePublicKey windowSize s =
     run_stmt en (Inr (fold (\<lambda>row m.
        let peer = (if bytes_Equal (rr_sender_pubkey row) devicePublicKey
                    then bs (rr_receiver_pubkey row) else bs (rr_sender_pubkey row))
        in m(peer \<mapsto> (case m peer of None \<Rightarrow> 1 | Some n \<Rightarrow> Suc n)))
      (limit_rows windowSize (order_desc rr_timestamp (filter (of_device en devicePublicKey) (share_records s))))
      Map.empty))"

section \<open>Peers\<close>

text \<open>The totals are read without a nil check.\<close>

definition UpsertPeer :: "engine \<Rightarrow> PeerInfo option \<Rightarrow> Store \<Rightarrow> Store res" where
  "UpsertPeer en peer s =
     (case peer of
        None \<Rightarrow> fail ''peer is required''
      | Some p \<Rightarrow>
          (case pi_Totals p of
             None \<Rightarrow> nil_deref
           | Some totals \<Rightarrow>
               res_bind (check_all
                 [u64_arg 3 (pi_RecordIndex p), u64_arg 4 (ct_CumulativeSent totals),
                  u64_arg 5 (ct_CumulativeReceived totals)]) (\<lambda>_.
               run_stmt en (Inr (s\<lparr>peers := upsert_row pr_pubkey
                 \<lparr>pr_pubkey = en_bind_blob en (pi_Pubkey p), pr_chain_head = en_bind_blob en (pi_ChainHead p),
                  pr_record_index = pi_RecordIndex p, pr_cumulative_sent = ct_CumulativeSent totals,
                  pr_cumulative_received = ct_CumulativeReceived totals, pr_last_seen = pi_LastSeen p,
                  pr_has_fork_evidence = pi_HasForkEvidence p, pr_transport_type = pi_TransportType p\<rparr>
                 (peers s)\<rparr>)))))"

definition scanPeer :: "PeerRow \<Rightarrow> PeerInfo res" where
  "scanPeer row =
     res_bind (scan_u64 ''record_index'' (pr_record_index row)) (\<lambda>recordIndex.
     res_bind (scan_u64 ''cumulative_sent'' (pr_cumulative_sent row)) (\<lambda>cumulativeSent.
     res_bind (scan_u64 ''cumulative_received'' (pr_cumulative_received row)) (\<lambda>cumulativeReceived.
     Inr \<lparr>pi_Pubkey = pr_pubkey row, pi_ChainHead = pr_chain_head row, pi_RecordIndex = recordIndex,
          pi_Totals = Some \<lparr>ct_CumulativeSent = cumulativeSent, ct_CumulativeReceived = cumulativeReceived\<rparr>,
          pi_LastSeen = pr_last_seen row, pi_HasForkEvidence = pr_has_fork_evidence row,
          pi_TransportType = pr_transport_type row\<rparr>)))"

definition GetPeer :: "engine \<Rightarrow> slice \<Rightarrow> Store \<Rightarrow> PeerInfo res" where
  "GetPeer en publicKey s =
     (if publicKey = None then fail ''public key is required''
      else run_stmt en (scan_row scanPeer (select_row pr_pubkey (en_bind_blob en publicKey) (peers s))))"

definition GetAllPeers :: "engine \<Rightarrow> int \<Rightarrow> Store \<Rightarrow> PeerInfo list res" where
  "GetAllPeers en limit s =
     (if limit \<le> 0 then fail ''limit must be positive''
      else run_stmt en (scan_rows scanPeer (limit_rows limit (order_desc pr_last_seen (peers s)))))"

text \<open>\<open>pubkey NOT IN (subquery)\<close> is not true when \<open>pubkey\<close> or a value of the subquery is NULL.\<close>

definition not_in :: "'k option \<Rightarrow> 'k option list \<Rightarrow> bool" where
  "not_in k ks \<longleftrightarrow> ks = [] \<or> (k \<noteq> None \<and> None \<notin> set ks \<and> k \<notin> set ks)"

definition EvictLRU :: "engine \<Rightarrow> int \<Rightarrow> Store \<Rightarrow> Store res" where
  "EvictLRU en limit s =
     (if limit \<le> 0 then fail ''limit must be positive''
      else run_stmt en (Inr (s\<lparr>peers :=
        (let kept = map pr_pubkey (limit_rows limit (order_desc pr_last_seen (peers s)))
         in filter (\<lambda>row. \<not> not_in (pr_pubkey row) kept) (peers s))\<rparr>)))"

section \<open>Files\<close>

definition InsertFileMeta :: "engine \<Rightarrow> FileMeta option \<Rightarrow> Store \<Rightarrow> Store res" where
  "InsertFileMeta en file s =
     (case file of
        None \<Rightarrow> fail ''file is required''
      | Some f \<Rightarrow>
          res_bind (check_all [u64_arg 3 (fm_FileSize f), u64_arg 4 (fm_ChunkSize f)]) (\<lambda>_.
          run_stmt en (
          res_bind (check_all
            [not_null ''files.origin_pubkey'' (en_bind_blob en (fm_OriginPubkey f)),
             not_null ''files.origin_sig'' (en_bind_blob en (fm_OriginSig f))]) (\<lambda>_.
          res_bind (insert_row fr_file_hash ''files.file_hash''
            \<lparr>fr_file_hash = en_bind_blob en (fm_FileHash f), fr_file_name = fm_FileName f,
             fr_file_size = fm_FileSize f, fr_chunk_size = fm_ChunkSize f,
             fr_chunk_hashes = en_bind_blob en (joinHashes (fm_ChunkHashes f)),
             fr_origin_pubkey = en_bind_blob en (fm_OriginPubkey f),
             fr_origin_sig = en_bind_blob en (fm_OriginSig f), fr_created_at = fm_CreatedAt f\<rparr>
            (files s)) (\<lambda>rows.
          Inr (s\<lparr>files := rows\<rparr>))))))"

definition scanFileMeta :: "engine \<Rightarrow> FileRow \<Rightarrow> FileMeta res" where
  "scanFileMeta en row =
     res_bind (scan_u64 ''file_size'' (fr_file_size row)) (\<lambda>fileSize.
     res_bind (scan_u64 ''chunk_size'' (fr_chunk_size row)) (\<lambda>chunkSize.
     res_bind (splitHashes en (fr_chunk_hashes row)) (\<lambda>chunkHashes.
     Inr \<lparr>fm_FileHash = fr_file_hash row, fm_FileName = fr_file_name row, fm_FileSize = fileSize,
          fm_ChunkSize = chunkSize, fm_ChunkHashes = chunkHashes, fm_OriginPubkey = fr_origin_pubkey row,
          fm_OriginSig = fr_origin_sig row, fm_CreatedAt = fr_created_at row\<rparr>)))"

definition GetFileMeta :: "engine \<Rightarrow> slice \<Rightarrow> Store \<Rightarrow> FileMeta res" where
  "GetFileMeta en fileHash s =
     (if fileHash = None then fail ''file hash is required''
      else run_stmt en (scan_row (scanFileMeta en) (select_row fr_file_hash (en_bind_blob en fileHash) (files s))))"

definition ListFiles :: "engine \<Rightarrow> int \<Rightarrow> int \<Rightarrow> Store \<Rightarrow> FileMeta list res" where
  "ListFiles en limit offset s =
     (if limit \<le> 0 then fail ''limit must be positive''
      else if offset < 0 then fail ''offset must be positive''
      else run_stmt en (scan_rows (scanFileMeta en)
        (limit_rows limit (drop (nat offset) (order_desc fr_created_at (files s))))))"

text \<open>\<open>like\<close> is the engine's \<open>LIKE\<close>: pattern and text.\<close>

definition SearchFileByName :: "(string \<Rightarrow> string \<Rightarrow> bool) \<Rightarrow> engine \<Rightarrow> string \<Rightarrow> Store \<Rightarrow> FileMeta list res" where
  "SearchFileByName like en query s =
     (if query = [] then fail ''query is required''
      else run_stmt en (scan_rows (scanFileMeta en)
        (filter (\<lambda>r. like (''%'' @ query @ ''%'') (fr_file_name r)) (files s))))"

section \<open>Checkpoints\<close>

definition InsertCheckpoint :: "engine \<Rightarrow> proto_lib \<Rightarrow> Checkpoint option \<Rightarrow> Store \<Rightarrow> Store res" where
  "InsertCheckpoint en pl checkpoint s =
     (case checkpoint of
        None \<Rightarrow> fail ''checkpoint is required''
      | Some c \<Rightarrow>
          (let cumulativeSent = getp 0 ct_CumulativeSent (cp_Totals c);
               cumulativeReceived = getp 0 ct_CumulativeReceived (cp_Totals c) in
           res_bind (marshalWitnesses pl (cp_Witnesses c)) (\<lambda>witnessesBlob.
           res_bind (check_all [u64_arg 3 (cp_RecordIndex c), u64_arg 4 cumulativeSent, u64_arg 5 cumulativeReceived]) (\<lambda>_.
           run_stmt en (
           res_bind (check_all
             [not_null ''checkpoints.device_pubkey'' (en_bind_blob en (cp_DevicePubkey c)),
              not_null ''checkpoints.chain_head'' (en_bind_blob en (cp_ChainHead c)),
              not_null ''checkpoints.device_sig'' (en_bind_blob en (cp_DeviceSig c))]) (\<lambda>_.
           Inr (s\<lparr>checkpoints := checkpoints s @
             [\<lparr>cr_device_pubkey = en_bind_blob en (cp_DevicePubkey c), cr_chain_head = en_bind_blob en (cp_ChainHead c),
               cr_record_index = cp_RecordIndex c, cr_cumulative_sent = cumulativeSent,
               cr_cumulative_received = cumulativeReceived, cr_raw_balance = cp_RawBalance c,
               cr_timestamp = cp_Timestamp c, cr_device_sig = en_bind_blob en (cp_DeviceSig c),
               cr_witnesses = en_bind_blob en witnessesBlob, cr_confidence = cp_Confidence c\<rparr>]\<rparr>)))))))"

definition scanCheckpoint :: "proto_lib \<Rightarrow> CheckpointRow \<Rightarrow> Checkpoint res" where
  "scanCheckpoint pl row =
     res_bind (scan_u64 ''record_index'' (cr_record_index row)) (\<lambda>recordIndex.
     res_bind (scan_u64 ''cumulative_sent'' (cr_cumulative_sent row)) (\<lambda>cumulativeSent.
     res_bind (scan_u64 ''cumulative_received'' (cr_cumulative_received row)) (\<lambda>cumulativeReceived.
     res_bind (unmarshalWitnesses pl (cr_witnesses row)) (\<lambda>witnesses.
     Inr \<lparr>cp_DevicePubkey = cr_device_pubkey row, cp_ChainHead = cr_chain_head row, cp_RecordIndex = recordIndex,
          cp_Totals = Some \<lparr>ct_CumulativeSent = cumulativeSent, ct_CumulativeReceived = cumulativeReceived\<rparr>,
          cp_RawBalance = cr_raw_balance row, cp_Timestamp = cr_timestamp row, cp_DeviceSig = cr_device_sig row,
          cp_Witnesses = witnesses, cp_Confidence = cr_confidence row\<rparr>))))"

definition GetLatestCheckpoint :: "engine \<Rightarrow> proto_lib \<Rightarrow> slice \<Rightarrow> Store \<Rightarrow> Checkpoint res" where
  "GetLatestCheckpoint en pl pubkey s =
     (if pubkey = None then fail ''public key is required''
      else run_stmt en (scan_row (scanCheckpoint pl) (first_row (order_desc cr_record_index
        (filter (\<lambda>row. sql_eq (cr_device_pubkey row) (en_bind_blob en pubkey)) (checkpoints s))))))"

definition GetCheckpointAtIndex :: "engine \<Rightarrow> proto_lib \<Rightarrow> slice \<Rightarrow> uint64 \<Rightarrow> Store \<Rightarrow> Checkpoint res" where
  "GetCheckpointAtIndex en pl pubkey index s =
     (if pubkey = None then fail ''public key is required''
      else res_bind (u64_arg 2 index) (\<lambda>_. run_stmt en (scan_row (scanCheckpoint pl)
        (find (\<lambda>row. sql_eq (cr_device_pubkey row) (en_bind_blob en pubkey) \<and> cr_record_index row = index) (checkpoints s)))))"

definition GetCheckpointsByDevice :: "engine \<Rightarrow> proto_lib \<Rightarrow> slice \<Rightarrow> Store \<Rightarrow> Checkpoint list res" where
  "GetCheckpointsByDevice en pl pubkey s =
     (if pubkey = None then fail ''public key is required''
      else run_stmt en (scan_rows (scanCheckpoint pl) (order_asc cr_record_index
        (filter (\<lambda>row. sql_eq (cr_device_pubkey row) (en_bind_blob en pubkey)) (checkpoints s)))))"

section \<open>Fork evidence\<close>

definition InsertForkEvidence :: "engine \<Rightarrow> proto_lib \<Rightarrow> ForkEvidence option \<Rightarrow> Store \<Rightarrow> Store res" where
  "InsertForkEvidence en pl evidence s =
     (case evidence of
        None \<Rightarrow> fail ''fork evidence is required''
      | Some e \<Rightarrow>
          res_bind (marshal_ShareRecord pl (fe_RecordA e)) (\<lambda>recordABlob.
          res_bind (marshal_ShareRecord pl (fe_RecordB e)) (\<lambda>recordBBlob.
          run_stmt en (
          res_bind (check_all
            [not_null ''fork_evidence.device_pubkey'' (en_bind_blob en (fe_DevicePubkey e)),
             not_null ''fork_evidence.record_a'' (en_bind_blob en recordABlob),
             not_null ''fork_evidence.record_b'' (en_bind_blob en recordBBlob),
             not_null ''fork_evidence.reporter_pubkey'' (en_bind_blob en (fe_ReporterPubkey e)),
             not_null ''fork_evidence.reporter_sig'' (en_bind_blob en (fe_ReporterSig e))]) (\<lambda>_.
          Inr (s\<lparr>fork_evidence := fork_evidence s @
            [\<lparr>kr_device_pubkey = en_bind_blob en (fe_DevicePubkey e), kr_record_a = en_bind_blob en recordABlob,
              kr_record_b = en_bind_blob en recordBBlob, kr_reporter_pubkey = en_bind_blob en (fe_ReporterPubkey e),
              kr_reporter_sig = en_bind_blob en (fe_ReporterSig e), kr_detected_at = fe_DetectedAt e\<rparr>]\<rparr>))))))"

definition scanForkEvidence :: "proto_lib \<Rightarrow> ForkRow \<Rightarrow> ForkEvidence res" where
  "scanForkEvidence pl row =
     res_bind (unmarshal_ShareRecord pl (bs (kr_record_a row))) (\<lambda>recordA.
     res_bind (unmarshal_ShareRecord pl (bs (kr_record_b row))) (\<lambda>recordB.
     Inr \<lparr>fe_DevicePubkey = kr_device_pubkey row, fe_RecordA = Some recordA, fe_RecordB = Some recordB,
          fe_ReporterPubkey = kr_reporter_pubkey row, fe_ReporterSig = kr_reporter_sig row,
          fe_DetectedAt = kr_detected_at row\<rparr>))"

definition GetForkEvidence :: "engine \<Rightarrow> proto_lib \<Rightarrow> slice \<Rightarrow> Store \<Rightarrow> ForkEvidence list res" where
  "GetForkEvidence en pl devicePubkey s =
     (if devicePubkey = None then fail ''device public key is required''
      else run_stmt en (scan_rows (scanForkEvidence pl)
        (filter (\<lambda>row. sql_eq (kr_device_pubkey row) (en_bind_blob en devicePubkey)) (fork_evidence s))))"

definition HasForkEvidence :: "engine \<Rightarrow> slice \<Rightarrow> Store \<Rightarrow> bool res" where
  "HasForkEvidence en devicePubkey s =
     (if devicePubkey = None then fail ''device public key is required''
      else run_stmt en (Inr (length (filter
        (\<lambda>row. sql_eq (kr_device_pubkey row) (en_bind_blob en devicePubkey)) (fork_evidence s)) > 0)))"

section \<open>Transfer requests\<close>

definition InsertRequest :: "engine \<Rightarrow> proto_lib \<Rightarrow> crypto_prims \<Rightarrow> TransferRequest option \<Rightarrow> Store \<Rightarrow> Store res" where
  "InsertRequest en pl cr request s =
     (case request of
        None \<Rightarrow> fail ''request is required''
      | Some q \<Rightarrow>
          res_bind (marshal_TransferRequest pl q) (\<lambda>data.
          let hash = Hash cr data; chunkIndicesBlob = marshalUint32s (tr_ChunkIndices q) in
          run_stmt en (
          res_bind (check_all
            [not_null ''transfer_requests.requester_pubkey'' (en_bind_blob en (tr_RequesterPubkey q)),
             not_null ''transfer_requests.file_hash'' (en_bind_blob en (tr_FileHash q)),
             not_null ''transfer_requests.nonce'' (en_bind_blob en (tr_Nonce q)),
             not_null ''transfer_requests.signature'' (en_bind_blob en (tr_Signature q))]) (\<lambda>_.
          res_bind (insert_row qr_hash ''transfer_requests.hash''
            \<lparr>qr_hash = en_bind_blob en (Some hash), qr_requester_pubkey = en_bind_blob en (tr_RequesterPubkey q),
             qr_file_hash = en_bind_blob en (tr_FileHash q), qr_chunk_indices = en_bind_blob en chunkIndicesBlob,
             qr_nonce = en_bind_blob en (tr_Nonce q), qr_timestamp = tr_Timestamp q,
             qr_signature = en_bind_blob en (tr_Signature q), qr_status = ''pending''\<rparr>
            (transfer_requests s)) (\<lambda>rows.
          Inr (s\<lparr>transfer_requests := rows\<rparr>))))))"

definition scanRequest :: "RequestRow \<Rightarrow> TransferRequest res" where
  "scanRequest row =
     Inr \<lparr>tr_RequesterPubkey = qr_requester_pubkey row, tr_FileHash = qr_file_hash row,
          tr_ChunkIndices = unmarshalUint32s (qr_chunk_indices row), tr_Nonce = qr_nonce row,
          tr_Timestamp = qr_timestamp row, tr_Signature = qr_signature row\<rparr>"

definition GetRequest :: "engine \<Rightarrow> slice \<Rightarrow> Store \<Rightarrow> TransferRequest res" where
  "GetRequest en hash s =
     (if hash = None then fail ''hash is required''
      else run_stmt en (scan_row scanRequest (select_row qr_hash (en_bind_blob en hash) (transfer_requests s))))"

definition ExpireOldRequests :: "engine \<Rightarrow> int64 \<Rightarrow> int64 \<Rightarrow> Store \<Rightarrow> Store res" where
  "ExpireOldRequests en now maxAge s =
     (let cutoff = now - maxAge in
      run_stmt en (Inr (s\<lparr>transfer_requests :=
        filter (\<lambda>row. \<not> sint (qr_timestamp row) < sint cutoff) (transfer_requests s)\<rparr>)))"

definition UpdateStatus :: "engine \<Rightarrow> slice \<Rightarrow> string \<Rightarrow> Store \<Rightarrow> Store res" where
  "UpdateStatus en hash status s =
     (if hash = None then fail ''hash is required''
      else if status = [] then fail ''status is required''
      else run_stmt en (Inr (s\<lparr>transfer_requests :=
        map (\<lambda>row. if sql_eq (qr_hash row) (en_bind_blob en hash) then row\<lparr>qr_status := status\<rparr> else row)
          (transfer_requests s)\<rparr>)))"

section \<open>Identity\<close>

text \<open>The private key is not a column of the table.\<close>

definition InitIdentity :: "engine \<Rightarrow> slice \<Rightarrow> slice \<Rightarrow> int64 \<Rightarrow> Store \<Rightarrow> Store res" where
  "InitIdentity en pubkey privateKey createdAt s =
     (if pubkey = None then fail ''pubkey is required''
      else if sint createdAt \<le> 0 then fail ''createdAt is required''
      else run_stmt en (
        res_bind (not_null ''identity.pubkey'' (en_bind_blob en pubkey)) (\<lambda>_.
        (case identity_row s of
           Some _ \<Rightarrow> fail ''UNIQUE constraint failed: identity.id''
         | None \<Rightarrow> Inr (s\<lparr>identity_row := Some
             \<lparr>id_Pubkey = en_bind_blob en pubkey, id_PrivateKey = None, id_CreatedAt = createdAt,
              id_ChainHead = None, id_ChainIndex = 0, id_CumulativeSent = 0, id_CumulativeReceived = 0\<rparr>\<rparr>)))))"

definition GetIdentity :: "engine \<Rightarrow> Store \<Rightarrow> Identity res" where
  "GetIdentity en s =
     run_stmt en (scan_row (\<lambda>row.
       res_bind (scan_u64 ''chain_index'' (id_ChainIndex row)) (\<lambda>chainIndex.
       res_bind (scan_u64 ''cumulative_sent'' (id_CumulativeSent row)) (\<lambda>cumulativeSent.
       res_bind (scan_u64 ''cumulative_received'' (id_CumulativeReceived row)) (\<lambda>cumulativeReceived.
       Inr \<lparr>id_Pubkey = id_Pubkey row, id_PrivateKey = None, id_CreatedAt = id_CreatedAt row,
            id_ChainHead = id_ChainHead row, id_ChainIndex = chainIndex,
            id_CumulativeSent = cumulativeSent, id_CumulativeReceived = cumulativeReceived\<rparr>)))) (identity_row s))"

definition UpdateChainHead :: "engine \<Rightarrow> slice \<Rightarrow> uint64 \<Rightarrow> uint64 \<Rightarrow> uint64 \<Rightarrow> Store \<Rightarrow> Store res" where
  "UpdateChainHead en hash index cumSent cumRecv s =
     (if hash = None then fail ''hash is required''
      else res_bind (check_all [u64_arg 2 index, u64_arg 3 cumSent, u64_arg 4 cumRecv]) (\<lambda>_.
        run_stmt en (Inr (s\<lparr>identity_row := map_option (\<lambda>row.
          row\<lparr>id_ChainHead := en_bind_blob en hash, id_ChainIndex := index,
              id_CumulativeSent := cumSent, id_CumulativeReceived := cumRecv\<rparr>) (identity_row s)\<rparr>))))"

section \<open>Transfer state\<close>

definition UpsertTransferState :: "engine \<Rightarrow> TransferStateRow \<Rightarrow> Store \<Rightarrow> Store res" where
  "UpsertTransferState en row s =
     (if ts_ID row = [] then fail ''id is required''
      else if ts_PeerID row = [] then fail ''peer id is required''
      else if ts_Direction row = [] then fail ''direction is required''
      else if ts_State row = [] then fail ''state is required''
      else run_stmt en (
        res_bind (not_null ''transfer_state.file_hash'' (en_bind_blob en (ts_FileHash row))) (\<lambda>_.
        Inr (s\<lparr>transfer_state := upsert_row (\<lambda>r. Some (ts_ID r))
          (row\<lparr>ts_FileHash := en_bind_blob en (ts_FileHash row)\<rparr>) (transfer_state s)\<rparr>))))"

definition GetAllTransferStates :: "engine \<Rightarrow> Store \<Rightarrow> TransferStateRow list res" where
  "GetAllTransferStates en s =
     run_stmt en (scan_rows Inr (order_desc ts_UpdatedAt (transfer_state s)))"

section \<open>Schema\<close>

text \<open>
  The tables and indexes that exist and the rows of \<open>schema_version\<close>.  \<open>CREATE TABLE IF NOT EXISTS\<close>
  and \<open>CREATE INDEX IF NOT EXISTS\<close> add what is missing; a migration runs in one transaction.
\<close>

record Schema =
  sc_tables :: "string list"
  sc_indexes :: "string list"
  sc_version :: "int list"

definition create_missing :: "string \<Rightarrow> string list \<Rightarrow> string list" where
  "create_missing t ts = (if t \<in> set ts then ts else ts @ [t])"

definition migrationV1Tables :: "string list" where
  "migrationV1Tables = [''share_records'', ''peers'', ''files'', ''checkpoints'', ''fork_evidence'',
     ''transfer_requests'', ''identity'']"

definition migrationV1Indexes :: "string list" where
  "migrationV1Indexes = [''idx_records_sender'', ''idx_records_receiver'', ''idx_peers_last_seen'', ''idx_files_name'',
     ''idx_checkpoints_device'', ''idx_forks_device'', ''idx_requests_timestamp'']"

definition runMigrationV1 :: "Schema \<Rightarrow> Schema" where
  "runMigrationV1 sc = sc\<lparr>sc_tables := fold create_missing migrationV1Tables (sc_tables sc),
     sc_indexes := fold create_missing migrationV1Indexes (sc_indexes sc), sc_version := sc_version sc @ [1]\<rparr>"

definition runMigrationV2 :: "Schema \<Rightarrow> Schema" where
  "runMigrationV2 sc = sc\<lparr>sc_tables := create_missing ''transfer_state'' (sc_tables sc),
     sc_indexes := create_missing ''idx_transfer_state_peer'' (sc_indexes sc), sc_version := map (\<lambda>_. 2) (sc_version sc)\<rparr>"

definition migrate :: "engine \<Rightarrow> Schema \<Rightarrow> Schema res" where
  "migrate en sc =
     run_stmt en (
      let sc = sc\<lparr>sc_tables := create_missing ''schema_version'' (sc_tables sc)\<rparr>;
          version = (case sc_version sc of [] \<Rightarrow> 0 | v # _ \<Rightarrow> v);
          (sc, version) = (if version < 1 then (runMigrationV1 sc, 1) else (sc, version));
          sc = (if version < 2 then runMigrationV2 sc else sc)
      in Inr sc)"

section \<open>Opening and closing\<close>

text \<open>
  The outcomes of the calls that open the two connection pools of a database file and of the
  \<open>PRAGMA\<close>.  The rows of the file are those of its tables before the call.  The pools that are closed
  again when a migration fails are not part of the state: the caller has no store then.
\<close>

record open_calls =
  oc_writer :: "go_error option"
  oc_pragma :: "go_error option"
  oc_reader :: "go_error option"

definition OpenDatabase :: "open_calls \<Rightarrow> engine \<Rightarrow> Schema \<Rightarrow> Schema res" where
  "OpenDatabase oc en sc =
     (case oc_writer oc of Some e \<Rightarrow> Inl (Err e) | None \<Rightarrow>
     (case oc_pragma oc of Some e \<Rightarrow> Inl (Err e) | None \<Rightarrow>
     (case oc_reader oc of Some e \<Rightarrow> Inl (Err e) | None \<Rightarrow> migrate en sc)))"

text \<open>Both pools are closed whatever the first call returns; every later statement is refused.\<close>

definition Close :: "go_error option \<Rightarrow> go_error option \<Rightarrow> engine \<Rightarrow> go_error option \<times> engine" where
  "Close writerErr readerErr en =
     (errors_Join writerErr readerErr, en\<lparr>en_fault := Some (Errorf ''sql: database is closed'')\<rparr>)"

end
