(* ===== verification/Store_Props.thy ===== *)
theory Store_Props
  imports Store "HOL-Library.Sublist" "HOL-Library.Multiset"
begin

text \<open>
  Properties of the storage layer: the blob encodings can be read back, records are append-only
  and fork evidence is permanent under every sequence of operations, peers behave as a map, and
  the migrations are complete and idempotent.
\<close>

section \<open>Blob encodings\<close>

lemma bs_joinHashes: "bs (joinHashes hs) = concat (map bs hs)"
proof -
  have "bs (fold (\<lambda>h out. if bs h = [] then out else Some (bs out @ bs h)) hs out) = bs out @ concat (map bs hs)" for out
    by (induction hs arbitrary: out) auto
  from this [of None] show ?thesis by (simp add: joinHashes_def)
qed

lemma joinHashes_eq_None: "joinHashes hs = None \<longleftrightarrow> concat (map bs hs) = []"
proof -
  have "fold (\<lambda>h out. if bs h = [] then out else Some (bs out @ bs h)) hs out = None \<longleftrightarrow>
      out = None \<and> concat (map bs hs) = []" for out
    by (induction hs arbitrary: out) auto
  from this [of None] show ?thesis by (simp add: joinHashes_def)
qed

lemma splitFrom_hashes:
  assumes "\<forall>h\<in>set hs. length (bs h) = 32"
  shows "splitFrom (pre @ concat (map bs hs) @ spare) (length pre + length (concat (map bs hs))) (length pre)
           = Inr (map (\<lambda>h. Some (bs h)) hs)"
  using assms
proof (induction hs arbitrary: pre)
  case Nil
  then show ?case by (subst splitFrom.simps) simp
next
  case (Cons h hs)
  have "splitFrom ((pre @ bs h) @ concat (map bs hs) @ spare) (length (pre @ bs h) + length (concat (map bs hs))) (length (pre @ bs h))
      = Inr (map (\<lambda>h. Some (bs h)) hs)"
    by (rule Cons.IH) (use Cons.prems in simp)
  with Cons.prems show ?case
    by (subst splitFrom.simps) (simp add: add.commute add.left_commute)
qed

lemma splitHashes_joinHashes:
  "\<forall>h\<in>set hs. length (bs h) = 32 \<Longrightarrow> splitHashes en (joinHashes hs) = Inr (map (\<lambda>h. Some (bs h)) hs)"
  using splitFrom_hashes [of hs "[]" "en_spare en (concat (map bs hs))"]
  by (simp add: splitHashes_def bs_joinHashes)

text \<open>A blob that is not a multiple of 32 bytes panics unless the capacity rounds it up.\<close>

lemma splitFrom_panic:
  "i + 32 * k < n \<Longrightarrow> length buf < i + 32 * Suc k \<Longrightarrow> is_panic (splitFrom buf n i)"
proof (induction k arbitrary: i)
  case 0
  then show ?case by (subst splitFrom.simps) simp
next
  case (Suc k)
  have "is_panic (splitFrom buf n (i + 32))"
    by (rule Suc.IH) (use Suc.prems in simp_all)
  with Suc.prems show ?case
    by (subst splitFrom.simps) (auto simp: is_panic_def split: sum.splits failure.splits)
qed

lemma splitHashes_panic:
  assumes "length (bs b) mod 32 \<noteq> 0" and "length (en_spare en (bs b)) < 32 - length (bs b) mod 32"
  shows "is_panic (splitHashes en b)"
proof -
  define q m where "q = length (bs b) div 32" and "m = length (bs b) mod 32"
  hence n: "length (bs b) = 32 * q + m" and "m < 32" by simp_all
  show ?thesis
    unfolding splitHashes_def
    by (rule splitFrom_panic [where k = q]) (use assms n \<open>m < 32\<close> in simp_all)
qed

lemma unmarshalUint32s_marshalUint32s: "unmarshalUint32s (marshalUint32s xs) = xs"
proof (cases "xs = []")
  case False
  have len: "length (concat (map be32 xs)) = 4 * length xs"
    by (rule be32c.length_concat_enc)
  have "unbe32 (drop (i * 4) (concat (map be32 xs))) = xs ! i" if "i < length xs" for i
    using be32c.dec_nth_concat [OF that] by simp
  with False len show ?thesis
    by (auto simp: unmarshalUint32s_def marshalUint32s_def intro!: nth_equalityI)
qed (simp add: unmarshalUint32s_def marshalUint32s_def)

text \<open>The frames of a list of marshalled witnesses.\<close>

definition witness_frames :: "byte list list \<Rightarrow> byte list" where
  "witness_frames bss = concat (map (\<lambda>b. be32 (of_nat (length b)) @ b) bss)"

lemma marshalWitnessLoop_frames:
  "list_all2 (\<lambda>w b. marshal_Witness pl w = Inr b) ws bss \<Longrightarrow>
   marshalWitnessLoop pl out ws = Inr (out @ witness_frames bss)"
  by (induction ws bss arbitrary: out rule: list_all2_induct) (auto simp: witness_frames_def)

lemma unmarshalWitnessLoop_frames:
  assumes "list_all2 (\<lambda>b w. length b < 2 ^ 32 \<and> unmarshal_Witness pl b = Inr w) bss ws"
  shows "unmarshalWitnessLoop pl (pre @ witness_frames bss) (length pre) = Inr (map Some ws)"
  using assms
proof (induction bss ws arbitrary: pre rule: list_all2_induct)
  case Nil
  then show ?case by (subst unmarshalWitnessLoop.simps) (simp add: witness_frames_def)
next
  case (Cons b bss w ws)
  have len: "unat (of_nat (length b) :: uint32) = length b"
    using Cons.hyps(1) by (simp add: unat_of_nat)
  have "unmarshalWitnessLoop pl ((pre @ be32 (of_nat (length b)) @ b) @ witness_frames bss)
      (length (pre @ be32 (of_nat (length b)) @ b)) = Inr (map Some ws)"
    by (rule Cons.IH)
  with Cons.hyps(1) len show ?case
    by (subst unmarshalWitnessLoop.simps) (simp add: witness_frames_def add.assoc del: of_nat_less_iff)
qed

section \<open>Sequences of operations\<close>

text \<open>Every method that changes the database, and a run of any of them; each call has its own engine
  behaviour and a call that fails leaves the database as it was.\<close>

datatype store_op =
    OpInsertRecord ShareRecord
  | OpUpsertPeer "PeerInfo option"
  | OpEvictLRU int
  | OpInsertFileMeta "FileMeta option"
  | OpInsertCheckpoint "Checkpoint option"
  | OpInsertForkEvidence "ForkEvidence option"
  | OpInsertRequest "TransferRequest option"
  | OpExpireOldRequests int64 int64
  | OpUpdateStatus slice string
  | OpInitIdentity slice slice int64
  | OpUpdateChainHead slice uint64 uint64 uint64
  | OpUpsertTransferState TransferStateRow

primrec exec_op :: "proto_lib \<Rightarrow> crypto_prims \<Rightarrow> engine \<Rightarrow> store_op \<Rightarrow> Store \<Rightarrow> Store res" where
  "exec_op pl cr en (OpInsertRecord r) s = InsertRecord en r s"
| "exec_op pl cr en (OpUpsertPeer p) s = UpsertPeer en p s"
| "exec_op pl cr en (OpEvictLRU n) s = EvictLRU en n s"
| "exec_op pl cr en (OpInsertFileMeta f) s = InsertFileMeta en f s"
| "exec_op pl cr en (OpInsertCheckpoint c) s = InsertCheckpoint en pl c s"
| "exec_op pl cr en (OpInsertForkEvidence e) s = InsertForkEvidence en pl e s"
| "exec_op pl cr en (OpInsertRequest q) s = InsertRequest en pl cr q s"
| "exec_op pl cr en (OpExpireOldRequests now age) s = ExpireOldRequests en now age s"
| "exec_op pl cr en (OpUpdateStatus h st) s = UpdateStatus en h st s"
| "exec_op pl cr en (OpInitIdentity pub priv t) s = InitIdentity en pub priv t s"
| "exec_op pl cr en (OpUpdateChainHead h i a b) s = UpdateChainHead en h i a b s"
| "exec_op pl cr en (OpUpsertTransferState row) s = UpsertTransferState en row s"

fun run_ops :: "proto_lib \<Rightarrow> crypto_prims \<Rightarrow> (engine \<times> store_op) list \<Rightarrow> Store \<Rightarrow> Store" where
  "run_ops pl cr [] s = s"
| "run_ops pl cr ((en, op) # ops) s =
     run_ops pl cr ops (case exec_op pl cr en op s of Inr s' \<Rightarrow> s' | Inl _ \<Rightarrow> s)"

lemmas mutator_defs =
  InsertRecord_def UpsertPeer_def EvictLRU_def InsertFileMeta_def InsertCheckpoint_def
  InsertForkEvidence_def InsertRequest_def ExpireOldRequests_def UpdateStatus_def InitIdentity_def
  UpdateChainHead_def UpsertTransferState_def

text \<open>Lifting a step invariant to runs.\<close>

lemma run_ops_invariant:
  assumes "\<And>en op s s'. I s \<Longrightarrow> exec_op pl cr en op s = Inr s' \<Longrightarrow> I s'" and "I s"
  shows "I (run_ops pl cr ops s)"
  using assms(2)
proof (induction ops arbitrary: s)
  case (Cons a ops)
  obtain en op where a: "a = (en, op)" by fastforce
  show ?case
    using Cons.IH Cons.prems assms(1) by (auto simp: a split: sum.split)
qed simp

lemma exec_op_append_only:
  assumes "exec_op pl cr en op s = Inr s'"
  shows "prefix (share_records s) (share_records s')" and "prefix (fork_evidence s) (fork_evidence s')"
    and "prefix (checkpoints s) (checkpoints s')" and "prefix (files s) (files s')"
  using assms by (cases op; auto simp: mutator_defs stmt_Inr Let_def split: option.splits if_splits)+

lemma run_ops_append_only:
  "prefix (share_records s) (share_records (run_ops pl cr ops s)) \<and>
   prefix (fork_evidence s) (fork_evidence (run_ops pl cr ops s)) \<and>
   prefix (checkpoints s) (checkpoints (run_ops pl cr ops s)) \<and>
   prefix (files s) (files (run_ops pl cr ops s))"
  by (rule run_ops_invariant [where I = "\<lambda>t. prefix (share_records s) (share_records t) \<and>
      prefix (fork_evidence s) (fork_evidence t) \<and> prefix (checkpoints s) (checkpoints t) \<and> prefix (files s) (files t)"])
    (auto dest: exec_op_append_only intro: prefix_order.trans)

lemma select_row_prefix:
  "prefix xs ys \<Longrightarrow> select_row key k xs = Some r \<Longrightarrow> select_row key k ys = Some r"
  by (auto simp: prefix_def select_row_def find_append)

section \<open>Well-formed databases\<close>

text \<open>Unsigned columns hold what fits a signed integer, and primary keys are unique.\<close>

definition keys_distinct :: "('r \<Rightarrow> 'k option) \<Rightarrow> 'r list \<Rightarrow> bool" where
  "keys_distinct key rows \<longleftrightarrow> distinct (filter (\<lambda>k. k \<noteq> None) (map key rows))"

definition record_row_ok :: "RecordRow \<Rightarrow> bool" where
  "record_row_ok row \<longleftrightarrow>
     (\<forall>c\<in>{rr_sender_record_index, rr_receiver_record_index, rr_sender_cumulative_sent, rr_sender_cumulative_received,
         rr_receiver_cumulative_sent, rr_receiver_cumulative_received, rr_bytes_total}. 0 \<le> sint (c row))"

definition peer_row_ok :: "PeerRow \<Rightarrow> bool" where
  "peer_row_ok row \<longleftrightarrow> (\<forall>c\<in>{pr_record_index, pr_cumulative_sent, pr_cumulative_received}. 0 \<le> sint (c row))"

definition file_row_ok :: "FileRow \<Rightarrow> bool" where
  "file_row_ok row \<longleftrightarrow> (\<forall>c\<in>{fr_file_size, fr_chunk_size}. 0 \<le> sint (c row))"

definition store_ok :: "Store \<Rightarrow> bool" where
  "store_ok s \<longleftrightarrow>
     keys_distinct rr_id (share_records s) \<and> (\<forall>row\<in>set (share_records s). record_row_ok row) \<and>
     keys_distinct pr_pubkey (peers s) \<and> (\<forall>row\<in>set (peers s). peer_row_ok row) \<and>
     keys_distinct fr_file_hash (files s) \<and> (\<forall>row\<in>set (files s). file_row_ok row) \<and>
     keys_distinct qr_hash (transfer_requests s) \<and>
     keys_distinct (\<lambda>r. Some (ts_ID r)) (transfer_state s)"

lemma keys_distinct_Nil [simp]: "keys_distinct key []"
  by (simp add: keys_distinct_def)

lemma keys_distinct_snoc:
  "keys_distinct key rows \<Longrightarrow> \<forall>r\<in>set rows. \<not> sql_eq (key r) (key row) \<Longrightarrow> keys_distinct key (rows @ [row])"
  by (auto simp: keys_distinct_def sql_eq_def)

lemma keys_distinct_filter: "keys_distinct key rows \<Longrightarrow> keys_distinct key (filter P rows)"
proof (induction rows)
  case (Cons r rows)
  then show ?case by (auto simp: keys_distinct_def rev_image_eqI)
qed simp

lemma keys_distinct_map: "(\<And>r. key (f r) = key r) \<Longrightarrow> keys_distinct key (map f rows) = keys_distinct key rows"
  by (simp add: keys_distinct_def comp_def)

lemma keys_distinct_upsert: "keys_distinct key rows \<Longrightarrow> keys_distinct key (upsert_row key row rows)"
proof (cases "\<exists>r\<in>set rows. sql_eq (key r) (key row)")
  case True
  have "map key (map (\<lambda>r. if sql_eq (key r) (key row) then row else r) rows) = map key rows"
    by (auto simp: sql_eq_def)
  with True show "keys_distinct key rows \<Longrightarrow> ?thesis"
    by (simp add: keys_distinct_def upsert_row_def del: map_map)
qed (auto simp: upsert_row_def intro!: keys_distinct_snoc)

lemma set_upsert_row: "x \<in> set (upsert_row key row rows) \<Longrightarrow> x = row \<or> x \<in> set rows"
  by (auto simp: upsert_row_def split: if_splits)

lemma store_ok_empty: "store_ok empty_store"
  by (simp add: store_ok_def empty_store_def)

lemma InsertRecord_eq_Inr:
  "InsertRecord en r s = Inr s' \<longleftrightarrow>
     en_fault en = None \<and> record_row_ok (record_row en r) \<and>
     (\<forall>c\<in>{rr_sender_pubkey, rr_receiver_pubkey, rr_request_hash, rr_sender_sig, rr_receiver_sig, rr_file_hash}.
        c (record_row en r) \<noteq> None) \<and>
     (\<forall>row\<in>set (share_records s). \<not> sql_eq (rr_id row) (rr_id (record_row en r))) \<and>
     s' = s\<lparr>share_records := share_records s @ [record_row en r]\<rparr>"
  unfolding InsertRecord_def Let_def record_row_ok_def
  by (auto simp: stmt_Inr)

lemma exec_op_store_ok:
  assumes "store_ok s" and "exec_op pl cr en op s = Inr s'"
  shows "store_ok s'"
proof (cases op)
  case (OpInsertRecord r)
  with assms show ?thesis
    by (auto simp: store_ok_def InsertRecord_eq_Inr intro!: keys_distinct_snoc)
next
  case (OpUpsertPeer p)
  with assms show ?thesis
    by (auto simp: store_ok_def UpsertPeer_def stmt_Inr check_all_eq_Inr peer_row_ok_def
        split: option.splits intro: keys_distinct_upsert dest!: set_upsert_row)
next
  case (OpEvictLRU n)
  with assms show ?thesis
    by (auto simp: store_ok_def EvictLRU_def stmt_Inr Let_def split: if_splits intro: keys_distinct_filter)
next
  case (OpInsertFileMeta f)
  with assms show ?thesis
    by (auto simp: store_ok_def InsertFileMeta_def stmt_Inr check_all_eq_Inr file_row_ok_def
        split: option.splits intro!: keys_distinct_snoc)
next
  case (OpInsertRequest q)
  with assms show ?thesis
    by (auto simp: store_ok_def InsertRequest_def stmt_Inr Let_def split: option.splits intro!: keys_distinct_snoc)
next
  case (OpExpireOldRequests now age)
  with assms show ?thesis
    by (auto simp: store_ok_def ExpireOldRequests_def stmt_Inr Let_def intro: keys_distinct_filter)
next
  case (OpUpdateStatus h st)
  with assms show ?thesis
    by (auto simp: store_ok_def UpdateStatus_def stmt_Inr keys_distinct_map split: if_splits)
next
  case (OpUpsertTransferState row)
  with assms show ?thesis
    by (auto simp: store_ok_def UpsertTransferState_def stmt_Inr split: if_splits intro: keys_distinct_upsert)
qed (use assms in \<open>auto simp: store_ok_def mutator_defs stmt_Inr Let_def split: option.splits if_splits\<close>)

lemma run_ops_store_ok: "store_ok s \<Longrightarrow> store_ok (run_ops pl cr ops s)"
  using run_ops_invariant [where I = store_ok] exec_op_store_ok by blast

section \<open>Properties\<close>

text \<open>What reading a stored record returns: absent totals come back as zeros, chunk hashes as bytes.\<close>

definition totals_or_zero :: "CumulativeTotals option \<Rightarrow> CumulativeTotals" where
  "totals_or_zero t = \<lparr>ct_CumulativeSent = getp 0 ct_CumulativeSent t, ct_CumulativeReceived = getp 0 ct_CumulativeReceived t\<rparr>"

definition stored_record :: "ShareRecord \<Rightarrow> ShareRecord" where
  "stored_record r = r\<lparr>sr_SenderTotals := Some (totals_or_zero (sr_SenderTotals r)),
     sr_ReceiverTotals := Some (totals_or_zero (sr_ReceiverTotals r)),
     sr_ChunkHashes := map (\<lambda>h. Some (bs h)) (sr_ChunkHashes r)\<rparr>"

lemma scanRecord_record_row:
  assumes "driver_ok en" and "record_row_ok (record_row en r)" and "\<forall>h\<in>set (sr_ChunkHashes r). length (bs h) = 32"
  shows "scanRecord en (record_row en r) = Inr (stored_record r)"
proof -
  have "splitHashes en (rr_chunk_hashes (record_row en r)) = Inr (map (\<lambda>h. Some (bs h)) (sr_ChunkHashes r))"
    using assms(1,3) by (simp add: record_row_def splitHashes_joinHashes)
  with assms(1,2) show ?thesis
    by (simp add: scanRecord_def res_bind_eq_Inr record_row_ok_def) (simp add: record_row_def stored_record_def totals_or_zero_def)
qed

text \<open>
  C9. A record whose chunk hashes have 32 bytes is read back by its identifier as it was inserted,
  absent totals as zeros; inserting it changes what no other identifier returns, and a second
  record with the identifier is refused.
\<close>

theorem insert_get_record:
  assumes "driver_ok en" and "InsertRecord en r s = Inr s'" and "sr_Id r \<noteq> None"
    and "\<forall>h\<in>set (sr_ChunkHashes r). length (bs h) = 32"
  shows "GetRecord en (sr_Id r) s' = Inr (stored_record r) \<and>
    (\<forall>other. other \<noteq> sr_Id r \<longrightarrow> GetRecord en other s' = GetRecord en other s) \<and>
    (\<forall>r2. sr_Id r2 = sr_Id r \<longrightarrow> (\<exists>e. InsertRecord en r2 s' = Inl (Err e)))"
proof (intro conjI allI impI)
  obtain i where i: "sr_Id r = Some i" using assms(3) by auto
  have key: "rr_id (record_row en x) = sr_Id x" for x
    using assms(1) by (simp add: record_row_def)
  from assms(2) have ins: "insert_row rr_id ''share_records.id'' (record_row en r) (share_records s) = Inr (share_records s')"
    and ok: "record_row_ok (record_row en r)"
    by (auto simp: InsertRecord_eq_Inr insert_row_eq_Inr)
  have get: "select_row rr_id (Some k) (share_records s') =
      (if sr_Id r = Some k then Some (record_row en r) else select_row rr_id (Some k) (share_records s))" for k
    using rows_once.get_ins [OF ins] key by simp
  show "GetRecord en (sr_Id r) s' = Inr (stored_record r)"
    using assms(1,4) ok i get scanRecord_record_row by (simp add: GetRecord_def scan_row_def)
  show "GetRecord en other s' = GetRecord en other s" if "other \<noteq> sr_Id r" for other
    using assms(1) that get by (cases other) (simp_all add: GetRecord_def)
  show "\<exists>e. InsertRecord en r2 s' = Inl (Err e)" if "sr_Id r2 = sr_Id r" for r2
  proof -
    have "\<not> is_panic (InsertRecord en r2 s')"
      unfolding InsertRecord_def Let_def insert_row_def run_stmt_def
      by (auto simp: is_panic_def fail_def u64_arg_def not_null_def split: sum.splits failure.splits option.splits if_splits)
    moreover have "InsertRecord en r2 s' \<noteq> Inr s2" for s2
      using get [of i] i that key by (auto simp: InsertRecord_eq_Inr select_row_eq_None dest: select_row_Some)
    ultimately show ?thesis
      by (cases "InsertRecord en r2 s'") (auto simp: is_panic_def split: failure.splits)
  qed
qed

definition demo_engine :: engine where
  "demo_engine = \<lparr>en_bind_blob = (\<lambda>s. s), en_spare = (\<lambda>_. []), en_fault = None\<rparr>"

lemma demo_engine_ok [simp]: "driver_ok demo_engine"
  by (simp add: demo_engine_def driver_ok_def)

definition demo_record :: ShareRecord where
  "demo_record =
     \<lparr>sr_Id = Some [1], sr_SenderPubkey = Some (demo_pub 1), sr_ReceiverPubkey = Some (demo_pub 2),
      sr_PrevSender = None, sr_PrevReceiver = None, sr_SenderRecordIndex = 1, sr_ReceiverRecordIndex = 1,
      sr_SenderTotals = Some \<lparr>ct_CumulativeSent = 100, ct_CumulativeReceived = 0\<rparr>, sr_ReceiverTotals = None,
      sr_RequestHash = Some (replicate 32 0), sr_ChunkHashes = [Some (replicate 32 7)],
      sr_BytesTotal = 100, sr_Timestamp = 50, sr_SenderSig = Some [1], sr_ReceiverSig = Some [2],
      sr_FileHash = Some (replicate 32 3), sr_Visibility = 0\<rparr>"

definition demo_store :: Store where
  "demo_store = empty_store\<lparr>share_records := [record_row demo_engine demo_record]\<rparr>"

lemma demo_insert: "InsertRecord demo_engine demo_record empty_store = Inr demo_store"
  by (simp add: InsertRecord_eq_Inr demo_store_def record_row_ok_def record_row_def demo_engine_def demo_record_def
      empty_store_def sql_eq_def)

text \<open>An instance of the protobuf runtime for concrete runs: it keeps one field of each message.\<close>

definition demo_proto :: proto_lib where
  "demo_proto =
     \<lparr>marshal_ShareRecord = (\<lambda>r. Inr (map_option (\<lambda>r. bs (sr_Id r)) r)),
      unmarshal_ShareRecord = (\<lambda>b. Inr (demo_record\<lparr>sr_Id := Some b\<rparr>)),
      marshal_Witness = (\<lambda>w. Inr (bs (getp None cw_WitnessPubkey w))),
      unmarshal_Witness = (\<lambda>b. Inr \<lparr>cw_WitnessPubkey = Some b, cw_WitnessSig = Some [9], cw_EncounterCluster = ''home''\<rparr>),
      marshal_TransferRequest = (\<lambda>q. Inr (bs (tr_Nonce q))),
      marshal_Envelope = (\<lambda>e. Inr [7]),
      unmarshal_Envelope = (\<lambda>b. if b = [7] then Inr (envelope (Envelope_Gossip None)) else fail ''bad''),
      size_Handshake = (\<lambda>m. length (hs_RecordsSinceCheckpoint m))\<rparr>"

lemma demo_get: "GetRecord demo_engine (Some [1]) demo_store = Inr (stored_record demo_record)"
proof -
  have "rr_id (record_row demo_engine demo_record) = Some [1]" "en_bind_blob demo_engine (Some [1]) = Some [1]"
    by (simp_all add: record_row_def demo_engine_def demo_record_def)
  moreover have "scanRecord demo_engine (record_row demo_engine demo_record) = Inr (stored_record demo_record)"
    using demo_insert by (intro scanRecord_record_row) (auto simp: InsertRecord_eq_Inr, simp add: demo_record_def)
  ultimately show ?thesis
    by (simp add: GetRecord_def demo_store_def scan_row_def select_row_def)
qed

theorem insert_get_record_witness:
  "GetRecord demo_engine (Some [1]) demo_store = Inr (stored_record demo_record)"
  using insert_get_record [OF demo_engine_ok demo_insert] by (simp add: demo_record_def)



text \<open>
  C11. Every state the operations reach from the empty database is well formed: primary keys are
  unique and unsigned columns hold values that can be read back (that required columns are set is
  part of when a statement is refused, not of this invariant).  So the peers can always be
  listed, the most recently seen first and at most as many as asked for.
\<close>

theorem reachable_store_ok:
  assumes "t = run_ops pl cr ops empty_store"
  shows "store_ok t \<and>
    (0 < limit \<and> en_fault en = None \<longrightarrow>
      (\<exists>ps. GetAllPeers en limit t = Inr ps \<and> length ps = min (nat limit) (length (peers t)) \<and>
         sorted_wrt (\<lambda>p q. sint (pi_LastSeen q) \<le> sint (pi_LastSeen p)) ps))"
proof (intro conjI impI)
  show ok: "store_ok t"
    using run_ops_store_ok [OF store_ok_empty] assms by simp
  assume lim: "0 < limit \<and> en_fault en = None"
  let ?rows = "limit_rows limit (order_desc pr_last_seen (peers t))"
  let ?f = "\<lambda>row. \<lparr>pi_Pubkey = pr_pubkey row, pi_ChainHead = pr_chain_head row, pi_RecordIndex = pr_record_index row,
          pi_Totals = Some \<lparr>ct_CumulativeSent = pr_cumulative_sent row, ct_CumulativeReceived = pr_cumulative_received row\<rparr>,
          pi_LastSeen = pr_last_seen row, pi_HasForkEvidence = pr_has_fork_evidence row,
          pi_TransportType = pr_transport_type row\<rparr>"
  have "scanPeer row = Inr (?f row)" if "row \<in> set ?rows" for row
  proof -
    have "row \<in> set (peers t)" using that set_limit_rows by fastforce
    with ok show ?thesis by (simp add: store_ok_def peer_row_ok_def scanPeer_def res_bind_eq_Inr)
  qed
  hence "GetAllPeers en limit t = Inr (map ?f ?rows)"
    using lim scan_rows_map [of ?rows scanPeer ?f] by (simp add: GetAllPeers_def)
  moreover have "sorted_wrt (\<lambda>p q. sint (pi_LastSeen q) \<le> sint (pi_LastSeen p)) (map ?f ?rows)"
  proof -
    have "sorted (map (\<lambda>r. - sint (pr_last_seen r)) ?rows)"
      using lim sorted_wrt_take [OF sorted_sort_key [of "\<lambda>r. - sint (pr_last_seen r)" "peers t", unfolded sorted_wrt_map]]
      by (simp add: limit_rows_def order_desc_def sorted_wrt_map)
    thus ?thesis by (simp add: sorted_wrt_map)
  qed
  moreover have "length ?rows = min (nat limit) (length (peers t))"
    using lim by (simp add: limit_rows_def order_desc_def)
  ultimately show "\<exists>ps. GetAllPeers en limit t = Inr ps \<and> length ps = min (nat limit) (length (peers t)) \<and>
         sorted_wrt (\<lambda>p q. sint (pi_LastSeen q) \<le> sint (pi_LastSeen p)) ps"
    by (intro exI [of _ "map ?f ?rows"]) simp
qed

definition demo_seen :: "byte \<Rightarrow> int64 \<Rightarrow> engine \<times> store_op" where
  "demo_seen k t = (demo_engine, OpUpsertPeer (Some \<lparr>pi_Pubkey = Some [k], pi_ChainHead = None, pi_RecordIndex = 0,
     pi_Totals = Some \<lparr>ct_CumulativeSent = 0, ct_CumulativeReceived = 0\<rparr>, pi_LastSeen = t, pi_HasForkEvidence = False, pi_TransportType = ''ble''\<rparr>))"

theorem reachable_store_ok_witness:
  "\<exists>t ps. t = run_ops demo_proto demo_crypto [demo_seen 1 5, demo_seen 2 8, demo_seen 3 6] empty_store \<and> store_ok t \<and>
     GetAllPeers demo_engine 2 t = Inr ps \<and> length ps = 2 \<and> sorted_wrt (\<lambda>p q. sint (pi_LastSeen q) \<le> sint (pi_LastSeen p)) ps"
proof -
  let ?ops = "[demo_seen 1 5, demo_seen 2 8, demo_seen 3 6]"
  have "length (peers (run_ops demo_proto demo_crypto ?ops empty_store)) = 3"
    by (simp add: demo_seen_def UpsertPeer_def u64_arg_def demo_engine_def empty_store_def upsert_row_def sql_eq_def)
  with reachable_store_ok [OF refl, of demo_proto demo_crypto ?ops 2 demo_engine] show ?thesis by (auto simp: demo_engine_def)
qed

lemma select_row_snoc_new:
  "\<forall>r\<in>set rows. \<not> sql_eq (key r) (key row) \<Longrightarrow> key row = Some k \<Longrightarrow> select_row key (Some k) (rows @ [row]) = Some row"
  by (auto simp: select_row_append select_row_eq_None split: option.split dest: select_row_Some)

text \<open>
  A file whose concatenated chunk hashes are not a multiple of 32 bytes is stored without an
  error, and reading it back then panics (slice bounds) unless the driver happened to give the
  blob enough spare capacity.
\<close>

theorem malformed_chunk_hashes_panic:
  assumes "driver_ok en" and "InsertFileMeta en (Some f) s = Inr s'" and "fm_FileHash f \<noteq> None"
    and "length (concat (map bs (fm_ChunkHashes f))) mod 32 = m" and "m \<noteq> 0"
    and "length (en_spare en (concat (map bs (fm_ChunkHashes f)))) < 32 - m"
  shows "is_panic (GetFileMeta en (fm_FileHash f) s')"
proof -
  obtain h where h: "fm_FileHash f = Some h" using assms(3) by auto
  let ?blob = "joinHashes (fm_ChunkHashes f)"
  have "is_panic (splitHashes en ?blob)"
    by (rule splitHashes_panic) (use assms in \<open>simp_all add: bs_joinHashes\<close>)
  then obtain p where p: "splitHashes en ?blob = Inl (Panic p)"
    by (auto simp: is_panic_def split: sum.splits failure.splits)
  from assms(1,2) h obtain row where "select_row fr_file_hash (Some h) (files s') = Some row"
    and row: "fr_chunk_hashes row = ?blob" "0 \<le> sint (fr_file_size row)" "0 \<le> sint (fr_chunk_size row)"
    by (auto simp: InsertFileMeta_def stmt_Inr select_row_snoc_new)
  moreover have "scanFileMeta en row = Inl (Panic p)"
    using row p by (simp add: scanFileMeta_def res_bind_eq_Inl)
  ultimately show ?thesis
    using assms(1) h by (simp add: GetFileMeta_def scan_row_def)
qed

definition demo_file :: FileMeta where
  "demo_file = \<lparr>fm_FileHash = Some [4], fm_FileName = ''f'', fm_FileSize = 10, fm_ChunkSize = 10,
     fm_ChunkHashes = [Some [1, 2, 3]], fm_OriginPubkey = Some [1], fm_OriginSig = Some [2], fm_CreatedAt = 5\<rparr>"

theorem malformed_chunk_hashes_panic_witness:
  "\<exists>s'. InsertFileMeta demo_engine (Some demo_file) empty_store = Inr s' \<and>
     is_panic (GetFileMeta demo_engine (Some [4]) s')"
proof -
  obtain s' where s': "InsertFileMeta demo_engine (Some demo_file) empty_store = Inr s'"
    by (simp add: InsertFileMeta_def demo_engine_def demo_file_def empty_store_def insert_row_def
        u64_arg_def not_null_def)
  have "is_panic (GetFileMeta demo_engine (fm_FileHash demo_file) s')"
    by (rule malformed_chunk_hashes_panic [OF demo_engine_ok s', where m = 3])
      (simp_all add: demo_file_def demo_engine_def)
  with s' show ?thesis by (auto simp: demo_file_def)
qed

text \<open>
  The peers table is a map: after an upsert the peer's row is the one just written, whatever
  was there before, and every other peer is untouched.
\<close>

theorem upsert_get_peer:
  assumes "driver_ok en" and "UpsertPeer en (Some p) s = Inr s'" and "pi_Pubkey p = Some k"
  shows "GetPeer en (Some k) s' = Inr p \<and> (\<forall>other. other \<noteq> k \<longrightarrow> GetPeer en (Some other) s' = GetPeer en (Some other) s)"
proof -
  from assms obtain totals where tot: "pi_Totals p = Some totals"
    and nn: "0 \<le> sint (pi_RecordIndex p)" "0 \<le> sint (ct_CumulativeSent totals)" "0 \<le> sint (ct_CumulativeReceived totals)"
    and s': "peers s' = upsert_row pr_pubkey
         \<lparr>pr_pubkey = Some k, pr_chain_head = pi_ChainHead p,
          pr_record_index = pi_RecordIndex p, pr_cumulative_sent = ct_CumulativeSent totals,
          pr_cumulative_received = ct_CumulativeReceived totals, pr_last_seen = pi_LastSeen p,
          pr_has_fork_evidence = pi_HasForkEvidence p, pr_transport_type = pi_TransportType p\<rparr> (peers s)"
    by (auto simp: UpsertPeer_def stmt_Inr split: option.splits)
  from assms(3) tot nn show ?thesis
    using assms(1) by (cases p; cases totals) (auto simp: GetPeer_def s' rows_replace.get_put scan_row_def scanPeer_def res_bind_eq_Inr)
qed

theorem upsert_get_peer_witness:
  "\<exists>s'. GetPeer demo_engine (Some [1]) s' = Inr \<lparr>pi_Pubkey = Some [1], pi_ChainHead = None, pi_RecordIndex = 1,
      pi_Totals = Some \<lparr>ct_CumulativeSent = 5, ct_CumulativeReceived = 6\<rparr>, pi_LastSeen = 7,
      pi_HasForkEvidence = False, pi_TransportType = ''ble''\<rparr>"
  (is "\<exists>s'. _ = Inr ?p")
proof -
  obtain s' where "UpsertPeer demo_engine (Some ?p) empty_store = Inr s'"
    by (simp add: UpsertPeer_def demo_engine_def u64_arg_def)
  with upsert_get_peer [of demo_engine ?p empty_store s' "[1]"] show ?thesis by auto
qed

lemma filter_keys_take:
  assumes "distinct (map key L)"
  shows "filter (\<lambda>r. key r \<in> key ` set (take n L)) L = take n L"
proof -
  have "distinct (map key (take n L @ drop n L))" using assms by simp
  hence "key ` set (take n L) \<inter> key ` set (drop n L) = {}" unfolding map_append distinct_append by simp
  hence "key r \<notin> key ` set (take n L)" if "r \<in> set (drop n L)" for r
    using that by blast
  hence "filter (\<lambda>r. key r \<in> key ` set (take n L)) (take n L @ drop n L) = take n L"
    unfolding filter_append by (simp add: filter_empty_conv)
  thus ?thesis by simp
qed

lemma keys_distinct_total: "keys_distinct key rows \<Longrightarrow> None \<notin> key ` set rows \<Longrightarrow> distinct (map key rows)"
  unfolding keys_distinct_def by (metis (mono_tags, lifting) filter_True list.set_map)

text \<open>
  Evicting keeps exactly the asked number of peers (all of them when there are fewer), in
  their order, and no evicted peer was seen later than a kept one.
\<close>

theorem evict_keeps_most_recent:
  assumes ok: "store_ok s" and keys: "None \<notin> pr_pubkey ` set (peers s)" and "0 < limit" and "en_fault en = None"
  shows "\<exists>s'. EvictLRU en limit s = Inr s' \<and> subseq (peers s') (peers s) \<and>
    length (peers s') = min (nat limit) (length (peers s)) \<and>
    (\<forall>p\<in>set (peers s'). \<forall>q\<in>set (peers s) - set (peers s'). sint (pr_last_seen q) \<le> sint (pr_last_seen p))"
proof -
  define n L where "n = nat limit" and "L = order_desc pr_last_seen (peers s)"
  define P where "P r \<longleftrightarrow> pr_pubkey r \<in> pr_pubkey ` set (take n L)" for r :: PeerRow
  have mset: "mset L = mset (peers s)" and set: "set L = set (peers s)" by (simp_all add: L_def order_desc_def)
  have "distinct (map pr_pubkey L)"
    using keys_distinct_total [of pr_pubkey "peers s"] ok keys mset
    by (metis mset_eq_imp_distinct_iff mset_map store_ok_def)
  hence kept: "filter P L = take n L" unfolding P_def by (rule filter_keys_take)
  have key: "pr_pubkey r \<noteq> None" if "r \<in> set L" for r
    using keys that set by (metis rev_image_eqI)
  have "\<not> not_in (pr_pubkey r) (map pr_pubkey (take n L)) \<longleftrightarrow> P r" if "r \<in> set (peers s)" for r
  proof -
    have "take n L \<noteq> []" using that set assms(3) by (auto simp: n_def)
    moreover have "None \<notin> pr_pubkey ` set (take n L)" using key by (metis image_iff in_set_takeD)
    ultimately show ?thesis using key that set by (auto simp: not_in_def P_def)
  qed
  hence ev: "EvictLRU en limit s = Inr (s\<lparr>peers := filter P (peers s)\<rparr>)"
    using assms(3,4) by (simp add: EvictLRU_def limit_rows_def n_def L_def Let_def cong: filter_cong)
  have "length (filter P (peers s)) = length (filter P L)"
    using mset by (metis mset_filter size_mset)
  hence len: "length (filter P (peers s)) = min n (length (peers s))"
    using kept mset by (metis length_take min.commute size_mset)
  have "sint (pr_last_seen q) \<le> sint (pr_last_seen p)" if "p \<in> set (filter P L)" "q \<in> set L" "\<not> P q" for p q
  proof -
    have p: "p \<in> set (take n L)" using that(1) unfolding kept .
    have "q \<notin> set (take n L)" using that(3) by (auto simp: P_def)
    hence q: "q \<in> set (drop n L)" using that(2) by (metis append_take_drop_id Un_iff set_append)
    note p q
    moreover have "sorted_wrt (\<lambda>a b. - sint (pr_last_seen a) \<le> - sint (pr_last_seen b)) (take n L @ drop n L)"
      using sorted_sort_key [of "\<lambda>r. - sint (pr_last_seen r)" "peers s"] by (simp add: L_def order_desc_def sorted_wrt_map)
    ultimately show ?thesis unfolding sorted_wrt_append by fastforce
  qed
  with ev len set show ?thesis by (auto simp: n_def)
qed

definition demo_peer :: "byte \<Rightarrow> int64 \<Rightarrow> PeerRow" where
  "demo_peer k seen = \<lparr>pr_pubkey = Some [k], pr_chain_head = None, pr_record_index = 0, pr_cumulative_sent = 0,
     pr_cumulative_received = 0, pr_last_seen = seen, pr_has_fork_evidence = False, pr_transport_type = []\<rparr>"

theorem evict_keeps_most_recent_witness:
  "\<exists>s'. EvictLRU demo_engine 1 (empty_store\<lparr>peers := [demo_peer 1 10, demo_peer 2 20]\<rparr>) = Inr s' \<and> length (peers s') = 1"
proof -
  let ?s = "empty_store\<lparr>peers := [demo_peer 1 10, demo_peer 2 20]\<rparr>"
  have "store_ok ?s" "None \<notin> pr_pubkey ` set (peers ?s)" "en_fault demo_engine = None"
    by (simp_all add: store_ok_def empty_store_def demo_peer_def keys_distinct_def peer_row_ok_def demo_engine_def)
  with evict_keeps_most_recent [of ?s 1 demo_engine] show ?thesis by auto
qed

section \<open>Checkpoints and schema\<close>

lemma first_row_order_desc:
  assumes "rows \<noteq> []"
  shows "\<exists>r\<in>set rows. first_row (order_desc c rows) = Some r \<and> (\<forall>x\<in>set rows. sint (c x) \<le> sint (c r))"
proof -
  obtain r L where L: "order_desc c rows = r # L"
    using assms by (metis list.exhaust order_desc_def sort_key_simps(1) set_order(2) list.set(1) set_empty)
  have "sorted_wrt (\<lambda>a b. - sint (c a) \<le> - sint (c b)) (r # L)"
    using sorted_sort_key [of "\<lambda>r. - sint (c r)" rows] L by (simp add: order_desc_def sorted_wrt_map)
  moreover have "set (r # L) = set rows" using L by (metis set_order(2))
  ultimately show ?thesis using L by (auto simp: first_row_def limit_rows_def)
qed

lemma first_row_order_desc_snoc:
  assumes "\<forall>x\<in>set rows. sint (c x) < sint (c row)"
  shows "first_row (order_desc c (rows @ [row])) = Some row"
  using first_row_order_desc [of "rows @ [row]" c] assms by fastforce

lemma marshal_witnesses_roundtrip:
  assumes "\<forall>w\<in>set ws. \<exists>v b. w = Some v \<and> marshal_Witness pl w = Inr b \<and> length b < 2 ^ 32 \<and> unmarshal_Witness pl b = Inr v"
    and "marshalWitnesses pl ws = Inr blob"
  shows "unmarshalWitnesses pl blob = Inr ws"
proof (cases "ws = []")
  case True
  with assms(2) show ?thesis by (simp add: marshalWitnesses_def unmarshalWitnesses_def)
next
  case False
  define bss where "bss = map (\<lambda>w. projr (marshal_Witness pl w)) ws"
  have m: "list_all2 (\<lambda>w b. marshal_Witness pl w = Inr b) ws bss"
    and u: "list_all2 (\<lambda>b v. length b < 2 ^ 32 \<and> unmarshal_Witness pl b = Inr v) bss (map the ws)"
    using assms(1) by (fastforce simp: bss_def list_all2_conv_all_nth all_set_conv_all_nth)+
  have "map Some (map the ws) = ws"
    using assms(1) by (fastforce intro!: nth_equalityI simp: all_set_conv_all_nth)
  with False assms(2) marshalWitnessLoop_frames [OF m, of "[]"] unmarshalWitnessLoop_frames [OF u, of "[]"]
    unmarshalWitnessLoop.simps [of pl "[]" 0]
  show ?thesis by (auto simp: marshalWitnesses_def unmarshalWitnesses_def)
qed

text \<open>
  A checkpoint with a higher record index than the stored ones of its device becomes the
  device's latest checkpoint, and is read back with its witnesses (whose protobuf encoding can be
  read back), absent totals as zeros.
\<close>

theorem insert_get_latest_checkpoint:
  assumes "driver_ok en" and "InsertCheckpoint en pl (Some c) s = Inr s'"
    and newer: "\<forall>row\<in>set (checkpoints s). cr_device_pubkey row = cp_DevicePubkey c \<longrightarrow> sint (cr_record_index row) < sint (cp_RecordIndex c)"
    and codec: "\<forall>w\<in>set (cp_Witnesses c). \<exists>v b. w = Some v \<and> marshal_Witness pl w = Inr b \<and> length b < 2 ^ 32 \<and> unmarshal_Witness pl b = Inr v"
  shows "GetLatestCheckpoint en pl (cp_DevicePubkey c) s' = Inr (c\<lparr>cp_Totals := Some (totals_or_zero (cp_Totals c))\<rparr>)"
proof -
  from assms(1,2) obtain k blob row where k: "cp_DevicePubkey c = Some k"
    and blob: "marshalWitnesses pl (cp_Witnesses c) = Inr blob"
    and nn: "0 \<le> sint (cp_RecordIndex c)" "0 \<le> sint (getp 0 ct_CumulativeSent (cp_Totals c))"
      "0 \<le> sint (getp 0 ct_CumulativeReceived (cp_Totals c))"
    and s': "checkpoints s' = checkpoints s @ [row]"
    and row: "row = \<lparr>cr_device_pubkey = Some k, cr_chain_head = cp_ChainHead c,
               cr_record_index = cp_RecordIndex c, cr_cumulative_sent = getp 0 ct_CumulativeSent (cp_Totals c),
               cr_cumulative_received = getp 0 ct_CumulativeReceived (cp_Totals c), cr_raw_balance = cp_RawBalance c,
               cr_timestamp = cp_Timestamp c, cr_device_sig = cp_DeviceSig c,
               cr_witnesses = blob, cr_confidence = cp_Confidence c\<rparr>"
    by (auto simp: InsertCheckpoint_def stmt_Inr Let_def)
  have "scanCheckpoint pl row = Inr (c\<lparr>cp_Totals := Some (totals_or_zero (cp_Totals c))\<rparr>)"
    using marshal_witnesses_roundtrip [OF codec blob] k nn
    by (cases c) (simp add: row scanCheckpoint_def res_bind_eq_Inr totals_or_zero_def)
  moreover have "first_row (order_desc cr_record_index (filter (\<lambda>r. cr_device_pubkey r = Some k) (checkpoints s'))) = Some row"
    using newer k first_row_order_desc_snoc [of "filter (\<lambda>r. cr_device_pubkey r = Some k) (checkpoints s)" cr_record_index row]
    by (simp add: s' row)
  ultimately show ?thesis
    using assms(1) k by (simp add: GetLatestCheckpoint_def scan_row_def)
qed

definition demo_checkpoint :: "uint64 \<Rightarrow> Checkpoint" where
  "demo_checkpoint i = \<lparr>cp_DevicePubkey = Some (demo_pub 1), cp_ChainHead = Some [1], cp_RecordIndex = i,
     cp_Totals = Some \<lparr>ct_CumulativeSent = 5, ct_CumulativeReceived = 6\<rparr>, cp_RawBalance = 3, cp_Timestamp = 9,
     cp_DeviceSig = Some [2], cp_Witnesses = [Some \<lparr>cw_WitnessPubkey = Some (demo_pub 2), cw_WitnessSig = Some [9],
       cw_EncounterCluster = ''home''\<rparr>], cp_Confidence = CONFIDENCE_LOW\<rparr>"

theorem insert_get_latest_checkpoint_witness:
  "\<exists>s'. InsertCheckpoint demo_engine demo_proto (Some (demo_checkpoint 4)) empty_store = Inr s' \<and>
     GetLatestCheckpoint demo_engine demo_proto (Some (demo_pub 1)) s' = Inr (demo_checkpoint 4)"
proof -
  obtain s' where s': "InsertCheckpoint demo_engine demo_proto (Some (demo_checkpoint 4)) empty_store = Inr s'"
    by (simp add: InsertCheckpoint_def demo_engine_def demo_checkpoint_def demo_proto_def u64_arg_def
        marshalWitnesses_def not_null_def)
  have "GetLatestCheckpoint demo_engine demo_proto (cp_DevicePubkey (demo_checkpoint 4)) s' =
      Inr (demo_checkpoint 4\<lparr>cp_Totals := Some (totals_or_zero (cp_Totals (demo_checkpoint 4)))\<rparr>)"
    by (rule insert_get_latest_checkpoint [OF demo_engine_ok s'])
      (simp_all add: demo_checkpoint_def demo_proto_def empty_store_def demo_pub_def)
  with s' show ?thesis by (simp add: demo_checkpoint_def totals_or_zero_def)
qed

text \<open>
  Opening a database brings every schema that an earlier version left (new, version 1 or
  version 2) to version 2 with all nine tables and eight indexes, drops none, and opening it again
  changes nothing.
\<close>

abbreviation schema_tables :: "string set" where
  "schema_tables \<equiv> set (''schema_version'' # ''transfer_state'' # migrationV1Tables)"

abbreviation schema_indexes :: "string set" where
  "schema_indexes \<equiv> set (''idx_transfer_state_peer'' # migrationV1Indexes)"

lemma set_fold_create_missing: "set (fold create_missing ts l) = set l \<union> set ts"
  by (induction ts arbitrary: l) (auto simp: create_missing_def)

lemma set_create_missing: "set (create_missing t l) = insert t (set l)"
  by (auto simp: create_missing_def)

lemma create_missing_present: "t \<in> set l \<Longrightarrow> create_missing t l = l"
  by (simp add: create_missing_def)

theorem open_database_idempotent:
  assumes "en_fault en = None" and "oc_writer oc = None" and "oc_pragma oc = None" and "oc_reader oc = None"
    and "sc_version sc = [] \<or>
      sc_version sc = [1] \<and> set migrationV1Tables \<subseteq> set (sc_tables sc) \<and> set migrationV1Indexes \<subseteq> set (sc_indexes sc) \<or>
      sc_version sc = [2] \<and> schema_tables \<subseteq> set (sc_tables sc) \<and> schema_indexes \<subseteq> set (sc_indexes sc)"
  shows "\<exists>sc'. OpenDatabase oc en sc = Inr sc' \<and> sc_version sc' = [2] \<and> set (sc_tables sc') = set (sc_tables sc) \<union> schema_tables \<and>
    set (sc_indexes sc') = set (sc_indexes sc) \<union> schema_indexes \<and> OpenDatabase oc en sc' = Inr sc'"
proof -
  note defs = migrate_def Let_def runMigrationV1_def runMigrationV2_def
  define sc' where "sc' = (case migrate en sc of Inr x \<Rightarrow> x | Inl _ \<Rightarrow> sc)"
  have open_db: "OpenDatabase oc en x = migrate en x" for x using assms(2-4) by (simp add: OpenDatabase_def)
  have m: "migrate en sc = Inr sc'" using assms(1) by (simp add: sc'_def migrate_def Let_def)
  have v: "sc_version sc' = [2]" using assms(1,5) by (auto simp: sc'_def defs)
  have t: "set (sc_tables sc') = set (sc_tables sc) \<union> schema_tables"
    using assms(1,5) by (auto simp: sc'_def defs set_fold_create_missing set_create_missing)
  moreover have "set (sc_indexes sc') = set (sc_indexes sc) \<union> schema_indexes"
    using assms(1,5) by (auto simp: sc'_def defs set_fold_create_missing set_create_missing)
  moreover from v t have "migrate en sc' = Inr sc'" using assms(1) by (simp add: migrate_def create_missing_present)
  ultimately show ?thesis using open_db m v by auto
qed

theorem open_database_idempotent_witness:
  "\<exists>sc'. OpenDatabase \<lparr>oc_writer = None, oc_pragma = None, oc_reader = None\<rparr> demo_engine \<lparr>sc_tables = [], sc_indexes = [], sc_version = []\<rparr> = Inr sc' \<and>
     sc_version sc' = [2] \<and> set (sc_tables sc') = schema_tables"
  using open_database_idempotent [of demo_engine "\<lparr>oc_writer = None, oc_pragma = None, oc_reader = None\<rparr>"
      "\<lparr>sc_tables = [], sc_indexes = [], sc_version = []\<rparr>"]
  by (auto simp: demo_engine_def)

section \<open>Searching files\<close>

definition wildcard :: "char \<Rightarrow> bool" where
  "wildcard c \<longleftrightarrow> c = CHR ''%'' \<or> c = CHR ''_''"

lemma like_match_any: "like_match ''%'' s"
  by (induction s) simp_all

lemma like_match_prefix:
  "\<not> list_ex wildcard q \<Longrightarrow> like_match (q @ ''%'') s \<longleftrightarrow> take (length q) (map lower s) = map lower q"
proof (induction q arbitrary: s)
  case (Cons p q)
  thus ?case by (cases s) (auto simp: wildcard_def)
qed (simp add: like_match_any)

lemma strings_Contains_Cons:
  "strings_Contains (c # s) t \<longleftrightarrow> take (length t) (c # s) = t \<or> strings_Contains s t"
proof -
  have 1: "{0..<length (c # s) + 1} = insert 0 (Suc ` {0..<length s + 1})"
    by (simp add: image_Suc_atLeastLessThan atLeast0_lessThan_Suc_eq_insert_0)
  show ?thesis unfolding strings_Contains_def list_ex_iff set_upt 1 by (simp del: image_Suc_atLeastLessThan)
qed

lemma like_match_contains:
  assumes "\<not> list_ex wildcard q" "q \<noteq> []"
  shows "like_match (''%'' @ q @ ''%'') s \<longleftrightarrow> strings_Contains (map lower s) (map lower q)"
proof (induction s)
  case Nil
  from assms show ?case by (cases q) (auto simp: wildcard_def strings_Contains_def)
next
  case (Cons c s)
  have "like_match (''%'' @ q @ ''%'') (c # s) \<longleftrightarrow> like_match (q @ ''%'') (c # s) \<or> like_match (''%'' @ q @ ''%'') s" by simp
  with Cons like_match_prefix [OF assms(1), of "c # s"] show ?case by (simp add: strings_Contains_Cons)
qed

text \<open>
  A search by name finds, in the order in which they were stored, exactly the files whose name contains the query,
  upper and lower case not told apart.  The query must have no character that is special to
  \<open>LIKE\<close>: they are not escaped, and the query of one underscore finds every file with a name.
\<close>

theorem search_file_by_name:
  assumes "driver_ok en" and "like_ok like" and "list_all (\<lambda>r. list_all ascii (fr_file_name r)) (files s)"
    and "list_all2 (\<lambda>r m. scanFileMeta en r = Inr m) (files s) metas"
  shows "(query \<noteq> [] \<and> list_all ascii query \<and> \<not> list_ex wildcard query \<longrightarrow>
      SearchFileByName like en query s =
        Inr (filter (\<lambda>m. strings_Contains (map lower (fm_FileName m)) (map lower query)) metas)) \<and>
    SearchFileByName like en ''_'' s = Inr (filter (\<lambda>m. fm_FileName m \<noteq> []) metas)"
proof -
  have name: "fm_FileName m = fr_file_name r" if "scanFileMeta en r = Inr m" for r m
    using that by (auto simp: scanFileMeta_def res_bind_eq_Inr)
  have rows: "scan_rows (scanFileMeta en) (filter (\<lambda>r. P (fr_file_name r)) rs) = Inr (filter (\<lambda>m. P (fm_FileName m)) ms)"
    if "list_all2 (\<lambda>r m. scanFileMeta en r = Inr m) rs ms" for rs ms P
    using that by (induction rule: list_all2_induct) (auto dest: name)
  have "SearchFileByName like en q s = Inr (filter (\<lambda>m. like_match (''%'' @ q @ ''%'') (fm_FileName m)) metas)"
    if q: "q \<noteq> []" "list_all ascii q" for q
  proof -
    have "like (''%'' @ q @ ''%'') (fr_file_name r) = like_match (''%'' @ q @ ''%'') (fr_file_name r)" if "r \<in> set (files s)" for r
      using assms(2,3) q(2) that unfolding like_ok_def by (auto simp: list_all_iff ascii_def)
    hence "filter (\<lambda>r. like (''%'' @ q @ ''%'') (fr_file_name r)) (files s) = filter (\<lambda>r. like_match (''%'' @ q @ ''%'') (fr_file_name r)) (files s)"
      by (rule filter_cong [OF refl])
    with q(1) rows [OF assms(4), of "like_match (''%'' @ q @ ''%'')"] show ?thesis
      using assms(1) by (simp add: SearchFileByName_def del: append_Cons like_match.simps)
  qed
  moreover have "like_match (''%'' @ ''_'' @ ''%'') n \<longleftrightarrow> n \<noteq> []" for n
    by (induction n) (auto simp: like_match_any)
  ultimately show ?thesis
    using like_match_contains [of query] by (auto simp: ascii_def simp del: append_Cons like_match.simps)
qed

definition demo_file_row :: "string \<Rightarrow> FileRow" where
  "demo_file_row name = \<lparr>fr_file_hash = Some [1], fr_file_name = name, fr_file_size = 5, fr_chunk_size = 4, fr_chunk_hashes = None,
     fr_origin_pubkey = Some [2], fr_origin_sig = Some [3], fr_created_at = 9\<rparr>"

definition demo_file_meta :: "string \<Rightarrow> FileMeta" where
  "demo_file_meta name = \<lparr>fm_FileHash = Some [1], fm_FileName = name, fm_FileSize = 5, fm_ChunkSize = 4, fm_ChunkHashes = [],
     fm_OriginPubkey = Some [2], fm_OriginSig = Some [3], fm_CreatedAt = 9\<rparr>"

theorem search_file_by_name_witness:
  "SearchFileByName like_match demo_engine ''AND'' (empty_store\<lparr>files := [demo_file_row ''Band'', demo_file_row ''song'']\<rparr>) =
     Inr [demo_file_meta ''Band'']"
proof -
  have scan: "scanFileMeta demo_engine (demo_file_row n) = Inr (demo_file_meta n)" for n
    by (simp add: scanFileMeta_def demo_file_row_def demo_file_meta_def scan_u64_def splitHashes_def splitFrom.simps [of _ 0 0])
  have "SearchFileByName like_match demo_engine ''AND'' (empty_store\<lparr>files := [demo_file_row ''Band'', demo_file_row ''song'']\<rparr>) =
      Inr (filter (\<lambda>m. strings_Contains (map lower (fm_FileName m)) (map lower ''AND'')) [demo_file_meta ''Band'', demo_file_meta ''song''])"
    using search_file_by_name [of demo_engine like_match "empty_store\<lparr>files := [demo_file_row ''Band'', demo_file_row ''song'']\<rparr>"
        "[demo_file_meta ''Band'', demo_file_meta ''song'']" "''AND''"] demo_engine_ok
    by (simp add: like_ok_def scan ascii_def wildcard_def) (simp add: demo_file_row_def ascii_def)
  moreover have "strings_Contains (map lower ''Band'') (map lower ''AND'')" "\<not> strings_Contains (map lower ''song'') (map lower ''AND'')"
    by code_simp+
  ultimately show ?thesis by (simp add: demo_file_meta_def)
qed

end
