(* ===== verification/Store_Spec.thy ===== *)
theory Store_Spec
  imports Store_Props
begin

text \<open>
  An abstract specification of the database and the proof that \<open>storage/\<close> implements it.  The
  specification knows no tables, statements or row order: keyed tables are maps, append-only ones are
  histories per device, and eviction may keep any peers that were seen last.
\<close>

section \<open>Simulations\<close>

text \<open>A run of calls, in which a call that fails changes nothing.\<close>

primrec run_calls :: "('l \<Rightarrow> 's \<Rightarrow> 's res) \<Rightarrow> 'l list \<Rightarrow> 's \<Rightarrow> 's" where
  "run_calls exec [] s = s"
| "run_calls exec (l # ls) s = run_calls exec ls (case exec l s of Inr s' \<Rightarrow> s' | Inl _ \<Rightarrow> s)"

text \<open>A run that the specification allows: a call is refused where it may be, or leads to one of the next states.\<close>

inductive spec_run :: "('l \<Rightarrow> 'a \<Rightarrow> 'a set) \<Rightarrow> ('l \<Rightarrow> 'a \<Rightarrow> bool) \<Rightarrow> 'l list \<Rightarrow> 'a \<Rightarrow> 'a \<Rightarrow> bool" for nxt refuse where
  none: "spec_run nxt refuse [] a a"
| refused: "refuse l a \<Longrightarrow> spec_run nxt refuse ls a b \<Longrightarrow> spec_run nxt refuse (l # ls) a b"
| accepted: "\<not> refuse l a \<Longrightarrow> a' \<in> nxt l a \<Longrightarrow> spec_run nxt refuse ls a' b \<Longrightarrow> spec_run nxt refuse (l # ls) a b"

inductive_simps spec_run_Nil [simp]: "spec_run nxt refuse [] a b"

text \<open>
  An abstraction function under which every call does what the specification says, and fails exactly
  where the specification refuses; then every run is one of the specification's.
\<close>

locale simulation =
  fixes exec :: "'l \<Rightarrow> 's \<Rightarrow> 's res"
    and nxt :: "'l \<Rightarrow> 'a \<Rightarrow> 'a set"
    and refuse :: "'l \<Rightarrow> 'a \<Rightarrow> bool"
    and abs :: "'s \<Rightarrow> 'a"
    and inv :: "'s \<Rightarrow> bool"
  assumes inv_step: "inv s \<Longrightarrow> exec l s = Inr s' \<Longrightarrow> inv s'"
    and sim_step: "inv s \<Longrightarrow> exec l s = Inr s' \<Longrightarrow> abs s' \<in> nxt l (abs s)"
    and sim_refuse: "inv s \<Longrightarrow> (\<exists>s'. exec l s = Inr s') \<longleftrightarrow> \<not> refuse l (abs s)"
begin

lemma run_sim: "inv s \<Longrightarrow> spec_run nxt refuse ls (abs s) (abs (run_calls exec ls s)) \<and> inv (run_calls exec ls s)"
proof (induction ls arbitrary: s)
  case (Cons l ls)
  show ?case
  proof (cases "exec l s")
    case (Inl e)
    with Cons sim_refuse [of s l] show ?thesis by (auto intro: spec_run.refused)
  next
    case (Inr s')
    have "inv s'" using Inr Cons.prems by (rule inv_step [rotated])
    with Inr Cons.IH Cons.prems sim_refuse [of s l] sim_step [of s l s'] show ?thesis
      by (auto intro: spec_run.accepted)
  qed
qed simp

end

section \<open>The abstract database\<close>

record ledger =
  lg_records :: "byte list \<rightharpoonup> RecordRow"
  lg_files :: "byte list \<rightharpoonup> FileRow"
  lg_peers :: "byte list \<rightharpoonup> PeerRow"
  lg_nameless :: bool
  lg_requests :: "byte list \<rightharpoonup> RequestRow"
  lg_sessions :: "string \<rightharpoonup> TransferStateRow"
  lg_checkpoints :: "byte list \<Rightarrow> CheckpointRow list"
  lg_forks :: "byte list \<Rightarrow> ForkRow list"
  lg_identity :: "Identity option"

text \<open>\<open>lg_nameless\<close>: there is a peer without a key, which can be written but not read by key.\<close>

definition ledger_of :: "Store \<Rightarrow> ledger" where
  "ledger_of s =
     \<lparr>lg_records = (\<lambda>k. select_row rr_id (Some k) (share_records s)),
      lg_files = (\<lambda>k. select_row fr_file_hash (Some k) (files s)),
      lg_peers = (\<lambda>k. select_row pr_pubkey (Some k) (peers s)),
      lg_nameless = (\<exists>row\<in>set (peers s). pr_pubkey row = None),
      lg_requests = (\<lambda>k. select_row qr_hash (Some k) (transfer_requests s)),
      lg_sessions = (\<lambda>k. select_row (\<lambda>r. Some (ts_ID r)) (Some k) (transfer_state s)),
      lg_checkpoints = (\<lambda>d. filter (\<lambda>row. cr_device_pubkey row = Some d) (checkpoints s)),
      lg_forks = (\<lambda>d. filter (\<lambda>row. kr_device_pubkey row = Some d) (fork_evidence s)),
      lg_identity = identity_row s\<rparr>"

text \<open>A driver that binds what it is given, with or without a fault.\<close>

definition plain_engine :: "go_error option \<Rightarrow> engine" where
  "plain_engine fault = \<lparr>en_bind_blob = (\<lambda>s. s), en_spare = (\<lambda>_. []), en_fault = fault\<rparr>"

definition put_at :: "'k option \<Rightarrow> 'v \<Rightarrow> ('k \<rightharpoonup> 'v) \<Rightarrow> ('k \<rightharpoonup> 'v)" where
  "put_at k v m = (case k of None \<Rightarrow> m | Some k \<Rightarrow> m(k \<mapsto> v))"

definition log_at :: "'k option \<Rightarrow> 'v \<Rightarrow> ('k \<Rightarrow> 'v list) \<Rightarrow> ('k \<Rightarrow> 'v list)" where
  "log_at k v h = (case k of None \<Rightarrow> h | Some k \<Rightarrow> h(k := h k @ [v]))"

text \<open>What the operations enter.\<close>

definition peer_entry :: "PeerInfo \<Rightarrow> PeerRow" where
  "peer_entry p =
     \<lparr>pr_pubkey = pi_Pubkey p, pr_chain_head = pi_ChainHead p, pr_record_index = pi_RecordIndex p,
      pr_cumulative_sent = getp 0 ct_CumulativeSent (pi_Totals p), pr_cumulative_received = getp 0 ct_CumulativeReceived (pi_Totals p),
      pr_last_seen = pi_LastSeen p, pr_has_fork_evidence = pi_HasForkEvidence p, pr_transport_type = pi_TransportType p\<rparr>"

definition file_entry :: "FileMeta \<Rightarrow> FileRow" where
  "file_entry f =
     \<lparr>fr_file_hash = fm_FileHash f, fr_file_name = fm_FileName f, fr_file_size = fm_FileSize f, fr_chunk_size = fm_ChunkSize f,
      fr_chunk_hashes = joinHashes (fm_ChunkHashes f), fr_origin_pubkey = fm_OriginPubkey f, fr_origin_sig = fm_OriginSig f,
      fr_created_at = fm_CreatedAt f\<rparr>"

definition request_entry :: "byte list \<Rightarrow> TransferRequest \<Rightarrow> RequestRow" where
  "request_entry hash q =
     \<lparr>qr_hash = Some hash, qr_requester_pubkey = tr_RequesterPubkey q, qr_file_hash = tr_FileHash q,
      qr_chunk_indices = marshalUint32s (tr_ChunkIndices q), qr_nonce = tr_Nonce q, qr_timestamp = tr_Timestamp q,
      qr_signature = tr_Signature q, qr_status = ''pending''\<rparr>"

definition checkpoint_entry :: "slice \<Rightarrow> Checkpoint \<Rightarrow> CheckpointRow" where
  "checkpoint_entry witnesses c =
     \<lparr>cr_device_pubkey = cp_DevicePubkey c, cr_chain_head = cp_ChainHead c, cr_record_index = cp_RecordIndex c,
      cr_cumulative_sent = getp 0 ct_CumulativeSent (cp_Totals c), cr_cumulative_received = getp 0 ct_CumulativeReceived (cp_Totals c),
      cr_raw_balance = cp_RawBalance c, cr_timestamp = cp_Timestamp c, cr_device_sig = cp_DeviceSig c,
      cr_witnesses = witnesses, cr_confidence = cp_Confidence c\<rparr>"

definition fork_entry :: "slice \<Rightarrow> slice \<Rightarrow> ForkEvidence \<Rightarrow> ForkRow" where
  "fork_entry a b e =
     \<lparr>kr_device_pubkey = fe_DevicePubkey e, kr_record_a = a, kr_record_b = b, kr_reporter_pubkey = fe_ReporterPubkey e,
      kr_reporter_sig = fe_ReporterSig e, kr_detected_at = fe_DetectedAt e\<rparr>"

text \<open>
  Which peers an eviction to \<open>n\<close> entries may keep: the right number of them, and none that was seen
  before one that is dropped.  A peer without a key may prevent the eviction altogether.
\<close>

definition kept_peers :: "nat \<Rightarrow> ledger \<Rightarrow> byte list set \<Rightarrow> bool" where
  "kept_peers n a K \<longleftrightarrow> K \<subseteq> dom (lg_peers a) \<and>
     (lg_nameless a \<and> K = dom (lg_peers a) \<or>
      card K = min n (card (dom (lg_peers a))) \<and>
      (\<forall>p\<in>K. \<forall>q\<in>dom (lg_peers a) - K. sint (pr_last_seen (the (lg_peers a q))) \<le> sint (pr_last_seen (the (lg_peers a p)))))"

text \<open>The states that may follow an operation that is accepted.\<close>

fun ledger_next :: "proto_lib \<Rightarrow> crypto_prims \<Rightarrow> store_op \<Rightarrow> ledger \<Rightarrow> ledger set" where
  "ledger_next pl cr (OpInsertRecord r) a = {a\<lparr>lg_records := put_at (sr_Id r) (record_row (plain_engine None) r) (lg_records a)\<rparr>}"
| "ledger_next pl cr (OpUpsertPeer (Some p)) a =
     {a\<lparr>lg_peers := put_at (pi_Pubkey p) (peer_entry p) (lg_peers a), lg_nameless := lg_nameless a \<or> pi_Pubkey p = None\<rparr>}"
| "ledger_next pl cr (OpEvictLRU n) a = {a\<lparr>lg_peers := lg_peers a |` K\<rparr> | K. kept_peers (nat n) a K}"
| "ledger_next pl cr (OpInsertFileMeta (Some f)) a = {a\<lparr>lg_files := put_at (fm_FileHash f) (file_entry f) (lg_files a)\<rparr>}"
| "ledger_next pl cr (OpInsertCheckpoint (Some c)) a =
     {a\<lparr>lg_checkpoints := log_at (cp_DevicePubkey c) (checkpoint_entry b c) (lg_checkpoints a)\<rparr> | b. marshalWitnesses pl (cp_Witnesses c) = Inr b}"
| "ledger_next pl cr (OpInsertForkEvidence (Some e)) a =
     {a\<lparr>lg_forks := log_at (fe_DevicePubkey e) (fork_entry x y e) (lg_forks a)\<rparr> | x y.
        marshal_ShareRecord pl (fe_RecordA e) = Inr x \<and> marshal_ShareRecord pl (fe_RecordB e) = Inr y}"
| "ledger_next pl cr (OpInsertRequest (Some q)) a =
     {a\<lparr>lg_requests := (lg_requests a)(Hash cr b \<mapsto> request_entry (Hash cr b) q)\<rparr> | b. marshal_TransferRequest pl q = Inr b}"
| "ledger_next pl cr (OpExpireOldRequests now age) a =
     {a\<lparr>lg_requests := lg_requests a |` {k. \<exists>row. lg_requests a k = Some row \<and> sint (now - age) \<le> sint (qr_timestamp row)}\<rparr>}"
| "ledger_next pl cr (OpUpdateStatus (Some h) st) a =
     {a\<lparr>lg_requests := (lg_requests a)(h := map_option (\<lambda>row. row\<lparr>qr_status := st\<rparr>) (lg_requests a h))\<rparr>}"
| "ledger_next pl cr (OpInitIdentity pub priv t) a =
     {a\<lparr>lg_identity := Some \<lparr>id_Pubkey = pub, id_PrivateKey = None, id_CreatedAt = t, id_ChainHead = None, id_ChainIndex = 0,
        id_CumulativeSent = 0, id_CumulativeReceived = 0\<rparr>\<rparr>}"
| "ledger_next pl cr (OpUpdateChainHead h i x y) a =
     {a\<lparr>lg_identity := map_option (\<lambda>row. row\<lparr>id_ChainHead := h, id_ChainIndex := i, id_CumulativeSent := x, id_CumulativeReceived := y\<rparr>)
        (lg_identity a)\<rparr>}"
| "ledger_next pl cr (OpUpsertTransferState row) a = {a\<lparr>lg_sessions := (lg_sessions a)(ts_ID row \<mapsto> row)\<rparr>}"
| "ledger_next pl cr _ a = {}"

text \<open>What the contents of the database may have against an operation: a key that is taken.\<close>

fun unclaimed :: "proto_lib \<Rightarrow> crypto_prims \<Rightarrow> store_op \<Rightarrow> ledger \<Rightarrow> bool" where
  "unclaimed pl cr (OpInsertRecord r) a = (case sr_Id r of None \<Rightarrow> True | Some k \<Rightarrow> lg_records a k = None)"
| "unclaimed pl cr (OpInsertFileMeta (Some f)) a = (case fm_FileHash f of None \<Rightarrow> True | Some k \<Rightarrow> lg_files a k = None)"
| "unclaimed pl cr (OpInsertRequest (Some q)) a =
     (case marshal_TransferRequest pl q of Inl _ \<Rightarrow> True | Inr b \<Rightarrow> lg_requests a (Hash cr b) = None)"
| "unclaimed pl cr (OpInitIdentity _ _ _) a = (lg_identity a = None)"
| "unclaimed pl cr _ a = True"

text \<open>
  What no contents can make up for: arguments that are missing, messages that cannot be encoded, and
  numbers of 64 bits with the top bit set, which the driver refuses.
\<close>

definition in_range :: "uint64 list \<Rightarrow> bool" where
  "in_range vs \<longleftrightarrow> (\<forall>v\<in>set vs. 0 \<le> sint v)"

definition given :: "slice list \<Rightarrow> bool" where
  "given blobs \<longleftrightarrow> (\<forall>b\<in>set blobs. b \<noteq> None)"

definition total_values :: "CumulativeTotals option \<Rightarrow> uint64 list" where
  "total_values t = [getp 0 ct_CumulativeSent t, getp 0 ct_CumulativeReceived t]"

fun well_formed_op :: "proto_lib \<Rightarrow> crypto_prims \<Rightarrow> store_op \<Rightarrow> bool" where
  "well_formed_op pl cr (OpInsertRecord r) =
     (in_range ([sr_SenderRecordIndex r, sr_ReceiverRecordIndex r, sr_BytesTotal r]
        @ total_values (sr_SenderTotals r) @ total_values (sr_ReceiverTotals r)) \<and>
      given [sr_SenderPubkey r, sr_ReceiverPubkey r, sr_RequestHash r, sr_SenderSig r, sr_ReceiverSig r, sr_FileHash r])"
| "well_formed_op pl cr (OpUpsertPeer (Some p)) = (pi_Totals p \<noteq> None \<and> in_range (pi_RecordIndex p # total_values (pi_Totals p)))"
| "well_formed_op pl cr (OpEvictLRU n) = (0 < n)"
| "well_formed_op pl cr (OpInsertFileMeta (Some f)) =
     (in_range [fm_FileSize f, fm_ChunkSize f] \<and> given [fm_OriginPubkey f, fm_OriginSig f])"
| "well_formed_op pl cr (OpInsertCheckpoint (Some c)) =
     ((\<exists>b. marshalWitnesses pl (cp_Witnesses c) = Inr b) \<and> in_range (cp_RecordIndex c # total_values (cp_Totals c)) \<and>
      given [cp_DevicePubkey c, cp_ChainHead c, cp_DeviceSig c])"
| "well_formed_op pl cr (OpInsertForkEvidence (Some e)) =
     ((\<exists>x y. marshal_ShareRecord pl (fe_RecordA e) = Inr (Some x) \<and> marshal_ShareRecord pl (fe_RecordB e) = Inr (Some y)) \<and>
      given [fe_DevicePubkey e, fe_ReporterPubkey e, fe_ReporterSig e])"
| "well_formed_op pl cr (OpInsertRequest (Some q)) =
     ((\<exists>b. marshal_TransferRequest pl q = Inr b) \<and> given [tr_RequesterPubkey q, tr_FileHash q, tr_Nonce q, tr_Signature q])"
| "well_formed_op pl cr (OpExpireOldRequests now age) = True"
| "well_formed_op pl cr (OpUpdateStatus h st) = (h \<noteq> None \<and> st \<noteq> [])"
| "well_formed_op pl cr (OpInitIdentity pub priv t) = (pub \<noteq> None \<and> 0 < sint t)"
| "well_formed_op pl cr (OpUpdateChainHead h i x y) = (h \<noteq> None \<and> in_range [i, x, y])"
| "well_formed_op pl cr (OpUpsertTransferState row) =
     ([] \<notin> {ts_ID row, ts_PeerID row, ts_Direction row, ts_State row} \<and> given [ts_FileHash row])"
| "well_formed_op pl cr _ = False"

section \<open>Tables as maps\<close>

lemma select_snoc:
  "\<forall>r\<in>set rows. \<not> sql_eq (key r) (key row) \<Longrightarrow>
   (\<lambda>k. select_row key (Some k) (rows @ [row])) = put_at (key row) row (\<lambda>k. select_row key (Some k) rows)"
  using rows_once.get_ins [of key "[]" row rows "rows @ [row]"]
  by (auto simp: fun_eq_iff put_at_def insert_row_eq_Inr split: option.split)

lemma select_upsert:
  "(\<lambda>k. select_row key (Some k) (upsert_row key row rows)) = put_at (key row) row (\<lambda>k. select_row key (Some k) rows)"
  by (auto simp: fun_eq_iff put_at_def rows_replace.get_put split: option.split)

lemma select_row_unique:
  assumes "keys_distinct key rows" and "r \<in> set rows" and "key r = Some k"
  shows "select_row key (Some k) rows = Some r"
  using assms
proof (induction rows)
  case (Cons x rows)
  have "key x \<noteq> Some k" if "r \<in> set rows" using Cons.prems(1,3) that by (force simp: keys_distinct_def split: if_splits)
  with Cons show ?case by (auto simp: select_row_def keys_distinct_def split: if_splits)
qed simp

lemma select_filter:
  assumes "keys_distinct key rows"
  shows "(\<lambda>k. select_row key (Some k) (filter P rows)) =
    (\<lambda>k. select_row key (Some k) rows) |` {k. \<exists>r. select_row key (Some k) rows = Some r \<and> P r}"
proof
  fix k
  show "select_row key (Some k) (filter P rows) =
    ((\<lambda>k. select_row key (Some k) rows) |` {k. \<exists>r. select_row key (Some k) rows = Some r \<and> P r}) k"
  proof (cases "select_row key (Some k) (filter P rows)")
    case None
    hence "\<not> P r" if "select_row key (Some k) rows = Some r" for r
      using select_row_Some [OF that] by (auto simp: select_row_eq_None)
    with None show ?thesis by (auto simp: restrict_map_def)
  next
    case (Some r)
    from select_row_Some [OF this] have "r \<in> set rows" "P r" "key r = Some k" by auto
    with select_row_unique [OF assms] Some show ?thesis by (auto simp: restrict_map_def)
  qed
qed

lemma select_map: "(\<And>r. key (f r) = key r) \<Longrightarrow> select_row key k (map f rows) = map_option f (select_row key k rows)"
  by (induction rows) (auto simp: select_row_def)

lemma dom_select: "dom (\<lambda>k. select_row key (Some k) rows) = {k. Some k \<in> key ` set rows}"
  by (auto simp: dom_def select_row_eq_None image_iff; metis)

lemma card_dom_select:
  fixes key :: "'r \<Rightarrow> 'k option"
  assumes "keys_distinct key rows"
  shows "card (dom (\<lambda>k. select_row key (Some k) rows)) = length (filter (\<lambda>r. key r \<noteq> None) rows)"
proof -
  from assms have d: "distinct (filter (\<lambda>k. k \<noteq> None) (map key rows))" by (simp add: keys_distinct_def)
  have "Some ` {k. Some k \<in> A} = {x \<in> A. x \<noteq> None}" for A :: "'k option set" by (auto simp: image_iff)
  hence "Some ` {k. Some k \<in> key ` set rows} = set (filter (\<lambda>k. k \<noteq> None) (map key rows))" by simp
  with distinct_card [OF d] have "card (Some ` {k. Some k \<in> key ` set rows}) = length (filter (\<lambda>k. k \<noteq> None) (map key rows))" by simp
  thus ?thesis by (simp add: dom_select card_image filter_map comp_def)
qed

text \<open>Eviction: the rows of the first \<open>n\<close> keys in the order of the last sighting.\<close>

lemma keys_distinct_perm: "mset xs = mset ys \<Longrightarrow> keys_distinct key xs = keys_distinct key ys"
  unfolding keys_distinct_def by (metis mset_eq_imp_distinct_iff mset_filter mset_map)

lemma keys_distinct_take: "keys_distinct key xs \<Longrightarrow> None \<notin> key ` set (take n xs) \<Longrightarrow> distinct (map key (take n xs))"
proof (rule keys_distinct_total)
  assume "keys_distinct key xs"
  hence "distinct (filter (\<lambda>k. k \<noteq> None) (map key (take n xs @ drop n xs)))" by (simp add: keys_distinct_def)
  thus "keys_distinct key (take n xs)" unfolding keys_distinct_def map_append filter_append distinct_append by simp
qed

lemma min_length_filter:
  assumes "\<forall>x\<in>set (take n xs). P x"
  shows "length (take n xs) = min n (length (filter P xs))"
proof -
  have "filter P xs = take n xs @ filter P (drop n xs)"
    using assms by (metis append_take_drop_id filter_True filter_append)
  hence "length (filter P xs) = length (take n xs) + length (filter P (drop n xs))" by simp
  moreover have "length (filter P (drop n xs)) \<le> length xs - n" by (metis length_drop length_filter_le)
  ultimately show ?thesis by auto
qed

lemma evict_recent:
  assumes "keys_distinct pr_pubkey rows" and "None \<notin> pr_pubkey ` set (take n (order_desc pr_last_seen rows))"
    and "m = (\<lambda>k. select_row pr_pubkey (Some k) rows)" and "K = {k. Some k \<in> pr_pubkey ` set (take n (order_desc pr_last_seen rows))}"
  shows "card K = min n (card (dom m)) \<and> (\<forall>p\<in>K. \<forall>q\<in>dom m - K. sint (pr_last_seen (the (m q))) \<le> sint (pr_last_seen (the (m p))))"
proof (intro conjI ballI)
  let ?L = "order_desc pr_last_seen rows"
  have L: "mset ?L = mset rows" by (simp add: order_desc_def)
  have "Some ` K = pr_pubkey ` set (take n ?L)" using assms(2) unfolding assms(4) by (auto simp: image_iff) (metis option.exhaust)
  moreover have "distinct (map pr_pubkey (take n ?L))"
    using assms(1,2) keys_distinct_perm [OF L] by (intro keys_distinct_take) auto
  ultimately have "card (Some ` K) = length (take n ?L)" by (metis distinct_card length_map list.set_map)
  hence "card K = length (take n ?L)" by (simp add: card_image)
  also have "\<dots> = min n (length (filter (\<lambda>r. pr_pubkey r \<noteq> None) ?L))"
    using assms(2) by (intro min_length_filter) (metis image_eqI)
  also have "length (filter (\<lambda>r. pr_pubkey r \<noteq> None) ?L) = length (filter (\<lambda>r. pr_pubkey r \<noteq> None) rows)"
    using L by (metis mset_filter size_mset)
  finally show "card K = min n (card (dom m))" using card_dom_select [OF assms(1)] by (simp add: assms(3))
next
  fix p q
  let ?L = "order_desc pr_last_seen rows"
  assume p: "p \<in> K" and q: "q \<in> dom m - K"
  from p obtain rp where rp: "rp \<in> set (take n ?L)" "pr_pubkey rp = Some p" unfolding assms(4) by (metis (mono_tags) imageE mem_Collect_eq)
  have "m p = Some rp" unfolding assms(3) using rp in_set_takeD [OF rp(1)] by (intro select_row_unique [OF assms(1)]) auto
  moreover from q obtain rq where rq: "m q = Some rq" by auto
  hence "rq \<in> set ?L" "pr_pubkey rq = Some q" using select_row_Some [of pr_pubkey "Some q" rows rq] by (auto simp: assms(3))
  moreover have "rq \<notin> set (take n ?L)" using q \<open>pr_pubkey rq = Some q\<close> unfolding assms(4) by (metis (mono_tags) DiffD2 image_eqI mem_Collect_eq)
  ultimately have "rq \<in> set (drop n ?L)" "rp \<in> set (take n ?L)" using rp(1) by (metis Un_iff append_take_drop_id set_append)+
  moreover have "sorted_wrt (\<lambda>a b. - sint (pr_last_seen a) \<le> - sint (pr_last_seen b)) (take n ?L @ drop n ?L)"
    using sorted_sort_key [of "\<lambda>r. - sint (pr_last_seen r)" rows] by (simp add: order_desc_def sorted_wrt_map)
  ultimately show "sint (pr_last_seen (the (m q))) \<le> sint (pr_last_seen (the (m p)))"
    using \<open>m p = Some rp\<close> rq unfolding sorted_wrt_append by fastforce
qed

section \<open>Every operation implements its specification\<close>

lemma plain_engine_sel [simp]: "en_bind_blob (plain_engine f) b = b" "en_fault (plain_engine f) = f"
  by (simp_all add: plain_engine_def)

lemma record_row_plain: "record_row (plain_engine f) r = record_row (plain_engine None) r"
  by (simp add: record_row_def)

lemma evict_refines:
  assumes "store_ok s" and "0 < n"
    and "s' = s\<lparr>peers := filter (\<lambda>row. \<not> not_in (pr_pubkey row) (map pr_pubkey (limit_rows n (order_desc pr_last_seen (peers s))))) (peers s)\<rparr>"
  shows "\<exists>K. kept_peers (nat n) (ledger_of s) K \<and> ledger_of s' = (ledger_of s)\<lparr>lg_peers := lg_peers (ledger_of s) |` K\<rparr>"
proof -
  define top where "top = take (nat n) (order_desc pr_last_seen (peers s))"
  define m where "m = (\<lambda>k. select_row pr_pubkey (Some k) (peers s))"
  let ?P = "\<lambda>row. \<not> not_in (pr_pubkey row) (map pr_pubkey top)"
  let ?K = "{k. \<exists>r. m k = Some r \<and> ?P r}"
  from assms(1) have d: "keys_distinct pr_pubkey (peers s)" by (simp add: store_ok_def)
  have sub: "set top \<subseteq> set (peers s)" by (auto simp: top_def dest: in_set_takeD)
  have top_Nil: "top = [] \<longleftrightarrow> peers s = []" using assms(2) by (auto simp: top_def order_desc_def) (metis set_empty set_sort)
  have s': "s' = s\<lparr>peers := filter ?P (peers s)\<rparr>" using assms(2,3) by (simp add: limit_rows_def top_def)
  have "(\<exists>row\<in>set (filter ?P (peers s)). pr_pubkey row = None) \<longleftrightarrow> (\<exists>row\<in>set (peers s). pr_pubkey row = None)"
    using top_Nil by (auto simp: not_in_def)
  hence "ledger_of s' = (ledger_of s)\<lparr>lg_peers := lg_peers (ledger_of s) |` ?K\<rparr>"
    unfolding s' using select_filter [OF d, of ?P] by (simp add: ledger_of_def m_def)
  moreover have "kept_peers (nat n) (ledger_of s) ?K"
  proof (cases "None \<in> pr_pubkey ` set top")
    case True
    hence "?K = dom m" by (auto simp: not_in_def)
    moreover have "\<exists>row\<in>set (peers s). pr_pubkey row = None" using True sub by (metis image_iff subsetD)
    ultimately show ?thesis by (simp add: kept_peers_def ledger_of_def m_def)
  next
    case False
    have "?K = {k. Some k \<in> pr_pubkey ` set top}"
    proof (intro set_eqI iffI; clarsimp simp del: not_None_eq)
      fix k r
      assume "m k = Some r" "?P r"
      thus "Some k \<in> pr_pubkey ` set top" using select_row_Some [of pr_pubkey "Some k" "peers s" r] False top_Nil by (auto simp: m_def not_in_def)
    next
      fix k r
      assume r: "r \<in> set top" "Some k = pr_pubkey r"
      hence "m k = Some r" using sub unfolding m_def by (intro select_row_unique [OF d]) auto
      moreover have "?P r" using r by (auto simp: not_in_def)
      ultimately show "\<exists>r. m k = Some r \<and> ?P r" by blast
    qed
    with evict_recent [OF d False [unfolded top_def] refl refl] show ?thesis
      by (auto simp: kept_peers_def ledger_of_def m_def top_def)
  qed
  ultimately show ?thesis by blast
qed

lemma keyless_upsert:
  "(\<exists>r\<in>set (upsert_row key row rows). key r = None) \<longleftrightarrow> (\<exists>r\<in>set rows. key r = None) \<or> key row = None"
  by (cases "key row") (auto simp: upsert_row_def sql_eq_def)

lemmas table_maps = ledger_of_def select_snoc select_upsert keyless_upsert

lemma exec_refines:
  assumes ok: "store_ok s" and ex: "exec_op pl cr (plain_engine f) op s = Inr s'"
  shows "ledger_of s' \<in> ledger_next pl cr op (ledger_of s)"
proof (cases op)
  case (OpInsertRecord r)
  with ex record_row_plain [of f r] show ?thesis
    by (auto simp: InsertRecord_eq_Inr table_maps) (simp add: record_row_def)
next
  case (OpUpsertPeer p)
  with ex obtain q where q: "p = Some q" and s': "s' = s\<lparr>peers := upsert_row pr_pubkey (peer_entry q) (peers s)\<rparr>"
    by (auto simp: UpsertPeer_def stmt_Inr peer_entry_def split: option.splits)
  have "pr_pubkey (peer_entry q) = pi_Pubkey q" by (simp add: peer_entry_def)
  thus ?thesis unfolding OpUpsertPeer q s' by (simp add: table_maps)
next
  case (OpEvictLRU n)
  with ex evict_refines [OF ok, of n s'] show ?thesis by (auto simp: EvictLRU_def stmt_Inr Let_def split: if_splits)
next
  case (OpInsertFileMeta g)
  with ex show ?thesis by (auto simp: InsertFileMeta_def stmt_Inr table_maps file_entry_def split: option.splits)
next
  case (OpInsertCheckpoint c)
  with ex show ?thesis
    by (auto simp: InsertCheckpoint_def stmt_Inr ledger_of_def log_at_def checkpoint_entry_def fun_eq_iff Let_def split: option.splits)
next
  case (OpInsertForkEvidence e)
  with ex show ?thesis
    by (auto simp: InsertForkEvidence_def stmt_Inr ledger_of_def log_at_def fork_entry_def fun_eq_iff split: option.splits)
next
  case (OpInsertRequest q)
  with ex show ?thesis
    by (auto simp: InsertRequest_def stmt_Inr table_maps put_at_def request_entry_def Let_def split: option.splits)
next
  case (OpExpireOldRequests now age)
  have "keys_distinct qr_hash (transfer_requests s)" using ok by (simp add: store_ok_def)
  from OpExpireOldRequests ex select_filter [OF this, of "\<lambda>row. \<not> sint (qr_timestamp row) < sint (now - age)"] show ?thesis
    by (auto simp: ExpireOldRequests_def stmt_Inr ledger_of_def Let_def not_less)
next
  case (OpUpdateStatus h st)
  with ex show ?thesis
    by (auto simp: UpdateStatus_def stmt_Inr ledger_of_def select_map fun_eq_iff intro!: map_option_cong map_option_idI
        dest!: select_row_Some split: if_splits)
next
  case (OpUpsertTransferState row)
  with ex select_upsert [of "\<lambda>r. Some (ts_ID r)" row "transfer_state s"] show ?thesis
    by (auto simp: UpsertTransferState_def stmt_Inr ledger_of_def put_at_def split: if_splits)
qed (use ex in \<open>auto simp: InitIdentity_def UpdateChainHead_def stmt_Inr ledger_of_def split: if_splits option.splits\<close>)

lemma exec_refuses:
  "(\<exists>s'. exec_op pl cr (plain_engine f) op s = Inr s') \<longleftrightarrow> f = None \<and> well_formed_op pl cr op \<and> unclaimed pl cr op (ledger_of s)"
proof (cases op)
  case (OpInsertRecord r)
  thus ?thesis
    by (auto simp: InsertRecord_def record_row_def stmt_Inr check_all_eq_Inr ledger_of_def in_range_def given_def total_values_def
        select_row_eq_None sql_eq_def Let_def not_null_def split: option.splits)
qed (auto simp: mutator_defs stmt_Inr check_all_eq_Inr ledger_of_def Let_def select_row_eq_None in_range_def given_def
      total_values_def sql_eq_def split: option.splits if_splits sum.splits)

interpretation db: simulation "\<lambda>(f, op). exec_op pl cr (plain_engine f) op" "\<lambda>(f, op). ledger_next pl cr op"
    "\<lambda>(f, op) a. \<not> (f = None \<and> well_formed_op pl cr op \<and> unclaimed pl cr op a)" ledger_of store_ok for pl cr
proof (unfold_locales, goal_cases)
  case (1 s l s')
  thus ?case by (auto intro: exec_op_store_ok split: prod.splits)
next
  case (2 s l s')
  thus ?case by (auto intro: exec_refines split: prod.splits)
next
  case (3 s l)
  thus ?case using exec_refuses [of pl cr "fst l" "snd l" s] unfolding split_beta by blast
qed

lemma run_ops_plain:
  "run_ops pl cr (map (\<lambda>(f, op). (plain_engine f, op)) ls) s = run_calls (\<lambda>(f, op). exec_op pl cr (plain_engine f) op) ls s"
  by (induction ls arbitrary: s) auto

text \<open>What follows from the specification alone: entries of records and files are never lost or changed, and histories only grow.\<close>

lemma put_at_extends: "(case k of None \<Rightarrow> True | Some k \<Rightarrow> m k = None) \<Longrightarrow> m \<subseteq>\<^sub>m put_at k v m"
  by (auto simp: put_at_def map_le_def split: option.splits)

lemma log_at_extends: "prefix (h d) (log_at k v h d)"
  by (auto simp: log_at_def split: option.split)

lemma ledger_next_extends:
  "a' \<in> ledger_next pl cr op a \<Longrightarrow> unclaimed pl cr op a \<Longrightarrow>
   lg_records a \<subseteq>\<^sub>m lg_records a' \<and> lg_files a \<subseteq>\<^sub>m lg_files a' \<and> prefix (lg_forks a d) (lg_forks a' d)"
  by (induction pl cr op a rule: ledger_next.induct) (auto simp: put_at_extends log_at_extends)

lemma ledger_run_extends:
  assumes "spec_run (\<lambda>(f, op). ledger_next pl cr op)
    (\<lambda>(f, op) a. \<not> (f = None \<and> well_formed_op pl cr op \<and> unclaimed pl cr op a)) ls a b"
  shows "lg_records a \<subseteq>\<^sub>m lg_records b \<and> lg_files a \<subseteq>\<^sub>m lg_files b \<and> prefix (lg_forks a d) (lg_forks b d)"
  using assms
proof (induction rule: spec_run.induct)
  case (accepted l a a' ls b)
  have "lg_records a \<subseteq>\<^sub>m lg_records a' \<and> lg_files a \<subseteq>\<^sub>m lg_files a' \<and> prefix (lg_forks a d) (lg_forks a' d)"
    using accepted.hyps(1,2) by (intro ledger_next_extends [where op = "snd l" and pl = pl and cr = cr]) (auto simp: split_beta)
  with accepted.IH show ?case by (meson map_le_trans prefix_order.trans)
qed simp_all

section \<open>The contract of the database\<close>

text \<open>
  C4. The database implements the abstract ledger.  Take any sequence of calls of the operations of
  \<open>storage/\<close> that change it, with driver faults wherever they happen.  Seen through \<open>ledger_of\<close>, the run is
  one the specification allows: a call is refused exactly when the driver fails, its arguments are malformed
  or its key is taken, and changes nothing then; otherwise it makes the entry the specification names and
  nothing else, and an eviction keeps the right number of peers, none of them seen before one it drops.
\<close>

theorem store_refines_ledger:
  assumes "store_ok s"
  shows "spec_run (\<lambda>(f, op). ledger_next pl cr op)
    (\<lambda>(f, op) a. \<not> (f = None \<and> well_formed_op pl cr op \<and> unclaimed pl cr op a))
    ls (ledger_of s) (ledger_of (run_ops pl cr (map (\<lambda>(f, op). (plain_engine f, op)) ls) s))"
  using db.run_sim [OF assms, of pl cr ls] by (simp add: run_ops_plain)

lemma demo_engine_plain: "demo_engine = plain_engine None"
  by (simp add: demo_engine_def plain_engine_def)

theorem store_refines_ledger_witness:
  "spec_run (\<lambda>(f, op). ledger_next demo_proto demo_crypto op)
     (\<lambda>(f, op) a. \<not> (f = None \<and> well_formed_op demo_proto demo_crypto op \<and> unclaimed demo_proto demo_crypto op a))
     [(Some (Errorf ''busy''), OpEvictLRU 3), (None, OpInsertRecord demo_record), (None, OpInsertRecord demo_record)]
     (ledger_of empty_store) (ledger_of demo_store)"
proof -
  have "InsertRecord demo_engine demo_record demo_store \<noteq> Inr s" for s
    by (simp add: InsertRecord_eq_Inr demo_store_def sql_eq_def record_row_def demo_engine_def demo_record_def)
  hence again: "\<exists>e. InsertRecord demo_engine demo_record demo_store = Inl e" by (metis sum.exhaust)
  have "\<exists>e. EvictLRU (plain_engine (Some (Errorf ''busy''))) 3 empty_store = Inl e" by (simp add: EvictLRU_def run_stmt_def)
  with again demo_insert store_refines_ledger [OF store_ok_empty, of demo_proto demo_crypto
      "[(Some (Errorf ''busy''), OpEvictLRU 3), (None, OpInsertRecord demo_record), (None, OpInsertRecord demo_record)]"]
  show ?thesis by (auto simp: demo_engine_plain)
qed

text \<open>
  Reading the database is reading the ledger: without a driver fault, the queries by key and by device
  return exactly the decoded entry of the ledger under that key, and \<open>GetLatestCheckpoint\<close> the entry of the
  device with the highest index.
\<close>

theorem store_reads_ledger:
  assumes "driver_ok en"
  shows "GetRecord en (Some k) s = scan_row (scanRecord en) (lg_records (ledger_of s) k) \<and>
    GetPeer en (Some k) s = scan_row scanPeer (lg_peers (ledger_of s) k) \<and>
    GetFileMeta en (Some k) s = scan_row (scanFileMeta en) (lg_files (ledger_of s) k) \<and>
    GetRequest en (Some k) s = scan_row scanRequest (lg_requests (ledger_of s) k) \<and>
    GetLatestCheckpoint en pl (Some k) s =
      scan_row (scanCheckpoint pl) (first_row (order_desc cr_record_index (lg_checkpoints (ledger_of s) k))) \<and>
    GetForkEvidence en pl (Some k) s = scan_rows (scanForkEvidence pl) (lg_forks (ledger_of s) k) \<and>
    HasForkEvidence en (Some k) s = Inr (lg_forks (ledger_of s) k \<noteq> [])"
proof -
  have eq: "sql_eq x (Some k) \<longleftrightarrow> x = Some k" for x :: slice by (auto simp: sql_eq_def)
  show ?thesis
    using assms by (simp add: GetRecord_def GetPeer_def GetFileMeta_def GetRequest_def GetLatestCheckpoint_def
        GetForkEvidence_def HasForkEvidence_def ledger_of_def run_stmt_def eq)
qed

theorem store_reads_ledger_witness:
  "lg_records (ledger_of demo_store) [1] \<noteq> None \<and>
   GetRecord demo_engine (Some [1]) demo_store = scan_row (scanRecord demo_engine) (lg_records (ledger_of demo_store) [1]) \<and>
   GetPeer demo_engine (Some [1]) demo_store = scan_row scanPeer None"
  using store_reads_ledger [OF demo_engine_ok, of "[1]" demo_store]
  by (simp add: ledger_of_def demo_store_def empty_store_def select_row_def record_row_def demo_engine_def demo_record_def)

end
