(* ===== verification/Go_Num.thy ===== *)
theory Go_Num
  imports Prelude Complex_Main "HOL-Library.Signed_Division"
begin

text \<open>
  The numeric parts of Go that the credit arithmetic uses: IEEE 754 double precision with
  round-to-nearest-even, truncated signed division, and the seconds, instants and durations of
  the package \<open>time\<close>.  Two things are not fixed by the language and stay parameters
  (\<open>platform\<close>): the result of converting a float that does not fit to an integer, and the value
  of \<open>math.Pow(0.5, y)\<close>, of which only the documented special cases and range are assumed.
\<close>

section \<open>Rounding to 53 bits\<close>

text \<open>The position of the leading binary digit of a natural number.\<close>

fun nlog2 :: "nat \<Rightarrow> nat" where
  "nlog2 n = (if n < 2 then 0 else Suc (nlog2 (n div 2)))"

declare nlog2.simps [simp del]

text \<open>The binary exponent of a positive rational.\<close>

definition expo :: "rat \<Rightarrow> int" where
  "expo x = (if 1 \<le> x then int (nlog2 (nat \<lfloor>x\<rfloor>))
     else let m = int (nlog2 (nat \<lfloor>1 / x\<rfloor>)) in if x = 2 powi (- m) then - m else - m - 1)"

text \<open>The unit in the last place; below the normal range it stays at \<open>2\<^sup>-\<^sup>1\<^sup>0\<^sup>7\<^sup>4\<close>.\<close>

definition ulp_exp :: "rat \<Rightarrow> int" where
  "ulp_exp x = max (expo x - 52) (- 1074)"

definition rne :: "rat \<Rightarrow> int" where
  "rne q = (let f = \<lfloor>q\<rfloor>; r = q - of_int f in
     if r < 1 / 2 then f else if 1 / 2 < r then f + 1 else if even f then f else f + 1)"

definition rnd_pos :: "rat \<Rightarrow> rat" where
  "rnd_pos x = of_int (rne (x / 2 powi ulp_exp x)) * 2 powi ulp_exp x"

definition rnd :: "rat \<Rightarrow> rat" where
  "rnd x = (if x = 0 then 0 else if 0 < x then rnd_pos x else - rnd_pos (- x))"

lemma nlog2_bounds: "0 < n \<Longrightarrow> 2 ^ nlog2 n \<le> n \<and> n < 2 ^ Suc (nlog2 n)"
proof (induction n rule: nlog2.induct)
  case (1 n)
  show ?case
  proof (cases "n < 2")
    case True
    with 1 show ?thesis by (subst (1 2) nlog2.simps) simp
  next
    case False
    then have "2 ^ nlog2 (n div 2) \<le> n div 2 \<and> n div 2 < 2 ^ Suc (nlog2 (n div 2))"
      using 1 by simp
    with False show ?thesis by (subst (1 2) nlog2.simps) auto
  qed
qed

lemma nlog2_floor:
  fixes x :: rat
  assumes "1 \<le> x"
  shows "2 ^ nlog2 (nat \<lfloor>x\<rfloor>) \<le> x \<and> x < 2 ^ Suc (nlog2 (nat \<lfloor>x\<rfloor>))"
proof -
  let ?k = "nlog2 (nat \<lfloor>x\<rfloor>)"
  have "0 < nat \<lfloor>x\<rfloor>" using assms by simp
  from nlog2_bounds [OF this] have "int (2 ^ ?k) \<le> \<lfloor>x\<rfloor> \<and> \<lfloor>x\<rfloor> < int (2 ^ Suc ?k)"
    using assms by linarith
  thus ?thesis unfolding le_floor_iff floor_less_iff by simp
qed

lemma expo_bounds:
  assumes "0 < x"
  shows "2 powi expo x \<le> x \<and> x < 2 powi (expo x + 1)"
proof (cases "1 \<le> x")
  case True
  with nlog2_floor [of x] show ?thesis by (simp add: expo_def power_int_add_1)
next
  case False
  define m where "m = nlog2 (nat \<lfloor>1 / x\<rfloor>)"
  have "1 \<le> 1 / x" using False assms by simp
  from nlog2_floor [OF this] have b: "2 ^ m \<le> 1 / x" "1 / x < 2 ^ Suc m" by (simp_all add: m_def)
  have lo: "x \<le> 2 powi (- int m)" using b(1) assms by (simp add: power_int_minus field_simps)
  have hi: "2 powi (- int m - 1) < x"
    using b(2) assms by (simp add: power_int_diff power_int_minus field_simps)
  show ?thesis
  proof (cases "x = 2 powi (- int m)")
    case True
    then have "expo x = - int m" using False by (simp add: expo_def m_def)
    with True show ?thesis using power_int_strict_increasing [of "- int m" "- int m + 1" "2::rat"] by simp
  next
    case neq: False
    then have "expo x = - int m - 1" using False by (simp add: expo_def m_def Let_def)
    with neq lo hi show ?thesis by simp
  qed
qed

lemma expo_mono:
  assumes "0 < x" "x \<le> y"
  shows "expo x \<le> expo y"
proof (rule ccontr)
  assume "\<not> expo x \<le> expo y"
  hence "(2::rat) powi (expo y + 1) \<le> 2 powi expo x" by (intro power_int_increasing) auto
  with expo_bounds [of x] expo_bounds [of y] assms show False by linarith
qed

lemma expo_eqI: "0 < x \<Longrightarrow> 2 powi k \<le> x \<Longrightarrow> x < 2 powi (k + 1) \<Longrightarrow> expo x = k"
  using expo_bounds [of x] power_int_increasing [of "expo x + 1" k "2::rat"] power_int_increasing [of "k + 1" "expo x" "2::rat"]
  by (cases "expo x" k rule: linorder_cases) auto

lemma rne_of_int [simp]: "rne (of_int i) = i"
  by (simp add: rne_def)

lemma rne_mono: "x \<le> y \<Longrightarrow> rne x \<le> rne y"
proof (cases "\<lfloor>x\<rfloor> = \<lfloor>y\<rfloor>")
  case True
  assume "x \<le> y"
  with True show ?thesis by (auto simp: rne_def Let_def)
next
  case False
  assume "x \<le> y"
  with False have "\<lfloor>x\<rfloor> + 1 \<le> \<lfloor>y\<rfloor>" using floor_mono [of x y] by linarith
  moreover have "rne x \<le> \<lfloor>x\<rfloor> + 1" "\<lfloor>y\<rfloor> \<le> rne y" by (auto simp: rne_def Let_def)
  ultimately show ?thesis by linarith
qed

lemma rne_le_int: "q \<le> of_int i \<Longrightarrow> rne q \<le> i"
  using rne_mono [of q "of_int i"] by simp

lemma rne_ge_int: "of_int i \<le> q \<Longrightarrow> i \<le> rne q"
  using rne_mono [of "of_int i" q] by simp

lemma pow2_int:
  assumes "0 \<le> k"
  shows "\<exists>i. (2::rat) powi k = of_int i"
  using assms by (intro exI [of _ "2 ^ nat k"]) (simp add: power_int_nonneg_exp)

text \<open>A power of two at least as large as the last place is a multiple of it.\<close>

lemma pow2_over_ulp:
  assumes "ulp_exp x \<le> k"
  obtains i where "(2::rat) powi k / 2 powi ulp_exp x = of_int i"
  using pow2_int [of "k - ulp_exp x"] assms by (auto simp: power_int_diff)

lemma rnd_pos_le_pow2:
  assumes "0 < x" "x \<le> 2 powi k" "ulp_exp x \<le> k"
  shows "rnd_pos x \<le> 2 powi k"
proof -
  obtain i where i: "(2::rat) powi k / 2 powi ulp_exp x = of_int i" by (rule pow2_over_ulp [OF assms(3)])
  have "x / 2 powi ulp_exp x \<le> 2 powi k / 2 powi ulp_exp x" using assms(2) by (simp add: divide_right_mono)
  hence "rne (x / 2 powi ulp_exp x) \<le> i" unfolding i by (rule rne_le_int)
  hence "rnd_pos x \<le> of_int i * 2 powi ulp_exp x" by (simp add: rnd_pos_def)
  also have "\<dots> = 2 powi k" unfolding i [symmetric] by simp
  finally show ?thesis .
qed

lemma rnd_pos_ge_pow2:
  assumes "2 powi k \<le> x" "ulp_exp x \<le> k"
  shows "2 powi k \<le> rnd_pos x"
proof -
  obtain i where i: "(2::rat) powi k / 2 powi ulp_exp x = of_int i" by (rule pow2_over_ulp [OF assms(2)])
  have "2 powi k / 2 powi ulp_exp x \<le> x / 2 powi ulp_exp x" using assms(1) by (simp add: divide_right_mono)
  hence "i \<le> rne (x / 2 powi ulp_exp x)" unfolding i by (rule rne_ge_int)
  hence "of_int i * 2 powi ulp_exp x \<le> rnd_pos x" by (simp add: rnd_pos_def)
  moreover have "of_int i * 2 powi ulp_exp x = (2::rat) powi k" unfolding i [symmetric] by simp
  ultimately show ?thesis by simp
qed

lemma rnd_pos_mono:
  assumes "0 < x" "x \<le> y"
  shows "rnd_pos x \<le> rnd_pos y"
proof (cases "ulp_exp x = ulp_exp y")
  case True
  have "x / 2 powi ulp_exp y \<le> y / 2 powi ulp_exp y" using assms(2) by (simp add: divide_right_mono)
  with True show ?thesis by (simp add: rnd_pos_def rne_mono)
next
  case False
  note expo_mono [OF assms]
  with False have u: "ulp_exp x \<le> expo y" "ulp_exp y \<le> expo y" "expo x + 1 \<le> expo y" by (auto simp: ulp_exp_def)
  have "x \<le> 2 powi (expo x + 1)" using expo_bounds [OF assms(1)] by simp
  also have "\<dots> \<le> 2 powi expo y" using u(3) by (intro power_int_increasing) auto
  finally have "rnd_pos x \<le> 2 powi expo y" by (intro rnd_pos_le_pow2 [OF assms(1) _ u(1)])
  also have "\<dots> \<le> rnd_pos y" using expo_bounds [of y] assms by (intro rnd_pos_ge_pow2 u(2)) auto
  finally show ?thesis .
qed

lemma rnd_pos_nonneg: "0 < x \<Longrightarrow> 0 \<le> rnd_pos x"
  using rne_ge_int [of 0 "x / 2 powi ulp_exp x"] by (simp add: rnd_pos_def)

lemma rnd_0 [simp]: "rnd 0 = 0"
  by (simp add: rnd_def)

lemma rnd_nonneg: "0 \<le> x \<Longrightarrow> 0 \<le> rnd x"
  by (simp add: rnd_def rnd_pos_nonneg)

lemma rnd_mono:
  assumes "x \<le> y"
  shows "rnd x \<le> rnd y"
proof (cases "0 < x \<or> y < 0")
  case True
  then show ?thesis using rnd_pos_mono [of x y] rnd_pos_mono [of "- y" "- x"] assms by (auto simp: rnd_def)
next
  case False
  with assms rnd_pos_nonneg [of y] rnd_pos_nonneg [of "- x"] show ?thesis by (auto simp: rnd_def)
qed

text \<open>Integers of at most 53 bits and small powers of two are exact.\<close>

lemma rnd_exactI:
  assumes "0 < x" "x = of_int i * 2 powi ulp_exp x"
  shows "rnd x = x"
proof -
  have "x / 2 powi ulp_exp x = of_int i"
    using assms(2) by (metis nonzero_mult_div_cancel_right power_int_not_zero zero_neq_numeral)
  thus ?thesis using assms by (simp add: rnd_def rnd_pos_def)
qed

lemma rnd_pow2: "- 1022 \<le> k \<Longrightarrow> rnd (2 powi k) = 2 powi k"
proof -
  assume k: "- 1022 \<le> k"
  have "expo (2 powi k) = k"
    by (rule expo_eqI) (auto intro: power_int_strict_increasing)
  with k have "ulp_exp (2 powi k) = k - 52" by (simp add: ulp_exp_def)
  thus ?thesis by (intro rnd_exactI [where i = "2 ^ 52"]) (auto simp: power_int_diff)
qed

lemma rnd_nat:
  assumes "n \<le> 2 ^ 53"
  shows "rnd (of_nat n) = of_nat n"
proof (cases "n = 0 \<or> n = 2 ^ 53")
  case True
  then show ?thesis using rnd_pow2 [of 53] by auto
next
  case False
  hence n: "1 \<le> n" "n < 2 ^ 53" using assms by auto
  let ?e = "expo (of_nat n)"
  have "(2::rat) powi ?e \<le> of_nat n" "(of_nat n :: rat) < 2 powi (?e + 1)" using expo_bounds [of "of_nat n"] n by auto
  moreover have "(1::rat) \<le> of_nat n" "(of_nat n :: rat) < 2 powi 53"
    using n by (simp, metis of_nat_less_iff of_nat_numeral of_nat_power power_int_numeral)
  ultimately have "2 powi 0 < (2::rat) powi (?e + 1)" "(2::rat) powi ?e < 2 powi 53" by simp_all
  hence "0 \<le> ?e" "?e \<le> 52"
    using power_int_increasing [of "?e + 1" 0 "2::rat"] power_int_increasing [of 53 ?e "2::rat"] by fastforce+
  moreover define j where "j = nat (52 - ?e)"
  ultimately have u: "ulp_exp (of_nat n) = - int j" by (simp add: ulp_exp_def)
  show ?thesis
    by (rule rnd_exactI [where i = "int n * 2 ^ j"]) (use n in \<open>simp_all add: u power_int_minus\<close>)
qed

section \<open>Floats\<close>

text \<open>
  A \<open>float64\<close>.  The two zeros are one value: no expression of the code divides by a zero that
  is not the conversion of an integer.
\<close>

datatype float64 = Fin rat | PInf | NInf | NaN

record platform =
  pf_to_int64 :: "float64 \<Rightarrow> int64"
  pf_pow_half :: "float64 \<Rightarrow> float64"

definition to_float64 :: "rat \<Rightarrow> float64" where
  "to_float64 x = (let y = rnd x in
     if y \<ge> 2 ^ 1024 then PInf else if y \<le> - (2 ^ 1024) then NInf else Fin y)"

definition inf_of :: "rat \<Rightarrow> float64" where
  "inf_of s = (if s = 0 then NaN else if 0 < s then PInf else NInf)"

text \<open>The sign of a float, as a number (zero for zero).\<close>

fun f_sgn :: "float64 \<Rightarrow> rat" where
  "f_sgn (Fin x) = sgn x"
| "f_sgn PInf = 1"
| "f_sgn NInf = - 1"
| "f_sgn NaN = 0"

fun f_add :: "float64 \<Rightarrow> float64 \<Rightarrow> float64" where
  "f_add (Fin x) (Fin y) = to_float64 (x + y)"
| "f_add NaN _ = NaN"
| "f_add _ NaN = NaN"
| "f_add PInf NInf = NaN"
| "f_add NInf PInf = NaN"
| "f_add PInf _ = PInf"
| "f_add _ PInf = PInf"
| "f_add NInf _ = NInf"
| "f_add _ NInf = NInf"

fun f_mul :: "float64 \<Rightarrow> float64 \<Rightarrow> float64" where
  "f_mul (Fin x) (Fin y) = to_float64 (x * y)"
| "f_mul NaN _ = NaN"
| "f_mul _ NaN = NaN"
| "f_mul a b = inf_of (f_sgn a * f_sgn b)"

fun f_div :: "float64 \<Rightarrow> float64 \<Rightarrow> float64" where
  "f_div (Fin x) (Fin y) = (if y = 0 then inf_of x else to_float64 (x / y))"
| "f_div NaN _ = NaN"
| "f_div _ NaN = NaN"
| "f_div (Fin x) _ = Fin 0"
| "f_div a (Fin y) = inf_of (f_sgn a * (if y = 0 then 1 else sgn y))"
| "f_div _ _ = NaN"

fun f_less :: "float64 \<Rightarrow> float64 \<Rightarrow> bool" where
  "f_less (Fin x) (Fin y) = (x < y)"
| "f_less NaN _ = False"
| "f_less _ NaN = False"
| "f_less PInf _ = False"
| "f_less _ PInf = True"
| "f_less _ NInf = False"
| "f_less NInf _ = True"

definition float64_of_int64 :: "int64 \<Rightarrow> float64" where
  "float64_of_int64 i = to_float64 (of_int (sint i))"

definition trunc :: "rat \<Rightarrow> int" where
  "trunc x = (if 0 \<le> x then \<lfloor>x\<rfloor> else \<lceil>x\<rceil>)"

definition int64_of_float64 :: "platform \<Rightarrow> float64 \<Rightarrow> int64" where
  "int64_of_float64 pf f =
     (case f of
        Fin x \<Rightarrow> (if - (2 ^ 63) \<le> trunc x \<and> trunc x < 2 ^ 63 then word_of_int (trunc x) else pf_to_int64 pf f)
      | _ \<Rightarrow> pf_to_int64 pf f)"

text \<open>\<open>math.Pow(0.5, y)\<close> for \<open>y \<ge> 0\<close> lies between 0 and 1, and is 0 at infinity.\<close>

definition pow_half_ok :: "platform \<Rightarrow> bool" where
  "pow_half_ok pf \<longleftrightarrow> pf_pow_half pf PInf = Fin 0 \<and>
     (\<forall>y. 0 \<le> y \<longrightarrow> (\<exists>p. pf_pow_half pf (Fin y) = Fin p \<and> 0 \<le> p \<and> p \<le> 1))"

lemma to_float64_fin:
  assumes "0 \<le> x" "x \<le> 2 ^ 1000"
  shows "to_float64 x = Fin (rnd x)"
proof -
  have "rnd x \<le> rnd (2 powi 1000)" using assms(2) by (intro rnd_mono) simp
  also have "\<dots> = 2 powi 1000" by (rule rnd_pow2) simp
  finally have "rnd x \<le> 2 ^ 1000" by simp
  moreover have "(2::rat) ^ 1000 < 2 ^ 1024" by (rule power_strict_increasing) auto
  moreover have "0 \<le> rnd x" using assms(1) by (rule rnd_nonneg)
  moreover have "(0::rat) < 2 ^ 1024" by (rule zero_less_power) simp
  ultimately have "\<not> 2 ^ 1024 \<le> rnd x" "\<not> rnd x \<le> - (2 ^ 1024)" by linarith+
  thus ?thesis by (simp only: to_float64_def Let_def if_False)
qed

lemma to_float64_nat: "n \<le> 2 ^ 53 \<Longrightarrow> to_float64 (of_nat n) = Fin (of_nat n)"
proof -
  assume n: "n \<le> 2 ^ 53"
  have "(of_nat n :: rat) \<le> 2 ^ 53" using n by (metis of_nat_le_iff of_nat_numeral of_nat_power)
  also have "\<dots> \<le> 2 ^ 1000" by (rule power_increasing) auto
  finally show ?thesis using n by (simp add: to_float64_fin rnd_nat del: power_numeral)
qed

lemma float64_of_int64_exact:
  "0 \<le> sint i \<Longrightarrow> sint i \<le> 2 ^ 53 \<Longrightarrow> float64_of_int64 i = Fin (of_int (sint i))"
  using to_float64_nat [of "nat (sint i)"] by (simp add: float64_of_int64_def nat_le_iff)

section \<open>Signed division\<close>

text \<open>\<open>a / b\<close> on \<open>int64\<close> truncates towards zero and panics for zero.\<close>

definition sdiv64 :: "int64 \<Rightarrow> int64 \<Rightarrow> int64 res" where
  "sdiv64 a b = (if b = 0 then Inl (Panic ''integer divide by zero'') else Inr (word_of_int (sint a sdiv sint b)))"

definition quot64 :: "int64 \<Rightarrow> int \<Rightarrow> int64" where
  "quot64 a b = word_of_int (sint a sdiv b)"

definition rem64 :: "int64 \<Rightarrow> int \<Rightarrow> int64" where
  "rem64 a b = word_of_int (sint a smod b)"

section \<open>Time\<close>

text \<open>
  \<open>time.Unix(s, 0)\<close>: an instant is its number of seconds since year 1; its nanoseconds are 0.
  A duration is a number of nanoseconds.
\<close>

definition unixToInternal :: int64 where
  "unixToInternal = 62135596800"

definition Unix :: "int64 \<Rightarrow> int64" where
  "Unix s = s + unixToInternal"

definition Before :: "int64 \<Rightarrow> int64 \<Rightarrow> bool" where
  "Before t u \<longleftrightarrow> sint t < sint u"

definition Second :: int64 where
  "Second = 1000000000"

text \<open>The seconds of \<open>t.Add(d)\<close>, saturating, and its nanoseconds.\<close>

definition addSec :: "int64 \<Rightarrow> int64 \<Rightarrow> int64" where
  "addSec t d =
     (let sum = t + d in
      if (sint t < sint sum) = (0 < sint d) then sum
      else if 0 < sint d then word_of_int (2 ^ 63 - 1) else word_of_int (- (2 ^ 63 - 1)))"

definition TimeAdd :: "int64 \<Rightarrow> int64 \<Rightarrow> int64 \<times> int" where
  "TimeAdd t d =
     (let dsec = quot64 d 1000000000; nsec = sint (rem64 d 1000000000) in
      if nsec < 0 then (addSec t (dsec - 1), nsec + 1000000000) else (addSec t dsec, nsec))"

definition TimeSub :: "int64 \<Rightarrow> int64 \<Rightarrow> int64" where
  "TimeSub t u =
     (let d = (t - u) * Second in
      if TimeAdd u d = (t, 0) then d
      else if Before t u then word_of_int (- (2 ^ 63)) else word_of_int (2 ^ 63 - 1))"

text \<open>\<open>Duration.Hours\<close>\<close>

definition Hours :: "int64 \<Rightarrow> float64" where
  "Hours d =
     (let hour = quot64 d 3600000000000; nsec = rem64 d 3600000000000 in
      f_add (float64_of_int64 hour) (f_div (float64_of_int64 nsec) (Fin 3600000000000)))"

lemma sint_int64: "- (2 ^ 63) \<le> sint (i :: int64)" "sint (i :: int64) < 2 ^ 63"
  using sint_ge [of i] sint_lt [of i] by simp_all

lemma sint_int64_of_int: "- (2 ^ 63) \<le> i \<Longrightarrow> i < 2 ^ 63 \<Longrightarrow> sint (word_of_int i :: int64) = i"
  using signed_take_bit_int_eq_self [of 63 i] by (simp add: signed_of_int)

lemma sint_plus64_over: "2 ^ 63 \<le> sint a + sint b \<Longrightarrow> sint (a + b :: int64) = sint a + sint b - 2 ^ 64"
proof -
  assume "2 ^ 63 \<le> sint a + sint b"
  hence "- (2 ^ 63) \<le> sint a + sint b - 2 ^ 64" by simp
  moreover have "a + b = word_of_int (sint a + sint b - 2 ^ 64)" by (simp add: of_int_add of_int_diff)
  moreover have "sint a + sint b - 2 ^ 64 < 2 ^ 63" using sint_int64 [of a] sint_int64 [of b] by simp
  ultimately show ?thesis by (simp only: sint_int64_of_int)
qed

lemma uint_eq_sint64: "0 \<le> sint x \<Longrightarrow> uint (x :: int64) = sint x"
  using sint_int64 [of x] by (simp add: uint_sint take_bit_int_eq_self)

lemma sint_eq_uint64: "uint (x :: int64) < 2 ^ 63 \<Longrightarrow> sint x = uint x"
  using sint_int64_of_int [of "uint x"] by (simp add: order_trans [OF _ uint_ge_0])

lemma sint_plus64: "- (2 ^ 63) \<le> sint a + sint b \<Longrightarrow> sint a + sint b < 2 ^ 63 \<Longrightarrow> sint (a + b :: int64) = sint a + sint b"
  using sint_int64_of_int [of "sint a + sint b"] by (simp add: of_int_add)

text \<open>The difference of instants in order is exact until it saturates.\<close>

lemma TimeSub_forward:
  assumes "sint u \<le> sint t"
  shows "sint (TimeSub t u) = min ((sint t - sint u) * 1000000000) (2 ^ 63 - 1)"
proof (cases "(sint t - sint u) * 1000000000 < 2 ^ 63")
  case True
  define k where "k = sint t - sint u"
  have k: "0 \<le> k" "k * 1000000000 < 2 ^ 63" using assms True by (simp_all add: k_def)
  have "t - u = word_of_int k" by (simp add: k_def)
  hence d: "(t - u) * Second = word_of_int (k * 1000000000)" by (simp add: Second_def)
  have sd: "sint (word_of_int (k * 1000000000) :: int64) = k * 1000000000" by (rule sint_int64_of_int) (use k in simp_all)
  have "quot64 ((t - u) * Second) 1000000000 = word_of_int k" "rem64 ((t - u) * Second) 1000000000 = 0"
    unfolding d quot64_def rem64_def sd using k(1) by (auto simp: signed_divide_int_def signed_modulo_int_def sgn_if)
  moreover have "addSec u (word_of_int k) = t"
  proof -
    have "sint (word_of_int k :: int64) = k" using k by (intro sint_int64_of_int) auto
    moreover have "u + word_of_int k = t" by (simp add: k_def)
    ultimately show ?thesis using assms by (auto simp: addSec_def k_def)
  qed
  ultimately have "TimeSub t u = (t - u) * Second" by (simp add: TimeSub_def TimeAdd_def)
  with sd True show ?thesis unfolding d by (simp add: k_def)
next
  case False
  hence k: "9223372036 < sint t - sint u" by simp
  have "TimeAdd u d \<noteq> (t, 0)" for d
  proof
    assume add: "TimeAdd u d = (t, 0)"
    define q where "q = quot64 d 1000000000"
    have "\<bar>sint d sdiv 1000000000\<bar> \<le> 9223372036"
      using sint_int64 [of d] by (auto simp: signed_divide_int_def sgn_if abs_mult)
    hence q: "sint q \<le> 9223372036" by (simp add: q_def quot64_def sint_int64_of_int)
    have "\<bar>sint d smod 1000000000\<bar> < 1000000000"
      using sint_int64 [of d] by (simp add: signed_modulo_int_def abs_mult sgn_if)
    hence "- 1000000000 < sint (rem64 d 1000000000)" by (simp add: rem64_def sint_int64_of_int)
    with add have "addSec u q = t" by (auto simp: TimeAdd_def Let_def q_def split: if_splits)
    with q k show False using sint_plus64 [of u q] sint_plus64_over [of u q] sint_int64 [of u] sint_int64 [of t]
      by (auto simp: addSec_def Let_def sint_int64_of_int split: if_splits)
  qed
  with False assms show ?thesis by (simp add: TimeSub_def Let_def Before_def sint_int64_of_int)
qed

end
