(* ===== verification/Credit.thy ===== *)
theory Credit
  imports Go_Num Wire_Types
begin

text \<open>
  The package \<open>credit/\<close>: the drip allowance, the decay of old credit, the diversity weighting, the
  per-peer caps, the effective balance built from them, and the checkpoints that record it.
  A list of record pointers may contain nil; functions that read the fields of a record directly
  panic on it.
\<close>

section \<open>Parameters\<close>

definition MB :: int64 where
  "MB = 1024 * 1024"

record CreditParams =
  DripRate :: int64
  MaxBalance :: int64
  WindowSize :: int32
  HalfLifeSeconds :: int64
  PerPeerCap :: int64
  EpochSeconds :: int64

definition DefaultParams :: CreditParams where
  "DefaultParams = \<lparr>DripRate = 2 * MB, MaxBalance = 50 * MB, WindowSize = 50, HalfLifeSeconds = 7776000,
     PerPeerCap = 500 * MB, EpochSeconds = 604800\<rparr>"

definition Validate :: "CreditParams \<Rightarrow> unit res" where
  "Validate c =
     (if sint (DripRate c) < 0 then fail ''DripRate cannot be negative''
      else if sint (MaxBalance c) < 0 then fail ''MaxBalance cannot be negative''
      else if sint (WindowSize c) < 0 then fail ''DiversityWindow cannot be negative''
      else if sint (HalfLifeSeconds c) \<le> 0 then fail ''HalfLife cannot be negative''
      else if sint (PerPeerCap c) < 0 then fail ''PerPeerCap cannot be negative''
      else if sint (EpochSeconds c) \<le> 0 then fail ''EpochLen cannot be negative''
      else Inr ())"

section \<open>Drip and decay\<close>

definition ComputeDripAllowance :: "platform \<Rightarrow> int64 \<Rightarrow> int64 \<Rightarrow> CreditParams \<Rightarrow> int64" where
  "ComputeDripAllowance pf createdAt now params =
     (if Before now createdAt then 0
      else let days = f_div (Hours (TimeSub now createdAt)) (Fin 24);
               drip = f_mul days (float64_of_int64 (DripRate params));
               drip = (if f_less (float64_of_int64 (MaxBalance params)) drip
                       then float64_of_int64 (MaxBalance params) else drip)
           in if f_less drip (Fin 0) then 0 else int64_of_float64 pf drip)"

definition DecayFactor :: "platform \<Rightarrow> int64 \<Rightarrow> int64 \<Rightarrow> int64 \<Rightarrow> float64" where
  "DecayFactor pf interactionTime now halfLife =
     (if Before now interactionTime then Fin 1
      else let age = TimeSub now interactionTime;
               exponent = f_div (float64_of_int64 age) (float64_of_int64 halfLife)
           in pf_pow_half pf exponent)"

definition DecayedValue :: "platform \<Rightarrow> int64 \<Rightarrow> int64 \<Rightarrow> int64 \<Rightarrow> int64 \<Rightarrow> int64" where
  "DecayedValue pf rawBytes interactionTime now halfLife =
     (let factor = DecayFactor pf interactionTime now halfLife
      in int64_of_float64 pf (f_mul (float64_of_int64 rawBytes) factor))"

section \<open>Diversity weighting\<close>

text \<open>\<open>for _, r := range records\<close> with a field access: the records, or a panic on nil.\<close>

primrec deref_all :: "'a option list \<Rightarrow> 'a list res" where
  "deref_all [] = Inr []"
| "deref_all (p # ps) = (case p of None \<Rightarrow> nil_deref | Some x \<Rightarrow> res_bind (deref_all ps) (\<lambda>xs. Inr (x # xs)))"

definition countPeers :: "slice \<Rightarrow> ShareRecord list \<Rightarrow> byte list \<Rightarrow> nat" where
  "countPeers dev records =
     fold (\<lambda>r counts. if bytes_Equal (sr_SenderPubkey r) dev
        then counts(bs (sr_ReceiverPubkey r) := counts (bs (sr_ReceiverPubkey r)) + 1) else counts)
      records (\<lambda>_. 0)"

fun diversityLoop :: "slice \<Rightarrow> (byte list \<Rightarrow> nat) \<Rightarrow> int64 \<Rightarrow> ShareRecord list \<Rightarrow> int64 res" where
  "diversityLoop dev counts acc [] = Inr acc"
| "diversityLoop dev counts acc (r # rs) =
     (if bytes_Equal (sr_SenderPubkey r) dev
      then res_bind (sdiv64 (sr_BytesTotal r) (of_nat (counts (bs (sr_ReceiverPubkey r))))) (\<lambda>q.
             diversityLoop dev counts (acc + q) rs)
      else diversityLoop dev counts acc rs)"

text \<open>\<open>records[len(records)-int(windowSize):]\<close> when there are more records than the window.\<close>

definition window :: "int32 \<Rightarrow> 'a list \<Rightarrow> 'a list res" where
  "window windowSize records =
     (if sint windowSize < sint (of_nat (length records) :: int32)
      then let lo = int (length records) - sint windowSize in
        if lo < 0 \<or> int (length records) < lo then Inl (Panic ''slice bounds out of range'')
        else Inr (drop (nat lo) records)
      else Inr records)"

definition DiversityWeightedCredit :: "ShareRecord option list \<Rightarrow> slice \<Rightarrow> int32 \<Rightarrow> int64 res" where
  "DiversityWeightedCredit records devicePubKey windowSize =
     res_bind (window windowSize records) (\<lambda>records.
     res_bind (deref_all records) (\<lambda>rs.
     diversityLoop devicePubKey (countPeers devicePubKey rs) 0 rs))"

section \<open>Per-peer caps\<close>

type_synonym PeerEpoch = "byte list \<times> int64"

text \<open>\<open>totals[key] += v\<close> on a map whose entries are kept in some order.\<close>

fun add_total :: "PeerEpoch \<Rightarrow> int64 \<Rightarrow> (PeerEpoch \<times> int64) list \<Rightarrow> (PeerEpoch \<times> int64) list" where
  "add_total key v [] = [(key, v)]"
| "add_total key v ((k, t) # ts) = (if k = key then (k, t + v) # ts else (k, t) # add_total key v ts)"

fun capTotals :: "slice \<Rightarrow> int64 \<Rightarrow> (PeerEpoch \<times> int64) list \<Rightarrow> ShareRecord list \<Rightarrow> (PeerEpoch \<times> int64) list res" where
  "capTotals dev epochSeconds totals [] = Inr totals"
| "capTotals dev epochSeconds totals (r # rs) =
     (if bytes_Equal (sr_SenderPubkey r) dev
      then res_bind (sdiv64 (sr_Timestamp r) epochSeconds) (\<lambda>epoch.
             capTotals dev epochSeconds (add_total (bs (sr_ReceiverPubkey r), epoch) (sr_BytesTotal r) totals) rs)
      else capTotals dev epochSeconds totals rs)"

definition capSum :: "int64 \<Rightarrow> (PeerEpoch \<times> int64) list \<Rightarrow> int64" where
  "capSum cap totals = fold (\<lambda>(k, rawBytes) total.
     total + (if sint cap < sint rawBytes then cap else rawBytes)) totals 0"

text \<open>The order in which Go iterates over the map is the parameter \<open>order\<close>.\<close>

definition ApplyPerPeerCaps ::
  "((PeerEpoch \<times> int64) list \<Rightarrow> (PeerEpoch \<times> int64) list) \<Rightarrow> ShareRecord option list \<Rightarrow> slice \<Rightarrow> CreditParams \<Rightarrow> int64 res" where
  "ApplyPerPeerCaps order records devicePubKey params =
     res_bind (deref_all records) (\<lambda>rs.
     res_bind (capTotals devicePubKey (EpochSeconds params) [] rs) (\<lambda>totals.
     Inr (capSum (PerPeerCap params) (order totals))))"

section \<open>Effective balance\<close>

definition sumReceived :: "slice \<Rightarrow> ShareRecord list \<Rightarrow> int64" where
  "sumReceived dev rs = fold (\<lambda>r acc. if bytes_Equal (sr_ReceiverPubkey r) dev then acc + sr_BytesTotal r else acc) rs 0"

definition sumCredits :: "platform \<Rightarrow> slice \<Rightarrow> int64 \<Rightarrow> CreditParams \<Rightarrow> ShareRecord list \<Rightarrow> int64 \<times> int64" where
  "sumCredits pf dev now params rs =
     fold (\<lambda>r (rawCredit, decayedCredit).
       if bytes_Equal (sr_SenderPubkey r) dev
       then let raw = sr_BytesTotal r;
                decayed = DecayedValue pf raw (Unix (sr_Timestamp r)) (Unix now) (HalfLifeSeconds params * Second)
            in (rawCredit + raw, decayedCredit + decayed)
       else (rawCredit, decayedCredit)) rs (0, 0)"

definition ComputeEffectiveBalance ::
  "platform \<Rightarrow> ShareRecord option list \<Rightarrow> slice \<Rightarrow> int64 \<Rightarrow> int64 \<Rightarrow> CreditParams \<Rightarrow> int64 res" where
  "ComputeEffectiveBalance pf records devicePubKey deviceCreatedAt now params =
     (let dripAllowance = ComputeDripAllowance pf (Unix deviceCreatedAt) (Unix now) params in
      res_bind (DiversityWeightedCredit records devicePubKey (WindowSize params)) (\<lambda>diversityWeightedCredits.
      res_bind (deref_all records) (\<lambda>rs.
      let cumulativeReceived = sumReceived devicePubKey rs;
          (rawCredit, decayedCredit) = sumCredits pf devicePubKey now params rs;
          decayPenalty = rawCredit - decayedCredit
      in Inr (dripAllowance + diversityWeightedCredits - cumulativeReceived - decayPenalty))))"

section \<open>Checkpoints\<close>

record CheckpointMetrics =
  WitnessCount :: nat
  ClusterCount :: nat
  FreshCount :: nat

definition recentPeers :: "slice \<Rightarrow> ShareRecord option list \<Rightarrow> byte list set" where
  "recentPeers devicePubKey records =
     fold (\<lambda>r acc. case r of None \<Rightarrow> acc
        | Some r \<Rightarrow> if bytes_Equal (sr_SenderPubkey r) devicePubKey then insert (bs (sr_ReceiverPubkey r)) acc
            else if bytes_Equal (sr_ReceiverPubkey r) devicePubKey then insert (bs (sr_SenderPubkey r)) acc
            else acc) records {}"

definition checkpointMetrics :: "CheckpointWitness option list \<Rightarrow> ShareRecord option list \<Rightarrow> slice \<Rightarrow> CheckpointMetrics" where
  "checkpointMetrics witnesses recentRecords devicePubKey =
     (let recent = recentPeers devicePubKey recentRecords;
          (metrics, seenClusters) =
            fold (\<lambda>w (metrics, seen). case w of None \<Rightarrow> (metrics, seen)
              | Some w \<Rightarrow>
                  let metrics = metrics\<lparr>WitnessCount := WitnessCount metrics + 1\<rparr>;
                      seen = (if cw_EncounterCluster w \<noteq> [] then insert (cw_EncounterCluster w) seen else seen);
                      metrics = (if bs (cw_WitnessPubkey w) \<notin> recent
                        then metrics\<lparr>FreshCount := FreshCount metrics + 1\<rparr> else metrics)
                  in (metrics, seen))
             witnesses (\<lparr>WitnessCount = 0, ClusterCount = 0, FreshCount = 0\<rparr>, {})
      in metrics\<lparr>ClusterCount := card seenClusters\<rparr>)"

text \<open>The chain head, index and totals of the last record the device takes part in; nil records are skipped.\<close>

definition chainState :: "slice \<Rightarrow> ShareRecord option list \<Rightarrow> slice \<times> uint64 \<times> uint64 \<times> uint64" where
  "chainState dev records =
     fold (\<lambda>r st. case r of None \<Rightarrow> st
       | Some r \<Rightarrow>
           if bytes_Equal (sr_SenderPubkey r) dev
           then (sr_Id r, sr_SenderRecordIndex r, getp 0 ct_CumulativeSent (sr_SenderTotals r),
                 getp 0 ct_CumulativeReceived (sr_SenderTotals r))
           else if bytes_Equal (sr_ReceiverPubkey r) dev
           then (sr_Id r, sr_ReceiverRecordIndex r, getp 0 ct_CumulativeSent (sr_ReceiverTotals r),
                 getp 0 ct_CumulativeReceived (sr_ReceiverTotals r))
           else st) records (None, 0, 0, 0)"

definition ComputeCheckpoint ::
  "platform \<Rightarrow> ShareRecord option list \<Rightarrow> slice \<Rightarrow> int64 \<Rightarrow> CreditParams \<Rightarrow> CheckpointWitness option list \<Rightarrow>
   (Checkpoint \<times> CheckpointMetrics) res" where
  "ComputeCheckpoint pf records devicePubKey now params witnesses =
     (let (chainHead, recordIndex, cumulativeSent, cumulativeReceived) = chainState devicePubKey records in
      res_bind (ComputeEffectiveBalance pf records devicePubKey now now params) (\<lambda>effective.
      let metrics = checkpointMetrics witnesses records devicePubKey;
          confidence = (if 5 \<le> WitnessCount metrics \<and> 3 \<le> ClusterCount metrics \<and> 2 \<le> FreshCount metrics
            then CONFIDENCE_HIGH else CONFIDENCE_LOW);
          cp = \<lparr>cp_DevicePubkey = devicePubKey, cp_ChainHead = chainHead, cp_RecordIndex = recordIndex,
                cp_Totals = Some \<lparr>ct_CumulativeSent = cumulativeSent, ct_CumulativeReceived = cumulativeReceived\<rparr>,
                cp_RawBalance = effective, cp_Timestamp = now, cp_DeviceSig = None, cp_Witnesses = witnesses,
                cp_Confidence = confidence\<rparr>
      in Inr (cp, metrics)))"

definition ShouldCheckpoint :: "int64 \<Rightarrow> int64 \<Rightarrow> int \<Rightarrow> int \<Rightarrow> bool" where
  "ShouldCheckpoint lastCheckpointAt latestRecordTime recordsSince interval =
     (let interval = (if interval \<le> 0 then 100 else interval) in
      if interval \<le> recordsSince then True
      else if 0 < sint latestRecordTime \<and> 0 < sint lastCheckpointAt
      then 24 * 3600 * 1000000000 \<le> sint (TimeSub (Unix latestRecordTime) (Unix lastCheckpointAt))
      else False)"

end
