(* ===== verification/Credit_Props.thy ===== *)
theory Credit_Props
  imports Credit "HOL-Library.Multiset"
begin

text \<open>
  Properties of the credit arithmetic: the allowance grows with age and never exceeds the maximum
  balance, decay never adds credit, repeated transfers to one peer earn at most the largest of
  them, the caps hold per peer and epoch, and what a checkpoint records.
\<close>

section \<open>Loops over records\<close>

lemma deref_all_eq_Inr: "deref_all ps = Inr xs \<longleftrightarrow> ps = map Some xs"
  by (induction ps arbitrary: xs) (auto simp: res_bind_eq_Inr split: option.splits)

lemma deref_all_Some [simp]: "deref_all (map Some xs) = Inr xs"
  by (simp add: deref_all_eq_Inr)

lemma deref_all_nil: "None \<in> set ps \<Longrightarrow> is_panic (deref_all ps)"
  by (induction ps) (auto simp: is_panic_res_bind split: option.splits)

lemma window_eq:
  assumes "length xs < 2 ^ 31" and "0 \<le> sint ws"
  shows "window ws xs = Inr (drop (length xs - nat (sint ws)) xs)"
proof -
  have "sint (of_nat (length xs) :: int32) = int (length xs)"
    using assms(1) by (simp add: signed_of_nat signed_take_bit_int_eq_self)
  with assms(2) show ?thesis by (auto simp: window_def nat_diff_distrib')
qed

text \<open>The records a device sent, and the peers it sent to.\<close>

definition sent_by :: "slice \<Rightarrow> ShareRecord list \<Rightarrow> ShareRecord list" where
  "sent_by dev rs = filter (\<lambda>r. bytes_Equal (sr_SenderPubkey r) dev) rs"

definition peer_of :: "ShareRecord \<Rightarrow> byte list" where
  "peer_of r = bs (sr_ReceiverPubkey r)"

definition sent_to :: "byte list \<Rightarrow> ShareRecord list \<Rightarrow> ShareRecord list" where
  "sent_to p rs = filter (\<lambda>r. peer_of r = p) rs"

lemma countPeers_eq: "countPeers dev rs p = length (sent_to p (sent_by dev rs))"
proof -
  have "fold (\<lambda>r counts. if bytes_Equal (sr_SenderPubkey r) dev
        then counts(bs (sr_ReceiverPubkey r) := counts (bs (sr_ReceiverPubkey r)) + 1) else counts) rs c p
      = c p + length (sent_to p (sent_by dev rs))" for c
    by (induction rs arbitrary: c) (auto simp: sent_to_def sent_by_def peer_of_def)
  thus ?thesis by (simp add: countPeers_def)
qed

lemma sum_list_group:
  fixes f :: "'a \<Rightarrow> int"
  assumes "finite P" "k ` set rs \<subseteq> P"
  shows "(\<Sum>r\<leftarrow>rs. f r) = (\<Sum>p\<in>P. \<Sum>r\<leftarrow>filter (\<lambda>r. k r = p) rs. f r)"
  using assms(2)
proof (induction rs)
  case (Cons r rs)
  have "(\<Sum>p\<in>P. \<Sum>x\<leftarrow>filter (\<lambda>x. k x = p) (r # rs). f x)
      = (\<Sum>p\<in>P. (if k r = p then f r else 0) + (\<Sum>x\<leftarrow>filter (\<lambda>x. k x = p) rs. f x))"
    by (rule sum.cong) auto
  also have "\<dots> = f r + (\<Sum>p\<in>P. \<Sum>x\<leftarrow>filter (\<lambda>x. k x = p) rs. f x)"
    using Cons.prems assms(1) by (simp add: sum.distrib)
  finally show ?case using Cons by simp
qed simp

lemma sum_list_const_bound:
  fixes f :: "'a \<Rightarrow> int"
  assumes "\<forall>r\<in>set rs. f r \<le> b"
  shows "(\<Sum>r\<leftarrow>rs. f r) \<le> int (length rs) * b"
  using assms by (induction rs) (auto simp: algebra_simps)

section \<open>Diversity\<close>

lemma diversityLoop_eq:
  assumes "\<forall>r\<in>set (sent_by dev rs). 0 < counts (peer_of r) \<and> counts (peer_of r) < 2 ^ 31 \<and> 0 \<le> sint (sr_BytesTotal r)"
  shows "diversityLoop dev counts acc rs =
    Inr (acc + word_of_int (\<Sum>r\<leftarrow>sent_by dev rs. uint (sr_BytesTotal r) div int (counts (peer_of r))))"
  using assms
proof (induction rs arbitrary: acc)
  case (Cons r rs)
  show ?case
  proof (cases "bytes_Equal (sr_SenderPubkey r) dev")
    case True
    let ?c = "counts (peer_of r)"
    have c: "0 < ?c" "?c < 2 ^ 31" "0 \<le> sint (sr_BytesTotal r)" using Cons.prems True by (auto simp: sent_by_def)
    hence "sint (of_nat ?c :: int64) = int ?c" by (simp add: signed_of_nat signed_take_bit_int_eq_self)
    moreover from this c have "(of_nat ?c :: int64) \<noteq> 0" by (metis of_nat_0_less_iff signed_0 less_irrefl)
    moreover have "sint (sr_BytesTotal r) = uint (sr_BytesTotal r)" using c(3) by (simp add: uint_eq_sint64)
    ultimately have "sdiv64 (sr_BytesTotal r) (of_nat ?c) = Inr (word_of_int (uint (sr_BytesTotal r) div int ?c))"
      using c by (auto simp: sdiv64_def signed_divide_int_def sgn_if)
    with Cons True show ?thesis by (simp add: sent_by_def peer_of_def of_int_add add.assoc)
  qed (use Cons in \<open>simp add: sent_by_def\<close>)
qed (simp add: sent_by_def)

lemma credit_per_peer_le:
  assumes "\<forall>r\<in>set g. f r \<le> b" and "0 \<le> (b::int)"
  shows "(\<Sum>r\<leftarrow>g. f r div int (length g)) \<le> b"
proof (cases "g = []")
  case False
  have "(\<Sum>r\<leftarrow>g. f r div int (length g)) \<le> int (length g) * (b div int (length g))"
    using assms(1) False by (intro sum_list_const_bound) (auto intro: zdiv_mono1)
  also have "\<dots> \<le> b" 
  proof -
    have "0 < int (length g)" using False by simp
    from pos_mod_sign [OF this, of b] mult_div_mod_eq [of "int (length g)" b] show ?thesis by linarith
  qed
  finally show ?thesis .
qed (simp add: assms(2))

lemma DiversityWeightedCredit_value:
  assumes "length rs < 2 ^ 31" and "0 \<le> sint ws"
    and "sent = sent_by dev (drop (length rs - nat (sint ws)) rs)" and nn: "\<forall>r\<in>set sent. 0 \<le> sint (sr_BytesTotal r)"
  shows "DiversityWeightedCredit (map Some rs) dev ws =
    Inr (word_of_int (\<Sum>r\<leftarrow>sent. uint (sr_BytesTotal r) div int (length (sent_to (peer_of r) sent))))"
proof -
  define W where "W = drop (length rs - nat (sint ws)) rs"
  have sent: "sent = sent_by dev W" using assms(3) by (simp add: W_def)
  have "0 < countPeers dev W (peer_of r) \<and> countPeers dev W (peer_of r) < 2 ^ 31 \<and> 0 \<le> sint (sr_BytesTotal r)"
    if "r \<in> set sent" for r
  proof -
    have "length (sent_to (peer_of r) sent) \<le> length rs"
      unfolding sent_to_def sent W_def sent_by_def
      by (rule order_trans [OF length_filter_le], rule order_trans [OF length_filter_le]) simp
    moreover have "r \<in> set (sent_to (peer_of r) sent)" using that by (simp add: sent_to_def)
    ultimately show ?thesis using assms(1) nn that by (auto simp: countPeers_eq sent [symmetric])
  qed
  thus ?thesis
    using window_eq [of "map Some rs" ws] assms(1,2) diversityLoop_eq [of dev W "countPeers dev W" 0]
    by (simp add: DiversityWeightedCredit_def drop_map W_def [symmetric] sent [symmetric] countPeers_eq)
qed

text \<open>
  C21. The diversity-weighted credit is computed from the last \<open>windowSize\<close> records only; it is the
  sum of each sent record's bytes divided by the number of records to the same peer, so it is at
  most the largest record times the number of distinct peers: sending to one peer again and
  again earns no more than one large transfer.
\<close>

theorem diversity_credit_bound:
  fixes b :: nat
  assumes "length rs < 2 ^ 31" and "0 \<le> sint ws"
    and "sent = sent_by dev (drop (length rs - nat (sint ws)) rs)"
    and "\<forall>r\<in>set sent. unat (sr_BytesTotal r) \<le> b" and "b * card (peer_of ` set sent) < 2 ^ 63"
  shows "\<exists>c. DiversityWeightedCredit (map Some rs) dev ws = Inr c \<and>
    sint c = (\<Sum>r\<leftarrow>sent. uint (sr_BytesTotal r) div int (length (sent_to (peer_of r) sent))) \<and>
    0 \<le> sint c \<and> sint c \<le> int (b * card (peer_of ` set sent))"
proof -
  let ?S = "\<Sum>r\<leftarrow>sent. uint (sr_BytesTotal r) div int (length (sent_to (peer_of r) sent))"
  have uint: "uint (sr_BytesTotal r) \<le> int b" if "r \<in> set sent" for r
    using assms(4) that by (metis int_nat_eq nat_le_iff of_nat_le_iff unat_eq_nat_uint zero_le_imp_eq_int uint_ge_0 int_eq_iff)
  have "?S = (\<Sum>p\<in>peer_of ` set sent. \<Sum>r\<leftarrow>sent_to p sent. uint (sr_BytesTotal r) div int (length (sent_to p sent)))"
    by (subst sum_list_group [where k = peer_of and P = "peer_of ` set sent" and rs = sent])
      (auto simp: sent_to_def intro!: sum.cong arg_cong [where f = sum_list])
  also have "\<dots> \<le> (\<Sum>p\<in>peer_of ` set sent. int b)"
    using uint by (intro sum_mono credit_per_peer_le) (auto simp: sent_to_def)
  finally have le: "?S \<le> int (b * card (peer_of ` set sent))" by (simp add: mult.commute)
  have B: "int (b * card (peer_of ` set sent)) < 2 ^ 63"
    using assms(5) by (metis of_nat_less_iff of_nat_numeral of_nat_power)
  have ge: "0 \<le> ?S" by (intro sum_list_nonneg) (auto simp: pos_imp_zdiv_nonneg_iff div_int_pos_iff)
  have "0 \<le> sint (sr_BytesTotal r)" if "r \<in> set sent" for r
  proof -
    have "1 \<le> card (peer_of ` set sent)" using that by (auto simp: Suc_le_eq card_gt_0_iff)
    hence "b \<le> b * card (peer_of ` set sent)" by simp
    hence "int b \<le> int (b * card (peer_of ` set sent))" by (simp only: of_nat_le_iff)
    hence "uint (sr_BytesTotal r) < 2 ^ 63" using uint [OF that] B by linarith
    thus ?thesis by (simp add: sint_eq_uint64)
  qed
  hence "DiversityWeightedCredit (map Some rs) dev ws = Inr (word_of_int ?S)"
    by (intro DiversityWeightedCredit_value [OF assms(1-3)]) blast
  moreover have "sint (word_of_int ?S :: int64) = ?S"
    using ge le B by (intro sint_int64_of_int) linarith+
  ultimately show ?thesis using ge le by auto
qed

definition demo_sent :: "byte \<Rightarrow> uint64 \<Rightarrow> int64 \<Rightarrow> ShareRecord" where
  "demo_sent peer bytes t =
     \<lparr>sr_Id = Some [peer], sr_SenderPubkey = Some [1], sr_ReceiverPubkey = Some [peer], sr_PrevSender = None,
      sr_PrevReceiver = None, sr_SenderRecordIndex = 1, sr_ReceiverRecordIndex = 1, sr_SenderTotals = None,
      sr_ReceiverTotals = None, sr_RequestHash = None, sr_ChunkHashes = [], sr_BytesTotal = bytes, sr_Timestamp = t,
      sr_SenderSig = None, sr_ReceiverSig = None, sr_FileHash = None, sr_Visibility = 0\<rparr>"

theorem diversity_credit_bound_witness:
  "\<exists>c. DiversityWeightedCredit (map Some [demo_sent 2 100 5, demo_sent 2 60 6]) (Some [1]) 50 = Inr c \<and> sint c = 80"
proof -
  let ?rs = "[demo_sent 2 100 5, demo_sent 2 60 6]"
  have sent: "sent_by (Some [1]) ?rs = ?rs" by (simp add: sent_by_def demo_sent_def)
  have "\<exists>c. DiversityWeightedCredit (map Some ?rs) (Some [1]) 50 = Inr c \<and>
    sint c = (\<Sum>r\<leftarrow>?rs. uint (sr_BytesTotal r) div int (length (sent_to (peer_of r) ?rs))) \<and>
    0 \<le> sint c \<and> sint c \<le> int (100 * card (peer_of ` set ?rs))"
    by (rule diversity_credit_bound) (simp_all add: sent, simp_all add: demo_sent_def peer_of_def)
  thus ?thesis by (auto simp: demo_sent_def peer_of_def sent_to_def)
qed

section \<open>Drip\<close>

declare of_int_sint [simp del]

text \<open>The hours of a non-negative number of nanoseconds, and the drip, as rationals.\<close>

definition hoursQ :: "int \<Rightarrow> rat" where
  "hoursQ d = rnd (of_int (d div 3600000000000) + rnd (of_int (d mod 3600000000000) / 3600000000000))"

definition dripQ :: "rat \<Rightarrow> int \<Rightarrow> rat" where
  "dripQ rate d = rnd (rnd (hoursQ d / 24) * rate)"

lemma frac_hours: "0 \<le> rnd (of_int (d mod 3600000000000) / 3600000000000)"
  "rnd (of_int (d mod 3600000000000) / 3600000000000) \<le> 1"
proof -
  let ?x = "of_int (d mod 3600000000000) / 3600000000000 :: rat"
  have "rat_of_int (d mod 3600000000000) \<le> of_int 3600000000000"
    unfolding of_int_le_iff by (rule less_imp_le [OF pos_mod_bound]) simp
  hence "0 \<le> ?x" "?x \<le> 1" by simp_all
  thus "0 \<le> rnd ?x" "rnd ?x \<le> 1" using rnd_mono [of ?x 1] rnd_nat [of 1] by (simp_all add: rnd_nonneg)
qed

lemma hoursQ_mono: "d \<le> e \<Longrightarrow> hoursQ d \<le> hoursQ e"
proof -
  assume de: "d \<le> e"
  let ?f = "\<lambda>d. rat_of_int (d div 3600000000000) + rnd (of_int (d mod 3600000000000) / 3600000000000)"
  have "?f d \<le> ?f e"
  proof (cases "d div 3600000000000 = e div 3600000000000")
    case True
    with de have "d mod 3600000000000 \<le> e mod 3600000000000"
      by (metis add_le_cancel_left mult_div_mod_eq)
    with True show ?thesis by (auto intro!: rnd_mono divide_right_mono)
  next
    case False
    with de have "d div 3600000000000 + 1 \<le> e div 3600000000000" using zdiv_mono1 [OF de, of 3600000000000] by linarith
    hence "rat_of_int (d div 3600000000000) + 1 \<le> of_int (e div 3600000000000)" by (metis of_int_1 of_int_add of_int_le_iff)
    with frac_hours [of d] frac_hours [of e] show ?thesis by linarith
  qed
  thus ?thesis unfolding hoursQ_def by (rule rnd_mono)
qed

lemma hoursQ_bounds:
  assumes "0 \<le> d" "d < 2 ^ 63"
  shows "0 \<le> hoursQ d" "hoursQ d \<le> 2 ^ 22"
proof -
  have h: "0 \<le> d div 3600000000000" "d div 3600000000000 \<le> 2562047" using assms by auto
  hence h': "0 \<le> rat_of_int (d div 3600000000000)" "rat_of_int (d div 3600000000000) \<le> 2562047"
    by (simp, metis of_int_le_iff of_int_numeral)
  let ?x = "rat_of_int (d div 3600000000000) + rnd (of_int (d mod 3600000000000) / 3600000000000)"
  have x: "0 \<le> ?x" "?x \<le> 2 powi 22" using h' frac_hours [of d] by simp_all
  show "0 \<le> hoursQ d" unfolding hoursQ_def by (rule rnd_nonneg [OF x(1)])
  show "hoursQ d \<le> 2 ^ 22" unfolding hoursQ_def using rnd_mono [OF x(2)] rnd_pow2 [of 22] by simp
qed

lemma dripQ_mono: "0 \<le> rate \<Longrightarrow> d \<le> e \<Longrightarrow> dripQ rate d \<le> dripQ rate e"
  unfolding dripQ_def by (intro rnd_mono mult_right_mono divide_right_mono hoursQ_mono) auto

lemma dripQ_nonneg: "0 \<le> rate \<Longrightarrow> 0 \<le> d \<Longrightarrow> d < 2 ^ 63 \<Longrightarrow> 0 \<le> dripQ rate d"
  unfolding dripQ_def by (intro rnd_nonneg mult_nonneg_nonneg) (auto simp: hoursQ_bounds)

lemma rnd_le_pow2: "x \<le> 2 powi k \<Longrightarrow> - 1022 \<le> k \<Longrightarrow> rnd x \<le> 2 powi k"
  using rnd_mono [of x "2 powi k"] rnd_pow2 [of k] by simp

lemma le_2_1000: "k \<le> 1000 \<Longrightarrow> x \<le> 2 ^ k \<Longrightarrow> x \<le> (2::rat) ^ 1000"
  by (erule order_trans) (simp only: power_increasing one_le_numeral)

lemma Hours_eq:
  assumes "0 \<le> sint d"
  shows "Hours d = Fin (hoursQ (sint d))"
proof -
  have d: "sint d < 2 ^ 63" by (rule sint_int64)
  define h n where "h = sint d div 3600000000000" and "n = sint d mod 3600000000000"
  have b: "0 \<le> h" "h < 2 ^ 22" "0 \<le> n" "n < 3600000000000" using assms d by (auto simp: h_def n_def)
  have "quot64 d 3600000000000 = word_of_int h" "rem64 d 3600000000000 = word_of_int n"
    using assms by (simp_all add: quot64_def rem64_def signed_divide_int_def signed_modulo_int_def h_def n_def sgn_if)
  moreover have "sint (word_of_int h :: int64) = h" "sint (word_of_int n :: int64) = n"
    using b by (simp_all add: sint_int64_of_int)
  ultimately have "float64_of_int64 (quot64 d 3600000000000) = Fin (of_int h)"
    "float64_of_int64 (rem64 d 3600000000000) = Fin (of_int n)"
    using b by (simp_all add: float64_of_int64_exact)
  moreover have "to_float64 (of_int n / 3600000000000) = Fin (rnd (of_int n / 3600000000000))"
  proof (rule to_float64_fin)
    have "rat_of_int n \<le> of_int 3600000000000" using b unfolding of_int_le_iff by simp
    thus "rat_of_int n / 3600000000000 \<le> 2 ^ 1000" by (intro le_2_1000 [of 0]) simp_all
  qed (use b in simp)
  moreover have "to_float64 (of_int h + rnd (of_int n / 3600000000000)) = Fin (hoursQ (sint d))"
    unfolding hoursQ_def h_def [symmetric] n_def [symmetric]
  proof (rule to_float64_fin)
    have "rat_of_int h \<le> of_int (2 ^ 22)" using b unfolding of_int_le_iff by simp
    thus "rat_of_int h + rnd (of_int n / 3600000000000) \<le> 2 ^ 1000"
      using frac_hours [of "sint d"] by (intro le_2_1000 [of 23]) (simp_all add: n_def)
  qed (use b frac_hours [of "sint d"] in \<open>simp add: n_def\<close>)
  ultimately show ?thesis by (simp add: Hours_def)
qed

text \<open>The rate as a float, at most \<open>2\<^sup>6\<^sup>3\<close>.\<close>

lemma float64_of_rate:
  assumes "0 \<le> sint i"
  shows "float64_of_int64 i = Fin (rnd (of_int (sint i)))" "0 \<le> rnd (of_int (sint i))" "rnd (of_int (sint i)) \<le> 2 ^ 63"
proof -
  have "rat_of_int (sint i) \<le> of_int (2 ^ 63)" using sint_int64(2) [of i] unfolding of_int_le_iff by simp
  hence le: "rat_of_int (sint i) \<le> 2 powi 63" by simp
  thus "rnd (of_int (sint i)) \<le> 2 ^ 63" using rnd_le_pow2 [of _ 63] by simp
  show "float64_of_int64 i = Fin (rnd (of_int (sint i)))"
    unfolding float64_of_int64_def using assms le by (intro to_float64_fin le_2_1000 [of 63]) simp_all
  show "0 \<le> rnd (of_int (sint i))" using assms by (intro rnd_nonneg) simp
qed

lemma drip_float:
  assumes "0 \<le> sint d" "0 \<le> sint r"
  shows "f_mul (f_div (Hours d) (Fin 24)) (float64_of_int64 r) = Fin (dripQ (rnd (of_int (sint r))) (sint d))"
proof -
  have h: "0 \<le> hoursQ (sint d)" "hoursQ (sint d) \<le> 2 ^ 22"
    using hoursQ_bounds [OF assms(1) sint_int64(2)] by simp_all
  let ?days = "rnd (hoursQ (sint d) / 24)"
  have days: "0 \<le> ?days" "?days \<le> 2 ^ 22"
    using h rnd_le_pow2 [of "hoursQ (sint d) / 24" 22] by (simp_all add: rnd_nonneg)
  have "to_float64 (hoursQ (sint d) / 24) = Fin ?days"
    using h by (intro to_float64_fin le_2_1000 [of 22]) simp_all
  moreover have "to_float64 (?days * rnd (of_int (sint r))) = Fin (dripQ (rnd (of_int (sint r))) (sint d))"
    unfolding dripQ_def
  proof (intro to_float64_fin le_2_1000 [of 85])
    have "?days * rnd (of_int (sint r)) \<le> 2 ^ 22 * 2 ^ 63"
      using days float64_of_rate [OF assms(2)] by (intro mult_mono) auto
    thus "?days * rnd (of_int (sint r)) \<le> 2 ^ 85" by simp
  qed (use days float64_of_rate [OF assms(2)] in simp_all)
  ultimately show ?thesis using Hours_eq [OF assms(1)] float64_of_rate(1) [OF assms(2)] by simp
qed

lemma int64_of_float64_floor:
  "0 \<le> x \<Longrightarrow> x \<le> 2 ^ 53 \<Longrightarrow> sint (int64_of_float64 pf (Fin x)) = \<lfloor>x\<rfloor>"
proof -
  assume x: "0 \<le> x" "x \<le> 2 ^ 53"
  hence "\<lfloor>x\<rfloor> \<le> 2 ^ 53" "0 \<le> \<lfloor>x\<rfloor>" by (simp_all add: floor_le_iff)
  with x show ?thesis by (simp add: int64_of_float64_def trunc_def sint_int64_of_int)
qed

lemma drip_eq:
  assumes "sint c \<le> sint n" "0 \<le> sint (DripRate p)" "0 \<le> sint (MaxBalance p)" "sint (MaxBalance p) \<le> 2 ^ 53"
  shows "sint (ComputeDripAllowance pf c n p) =
    \<lfloor>min (of_int (sint (MaxBalance p))) (dripQ (rnd (of_int (sint (DripRate p)))) (min ((sint n - sint c) * 1000000000) (2 ^ 63 - 1)))\<rfloor>"
proof -
  let ?d = "sint (TimeSub n c)"
  have d: "?d = min ((sint n - sint c) * 1000000000) (2 ^ 63 - 1)" by (rule TimeSub_forward [OF assms(1)])
  hence d0: "0 \<le> ?d" using assms(1) by simp
  let ?x = "dripQ (rnd (of_int (sint (DripRate p)))) ?d"
  have x: "0 \<le> ?x" using float64_of_rate(2) [OF assms(2)] d0 sint_int64(2) by (intro dripQ_nonneg)
  have M: "rat_of_int (sint (MaxBalance p)) \<le> 2 ^ 53"
    using assms(4) by (metis of_int_le_iff of_int_numeral of_int_power)
  have "ComputeDripAllowance pf c n p = int64_of_float64 pf (Fin (min (of_int (sint (MaxBalance p))) ?x))"
    using assms x by (auto simp: ComputeDripAllowance_def Before_def drip_float [OF d0 assms(2)] float64_of_int64_exact Let_def min_def)
  thus ?thesis using M x assms(3) by (subst int64_of_float64_floor [symmetric, of _ pf]) (auto simp: d)
qed

lemma drip_range:
  assumes "Validate p = Inr ()" and "sint (MaxBalance p) \<le> 2 ^ 53"
  shows "0 \<le> sint (ComputeDripAllowance pf c n p) \<and> sint (ComputeDripAllowance pf c n p) \<le> sint (MaxBalance p)"
proof -
  have ok: "0 \<le> sint (DripRate p)" "0 \<le> sint (MaxBalance p)"
    using assms(1) by (auto simp: Validate_def split: if_splits)
  show ?thesis
  proof (cases "sint n < sint c")
    case True
    with ok show ?thesis by (simp add: ComputeDripAllowance_def Before_def)
  next
    case False
    have "0 \<le> dripQ (rnd (of_int (sint (DripRate p)))) (min ((sint n - sint c) * 1000000000) (2 ^ 63 - 1))"
      using False by (intro dripQ_nonneg float64_of_rate(2) ok) auto
    with False ok show ?thesis by (simp add: drip_eq [OF _ ok assms(2)] floor_le_iff min_def)
  qed
qed

text \<open>
  C22. The drip allowance of valid parameters is 0 before the device was created, never negative,
  never above the maximum balance, and never shrinks as time passes.
\<close>

theorem drip_allowance_bounded_monotone:
  assumes "Validate p = Inr ()" and "sint (MaxBalance p) \<le> 2 ^ 53"
  shows "0 \<le> sint (ComputeDripAllowance pf c n p) \<and> sint (ComputeDripAllowance pf c n p) \<le> sint (MaxBalance p) \<and>
    (sint n < sint c \<longrightarrow> ComputeDripAllowance pf c n p = 0) \<and>
    (sint n \<le> sint n' \<longrightarrow> sint (ComputeDripAllowance pf c n p) \<le> sint (ComputeDripAllowance pf c n' p))"
proof -
  have ok: "0 \<le> sint (DripRate p)" "0 \<le> sint (MaxBalance p)"
    using assms(1) by (auto simp: Validate_def split: if_splits)
  let ?A = "\<lambda>n. sint (ComputeDripAllowance pf c n p)"
  have early: "ComputeDripAllowance pf c n p = 0" if "sint n < sint c" for n
    using that by (simp add: ComputeDripAllowance_def Before_def)
  note eq = drip_eq [OF _ ok assms(2), of c _ pf]
  have bound: "0 \<le> ?A n \<and> ?A n \<le> sint (MaxBalance p)" for n
    by (rule drip_range [OF assms])
  moreover have "?A n \<le> ?A n'" if "sint n \<le> sint n'"
  proof (cases "sint n < sint c")
    case True
    with early bound show ?thesis by simp
  next
    case False
    with that have "dripQ (rnd (of_int (sint (DripRate p)))) (min ((sint n - sint c) * 1000000000) (2 ^ 63 - 1))
        \<le> dripQ (rnd (of_int (sint (DripRate p)))) (min ((sint n' - sint c) * 1000000000) (2 ^ 63 - 1))"
      by (intro dripQ_mono float64_of_rate(2) ok) auto
    with False that show ?thesis unfolding eq [of n, OF leI [OF False]]
      by (subst eq) (auto intro!: floor_mono min.mono)
  qed
  ultimately show ?thesis using early by blast
qed

theorem drip_allowance_bounded_monotone_witness:
  "sint (ComputeDripAllowance \<lparr>pf_to_int64 = (\<lambda>_. 0), pf_pow_half = (\<lambda>_. Fin 1)\<rparr> (Unix 1000) (Unix 2000) DefaultParams)
     \<le> 52428800"
  using drip_allowance_bounded_monotone [of DefaultParams "\<lparr>pf_to_int64 = (\<lambda>_. 0), pf_pow_half = (\<lambda>_. Fin 1)\<rparr>" "Unix 1000" "Unix 2000"]
  by (simp add: DefaultParams_def Validate_def MB_def)

section \<open>Decay\<close>

lemma DecayFactor_value:
  assumes "0 < sint hl" and "\<not> sint n < sint t"
  shows "DecayFactor pf t n hl = pf_pow_half pf (Fin (rnd (rnd (of_int (sint (TimeSub n t))) / rnd (of_int (sint hl)))))"
    and "0 \<le> rnd (rnd (of_int (sint (TimeSub n t))) / rnd (of_int (sint hl)))"
proof -
  let ?age = "rnd (of_int (sint (TimeSub n t)))" and ?hl = "rnd (of_int (sint hl))"
  have age: "0 \<le> sint (TimeSub n t)" using assms(2) TimeSub_forward [of t n] by simp
  have "rnd (of_nat 1) \<le> ?hl" using assms(1) by (intro rnd_mono) (simp add: of_int_1_le_iff)
  hence hl: "1 \<le> ?hl" using rnd_nat [of 1] by simp
  have "?age / ?hl \<le> ?age / 1" using hl float64_of_rate(2) [OF age] by (intro divide_left_mono) auto
  hence "?age / ?hl \<le> 2 ^ 63" using float64_of_rate(3) [OF age] by simp
  moreover have nn: "0 \<le> ?age / ?hl" using hl float64_of_rate(2) [OF age] by simp
  ultimately have "to_float64 (?age / ?hl) = Fin (rnd (?age / ?hl))" by (intro to_float64_fin le_2_1000 [of 63]) simp_all
  thus "DecayFactor pf t n hl = pf_pow_half pf (Fin (rnd (?age / ?hl)))"
    using assms hl float64_of_rate(1) [OF age] float64_of_rate(1) [of hl] by (simp add: DecayFactor_def Before_def)
  show "0 \<le> rnd (?age / ?hl)" using rnd_nonneg [OF nn] .
qed

lemma DecayFactor_range:
  assumes "pow_half_ok pf" "0 < sint hl"
  shows "\<exists>p. DecayFactor pf t n hl = Fin p \<and> 0 \<le> p \<and> p \<le> 1"
proof (cases "sint n < sint t")
  case False
  with DecayFactor_value [OF assms(2) False] assms(1) show ?thesis by (simp add: pow_half_ok_def)
qed (simp add: DecayFactor_def Before_def)

lemma sint_half_life:
  assumes "0 < sint hl" and "sint hl \<le> 9223372036"
  shows "sint (hl * Second) = sint hl * 1000000000"
proof -
  have "hl * Second = word_of_int (sint hl * 1000000000)" by (simp add: Second_def of_int_sint)
  moreover have "sint (word_of_int (sint hl * 1000000000) :: int64) = sint hl * 1000000000"
    by (rule sint_int64_of_int) (use assms in simp_all)
  ultimately show ?thesis by simp
qed

lemma DecayedValue_value:
  assumes "0 \<le> sint raw" and "sint raw \<le> 2 ^ 53" and "DecayFactor pf t n hl = Fin p" and "0 \<le> p" and "p \<le> 1"
  shows "sint (DecayedValue pf raw t n hl) = \<lfloor>rnd (of_int (sint raw) * p)\<rfloor> \<and>
    0 \<le> \<lfloor>rnd (of_int (sint raw) * p)\<rfloor> \<and> \<lfloor>rnd (of_int (sint raw) * p)\<rfloor> \<le> sint raw"
proof -
  let ?raw = "of_int (sint raw) :: rat"
  have r: "0 \<le> ?raw" "?raw \<le> 2 ^ 53" "rnd ?raw = ?raw"
    using assms(1,2) rnd_nat [of "nat (sint raw)"] by (simp, metis of_int_le_iff of_int_numeral of_int_power, simp add: nat_le_iff)
  have "?raw * p \<le> ?raw" using assms(4,5) r by (simp add: mult_left_le)
  hence x: "0 \<le> rnd (?raw * p)" "rnd (?raw * p) \<le> ?raw" "?raw * p \<le> 2 ^ 53"
    using rnd_mono [of "?raw * p" ?raw] r assms(4) by (simp_all add: rnd_nonneg)
  have "to_float64 (?raw * p) = Fin (rnd (?raw * p))"
    using r assms(4) x by (intro to_float64_fin le_2_1000 [of 53]) simp_all
  hence "sint (DecayedValue pf raw t n hl) = \<lfloor>rnd (?raw * p)\<rfloor>"
    using x r assms int64_of_float64_floor [of "rnd (?raw * p)" pf] by (simp add: DecayedValue_def float64_of_int64_exact)
  thus ?thesis using x by (simp add: floor_le_iff)
qed

lemma DecayedValue_range:
  assumes "pow_half_ok pf" and "0 \<le> sint raw" and "sint raw \<le> 2 ^ 53"
    and "0 < sint hl" and "sint hl \<le> 9223372036"
  shows "0 \<le> sint (DecayedValue pf raw t n (hl * Second)) \<and> sint (DecayedValue pf raw t n (hl * Second)) \<le> sint raw \<and>
    (sint n < sint t \<longrightarrow> DecayedValue pf raw t n (hl * Second) = raw)"
proof -
  obtain p where p: "DecayFactor pf t n (hl * Second) = Fin p" "0 \<le> p" "p \<le> 1"
    using DecayFactor_range [OF assms(1), of "hl * Second"] assms(4) sint_half_life [OF assms(4,5)] by auto
  note v = DecayedValue_value [OF assms(2,3) p]
  have "DecayedValue pf raw t n (hl * Second) = raw" if "sint n < sint t"
  proof -
    have "rnd (of_int (sint raw)) = of_int (sint raw)" using assms(2,3) rnd_nat [of "nat (sint raw)"] by (simp add: nat_le_iff)
    moreover from that p(1) have "p = 1" by (simp add: DecayFactor_def Before_def)
    ultimately have "sint (DecayedValue pf raw t n (hl * Second)) = sint raw" using v by simp
    thus ?thesis by (simp only: signed_word_eqI)
  qed
  with v show ?thesis by auto
qed

text \<open>
  Decay never creates credit: for amounts of at most \<open>2\<^sup>5\<^sup>3\<close> bytes the decayed value lies between
  0 and the raw value, and credit from the future (a clock that runs ahead) does not decay.  The
  half-life in nanoseconds must fit 64 bits, which \<open>Validate\<close> does not check.
\<close>

theorem decayed_value_bounded:
  assumes "pow_half_ok pf" and "0 \<le> sint raw" and "sint raw \<le> 2 ^ 53"
    and "0 < sint hl" and "sint hl \<le> 9223372036"
  shows "0 \<le> sint (DecayedValue pf raw t n (hl * Second)) \<and> sint (DecayedValue pf raw t n (hl * Second)) \<le> sint raw \<and>
    (sint n < sint t \<longrightarrow> DecayedValue pf raw t n (hl * Second) = raw)"
  using assms by (rule DecayedValue_range)

theorem decayed_value_bounded_witness:
  "sint (DecayedValue \<lparr>pf_to_int64 = (\<lambda>_. 0), pf_pow_half = (\<lambda>y. if y = Fin 0 then Fin 1 else Fin 0)\<rparr> 100 (Unix 5) (Unix 9)
     (7776000 * Second)) \<le> 100"
proof -
  let ?pf = "\<lparr>pf_to_int64 = (\<lambda>_. 0), pf_pow_half = (\<lambda>y. if y = Fin 0 then Fin 1 else Fin 0)\<rparr>"
  have "pow_half_ok ?pf" by (simp add: pow_half_ok_def)
  from decayed_value_bounded [OF this, of 100 7776000 "Unix 5" "Unix 9"] show ?thesis by simp
qed

declare of_int_sint [simp]

section \<open>Caps\<close>

definition epoch_key :: "int64 \<Rightarrow> ShareRecord \<Rightarrow> PeerEpoch" where
  "epoch_key es r = (peer_of r, word_of_int (sint (sr_Timestamp r) sdiv sint es))"

definition bytes_of :: "(ShareRecord \<Rightarrow> bool) \<Rightarrow> ShareRecord list \<Rightarrow> int" where
  "bytes_of P rs = (\<Sum>r\<leftarrow>filter P rs. uint (sr_BytesTotal r))"

lemma bytes_of_nonneg: "0 \<le> bytes_of P rs"
  by (auto simp: bytes_of_def intro: sum_list_nonneg)

lemma bytes_of_mono: "bytes_of P rs \<le> bytes_of (\<lambda>_. True) rs"
  by (induction rs) (auto simp: bytes_of_def intro: add_increasing)

lemma capTotals_eq:
  "es \<noteq> 0 \<Longrightarrow> capTotals dev es tot rs =
     Inr (fold (\<lambda>r. add_total (epoch_key es r) (sr_BytesTotal r)) (sent_by dev rs) tot)"
  by (induction rs arbitrary: tot) (auto simp: sent_by_def sdiv64_def epoch_key_def peer_of_def)

lemma add_total_keys: "fst ` set (add_total k v L) = insert k (fst ` set L)"
  by (induction k v L rule: add_total.induct) auto

lemma add_total_distinct: "distinct (map fst L) \<Longrightarrow> distinct (map fst (add_total k v L))"
  by (induction k v L rule: add_total.induct) (auto simp: add_total_keys)

lemma map_of_add_total:
  "map_of (add_total k v L) = (map_of L)(k \<mapsto> (case map_of L k of None \<Rightarrow> v | Some t \<Rightarrow> t + v))"
  by (induction k v L rule: add_total.induct) (auto simp: fun_eq_iff)

lemma bytes_of_snoc: "bytes_of P (rs @ [r]) = bytes_of P rs + (if P r then uint (sr_BytesTotal r) else 0)"
  by (simp add: bytes_of_def)

lemma bytes_of_none: "\<forall>r\<in>set rs. \<not> P r \<Longrightarrow> bytes_of P rs = 0"
  by (simp add: bytes_of_def filter_False)

definition totals_of :: "int64 \<Rightarrow> ShareRecord list \<Rightarrow> (PeerEpoch \<times> int64) list" where
  "totals_of es rs = fold (\<lambda>r. add_total (epoch_key es r) (sr_BytesTotal r)) rs []"

lemma totals_of_snoc: "totals_of es (rs @ [r]) = add_total (epoch_key es r) (sr_BytesTotal r) (totals_of es rs)"
  by (simp add: totals_of_def)

lemma totals_of_keys: "distinct (map fst (totals_of es rs)) \<and> fst ` set (totals_of es rs) = epoch_key es ` set rs"
  by (induction rs rule: rev_induct)
    (simp_all add: totals_of_snoc add_total_distinct add_total_keys, simp add: totals_of_def)

lemma map_of_totals_of:
  "map_of (totals_of es rs) k =
     (if k \<in> epoch_key es ` set rs then Some (word_of_int (bytes_of (\<lambda>r. epoch_key es r = k) rs)) else None)"
proof (induction rs rule: rev_induct)
  case (snoc r rs)
  have "bytes_of (\<lambda>x. epoch_key es x = k) rs = 0" if "k \<notin> epoch_key es ` set rs"
    by (rule bytes_of_none) (use that in blast)
  with snoc show ?case by (cases "epoch_key es r = k") (simp_all add: totals_of_snoc map_of_add_total bytes_of_snoc)
qed (simp add: totals_of_def)

lemma capSum_eq: "capSum cap L = (\<Sum>(k, v)\<leftarrow>L. if sint cap < sint v then cap else v)"
proof -
  have "fold (\<lambda>(k, v) t. t + (if sint cap < sint v then cap else v)) L acc
      = acc + (\<Sum>(k, v)\<leftarrow>L. if sint cap < sint v then cap else v)" for acc
    by (induction L arbitrary: acc) (auto simp: add.assoc split: prod.splits)
  thus ?thesis by (simp add: capSum_def)
qed

lemma capSum_perm: "mset L = mset L' \<Longrightarrow> capSum cap L = capSum cap L'"
  by (simp only: capSum_eq sum_mset_sum_list [symmetric] mset_map)

lemma word_of_int_sum: "word_of_int (\<Sum>x\<in>A. f x) = (\<Sum>x\<in>A. word_of_int (f x))"
  by (induction A rule: infinite_finite_induct) auto

text \<open>
  C23. The capped credit is the sum, over every pair of a peer and an epoch in which the device sent
  to it, of the bytes sent or the cap if they exceed it; it does not depend on the order in which
  Go iterates over the map, and it is at most the cap times the number of such pairs.
\<close>

theorem per_peer_caps_spec:
  assumes "Validate p = Inr ()" and "\<forall>l. mset (order l) = mset l" and "sent = sent_by dev rs"
    and "bytes_of (\<lambda>_. True) sent < 2 ^ 63" and "keys = epoch_key (EpochSeconds p) ` set sent"
  shows "\<exists>t. ApplyPerPeerCaps order (map Some rs) dev p = Inr t \<and>
    sint t = (\<Sum>k\<in>keys. min (sint (PerPeerCap p)) (bytes_of (\<lambda>r. epoch_key (EpochSeconds p) r = k) sent)) \<and>
    sint t \<le> sint (PerPeerCap p) * int (card keys)"
proof -
  let ?es = "EpochSeconds p" and ?cap = "PerPeerCap p"
  let ?b = "\<lambda>k. bytes_of (\<lambda>r. epoch_key ?es r = k) sent"
  have ok: "?es \<noteq> 0" "0 \<le> sint ?cap" using assms(1) by (auto simp: Validate_def split: if_splits)
  define L where "L = totals_of ?es sent"
  have table: "distinct (map fst L)" "fst ` set L = epoch_key ?es ` set sent"
    using totals_of_keys [of ?es sent] by (simp_all add: L_def)
  have b: "0 \<le> ?b k" "?b k < 2 ^ 63" for k
    using bytes_of_nonneg bytes_of_mono [of _ sent] assms(4) by (auto intro: le_less_trans)
  have entry: "v = word_of_int (?b k)" "k \<in> keys" if "(k, v) \<in> set L" for k v
    using that table(1) map_of_eq_Some_iff [of L k v] map_of_totals_of [of ?es sent k] assms(5) by (auto simp: L_def split: if_splits)
  have val: "(if sint ?cap < sint v then ?cap else v) = word_of_int (min (sint ?cap) (?b k))" if "(k, v) \<in> set L" for k v
    using entry(1) [OF that] sint_int64_of_int [of "?b k"] b [of k] by (cases "sint ?cap < ?b k") (auto simp: min_def)
  have "capSum ?cap L = (\<Sum>(k, v)\<in>set L. if sint ?cap < sint v then ?cap else v)"
    unfolding capSum_eq using table(1) by (simp add: distinct_map sum_list_distinct_conv_sum_set)
  also have "\<dots> = (\<Sum>e\<in>set L. word_of_int (min (sint ?cap) (?b (fst e))))"
    by (intro sum.cong) (auto simp: val)
  also have "\<dots> = (\<Sum>k\<in>fst ` set L. word_of_int (min (sint ?cap) (?b k)))"
    using table(1) by (subst sum.reindex) (auto simp: distinct_map)
  also have "\<dots> = word_of_int (\<Sum>k\<in>keys. min (sint ?cap) (?b k))"
    using table(2) assms(5) by (simp add: word_of_int_sum)
  finally have sum: "capSum ?cap L = word_of_int (\<Sum>k\<in>keys. min (sint ?cap) (?b k))" .
  have nn: "0 \<le> (\<Sum>k\<in>keys. min (sint ?cap) (?b k))" using ok b by (intro sum_nonneg) auto
  have "(\<Sum>k\<in>keys. min (sint ?cap) (?b k)) \<le> (\<Sum>k\<in>keys. ?b k)" by (rule sum_mono) simp
  also have "\<dots> = bytes_of (\<lambda>_. True) sent"
    unfolding bytes_of_def using assms(5) by (subst (2) sum_list_group [where k = "epoch_key ?es" and P = keys]) auto
  finally have lt: "(\<Sum>k\<in>keys. min (sint ?cap) (?b k)) < 2 ^ 63" using assms(4) by linarith
  have "(\<Sum>k\<in>keys. min (sint ?cap) (?b k)) \<le> (\<Sum>k\<in>keys. sint ?cap)" by (rule sum_mono) simp
  moreover have "ApplyPerPeerCaps order (map Some rs) dev p = Inr (capSum ?cap L)"
    using ok(1) assms(2,3) capSum_perm [of "order L" L] by (simp add: ApplyPerPeerCaps_def capTotals_eq L_def totals_of_def)
  ultimately show ?thesis using sum sint_int64_of_int [OF _ lt] nn by (simp add: mult.commute)
qed

theorem per_peer_caps_spec_witness:
  "\<exists>t. ApplyPerPeerCaps rev (map Some [demo_sent 2 900 5, demo_sent 2 60 6, demo_sent 3 50 7]) (Some [1])
     (DefaultParams\<lparr>PerPeerCap := 100\<rparr>) = Inr t \<and> sint t \<le> 200"
proof -
  let ?p = "DefaultParams\<lparr>PerPeerCap := 100\<rparr>" and ?rs = "[demo_sent 2 900 5, demo_sent 2 60 6, demo_sent 3 50 7]"
  have sent: "?rs = sent_by (Some [1]) ?rs" by (simp add: sent_by_def demo_sent_def)
  have "epoch_key (EpochSeconds ?p) ` set ?rs = {([2], 0), ([3], 0)}"
    by (simp add: epoch_key_def peer_of_def demo_sent_def DefaultParams_def signed_divide_int_def)
  moreover have "Validate ?p = Inr ()" by (simp add: Validate_def DefaultParams_def MB_def)
  moreover have "bytes_of (\<lambda>_. True) ?rs < 2 ^ 63" by (simp add: bytes_of_def demo_sent_def)
  ultimately show ?thesis
    using per_peer_caps_spec [OF _ _ sent _ refl, of ?p rev] by (fastforce simp: DefaultParams_def)
qed

section \<open>Effective balance\<close>

lemma sumReceived_eq: "sumReceived dev rs = word_of_int (bytes_of (\<lambda>r. bytes_Equal (sr_ReceiverPubkey r) dev) rs)"
proof -
  have "fold (\<lambda>r acc. if bytes_Equal (sr_ReceiverPubkey r) dev then acc + sr_BytesTotal r else acc) rs a
      = a + word_of_int (bytes_of (\<lambda>r. bytes_Equal (sr_ReceiverPubkey r) dev) rs)" for a
    by (induction rs arbitrary: a) (auto simp: bytes_of_def add.assoc)
  thus ?thesis by (simp add: sumReceived_def)
qed

lemma sumCredits_eq:
  "sumCredits pf dev now p rs =
     (word_of_int (bytes_of (\<lambda>_. True) (sent_by dev rs)),
      word_of_int (\<Sum>r\<leftarrow>sent_by dev rs. sint (DecayedValue pf (sr_BytesTotal r) (Unix (sr_Timestamp r)) (Unix now) (HalfLifeSeconds p * Second))))"
proof -
  have "fold (\<lambda>r (rawCredit, decayedCredit).
       if bytes_Equal (sr_SenderPubkey r) dev
       then let raw = sr_BytesTotal r;
                decayed = DecayedValue pf raw (Unix (sr_Timestamp r)) (Unix now) (HalfLifeSeconds p * Second)
            in (rawCredit + raw, decayedCredit + decayed)
       else (rawCredit, decayedCredit)) rs (a, b)
     = (a + word_of_int (bytes_of (\<lambda>_. True) (sent_by dev rs)),
        b + word_of_int (\<Sum>r\<leftarrow>sent_by dev rs. sint (DecayedValue pf (sr_BytesTotal r) (Unix (sr_Timestamp r)) (Unix now) (HalfLifeSeconds p * Second))))"
    for a b
    by (induction rs arbitrary: a b) (auto simp: bytes_of_def sent_by_def Let_def add.assoc)
  thus ?thesis by (simp add: sumCredits_def)
qed

lemma sum_list_between:
  fixes f g :: "'a \<Rightarrow> int"
  assumes "\<forall>r\<in>set rs. 0 \<le> f r \<and> f r \<le> g r"
  shows "0 \<le> (\<Sum>r\<leftarrow>rs. f r) \<and> (\<Sum>r\<leftarrow>rs. f r) \<le> (\<Sum>r\<leftarrow>rs. g r)"
  using assms by (induction rs) auto

lemma zdiv_le: "0 \<le> a \<Longrightarrow> a div int n \<le> a"
  using zdiv_mono2 [of a 1 "int n"] by (cases "n = 0") auto

lemma bytes_of_filter: "bytes_of P (filter Q rs) = bytes_of (\<lambda>r. Q r \<and> P r) rs"
  by (simp add: bytes_of_def conj_commute)

lemma bytes_of_drop: "bytes_of P (drop n rs) \<le> bytes_of P rs"
proof -
  have "bytes_of P (take n rs @ drop n rs) = bytes_of P (take n rs) + bytes_of P (drop n rs)"
    unfolding bytes_of_def filter_append map_append sum_list_append ..
  with bytes_of_nonneg [of P "take n rs"] show ?thesis by simp
qed

lemma bytes_of_elem: "r \<in> set rs \<Longrightarrow> uint (sr_BytesTotal r) \<le> bytes_of (\<lambda>_. True) rs"
proof (induction rs)
  case (Cons a rs)
  with bytes_of_nonneg [of "\<lambda>_. True" rs] show ?case by (auto simp: bytes_of_def add_increasing)
qed simp

lemma record_bytes_small:
  assumes "bytes_of (\<lambda>_. True) rs \<le> 2 ^ 53" and "r \<in> set rs"
  shows "0 \<le> sint (sr_BytesTotal r)" "sint (sr_BytesTotal r) \<le> 2 ^ 53" "sint (sr_BytesTotal r) = uint (sr_BytesTotal r)"
  using bytes_of_elem [OF assms(2)] assms(1) sint_eq_uint64 [of "sr_BytesTotal r"] by simp_all

lemma diversity_credit_value:
  assumes "length rs < 2 ^ 31" and "bytes_of (\<lambda>_. True) rs \<le> 2 ^ 53" and "0 \<le> sint n"
  shows "\<exists>S. DiversityWeightedCredit (map Some rs) dev n = Inr (word_of_int S) \<and> 0 \<le> S \<and> S \<le> 2 ^ 53"
proof -
  define sent where "sent = sent_by dev (drop (length rs - nat (sint n)) rs)"
  define S where "S = (\<Sum>r\<leftarrow>sent. uint (sr_BytesTotal r) div int (length (sent_to (peer_of r) sent)))"
  have sub: "set sent \<subseteq> set rs" by (auto simp: sent_def sent_by_def dest: in_set_dropD)
  have "DiversityWeightedCredit (map Some rs) dev n = Inr (word_of_int S)"
    unfolding S_def using record_bytes_small(1) [OF assms(2)] sub
    by (intro DiversityWeightedCredit_value [OF assms(1,3) sent_def]) blast
  moreover have "0 \<le> S \<and> S \<le> (\<Sum>r\<leftarrow>sent. uint (sr_BytesTotal r))"
    unfolding S_def by (intro sum_list_between ballI) (auto simp: div_int_pos_iff zdiv_le)
  moreover have "(\<Sum>r\<leftarrow>sent. uint (sr_BytesTotal r)) \<le> bytes_of (\<lambda>r. bytes_Equal (sr_SenderPubkey r) dev) rs"
    using bytes_of_drop [of "\<lambda>r. bytes_Equal (sr_SenderPubkey r) dev"] by (simp add: sent_def sent_by_def bytes_of_def)
  ultimately show ?thesis using bytes_of_mono [of "\<lambda>r. bytes_Equal (sr_SenderPubkey r) dev" rs] assms(2) by (meson order_trans)
qed

text \<open>
  The law of the half-life, in the arithmetic of the platform: what remains of the bytes of a record
  at the time \<open>now\<close> is their product with \<open>2\<close> to the power of minus age by half-life, rounded down.
  Age and half-life are nanoseconds, and a record from the future is as good as new.
\<close>

definition remaining_bytes :: "platform \<Rightarrow> int64 \<Rightarrow> int \<Rightarrow> ShareRecord \<Rightarrow> int" where
  "remaining_bytes pf now halfLife r =
     (if sint (Unix now) < sint (Unix (sr_Timestamp r)) then uint (sr_BytesTotal r)
      else case pf_pow_half pf (Fin (rnd (rnd (of_int (sint (TimeSub (Unix now) (Unix (sr_Timestamp r)))))
             / rnd (of_int (halfLife * 1000000000))))) of
          Fin p \<Rightarrow> \<lfloor>rnd (of_int (uint (sr_BytesTotal r)) * p)\<rfloor>
        | _ \<Rightarrow> 0)"

lemma DecayedValue_remaining:
  assumes "pow_half_ok pf" and "bytes_of (\<lambda>_. True) rs \<le> 2 ^ 53" and "0 < sint hl" and "sint hl \<le> 9223372036" and "r \<in> set rs"
  shows "sint (DecayedValue pf (sr_BytesTotal r) (Unix (sr_Timestamp r)) (Unix now) (hl * Second)) = remaining_bytes pf now (sint hl) r"
    and "0 \<le> remaining_bytes pf now (sint hl) r \<and> remaining_bytes pf now (sint hl) r \<le> uint (sr_BytesTotal r)"
proof -
  let ?D = "DecayedValue pf (sr_BytesTotal r) (Unix (sr_Timestamp r)) (Unix now) (hl * Second)"
  note small = record_bytes_small [OF assms(2,5)]
  note hl = sint_half_life [OF assms(3,4)]
  note range = DecayedValue_range [OF assms(1) small(1,2) assms(3,4), of "Unix (sr_Timestamp r)" "Unix now"]
  show "sint ?D = remaining_bytes pf now (sint hl) r"
  proof (cases "sint (Unix now) < sint (Unix (sr_Timestamp r))")
    case True
    with range small(3) show ?thesis by (simp add: remaining_bytes_def)
  next
    case False
    obtain p where p: "DecayFactor pf (Unix (sr_Timestamp r)) (Unix now) (hl * Second) = Fin p" "0 \<le> p" "p \<le> 1"
      using DecayFactor_range [OF assms(1), of "hl * Second"] assms(3) hl by auto
    with DecayFactor_value(1) [of "hl * Second", OF _ False] DecayedValue_value [OF small(1,2) p] assms(3) hl small(3) False
    show ?thesis by (simp add: remaining_bytes_def)
  qed
  thus "0 \<le> remaining_bytes pf now (sint hl) r \<and> remaining_bytes pf now (sint hl) r \<le> uint (sr_BytesTotal r)"
    using range small(3) by simp
qed

text \<open>
  C12. The effective balance of valid parameters is computed without wrap-around when the records
  move at most \<open>2\<^sup>5\<^sup>3\<close> bytes: it is the drip allowance plus the diversity-weighted credit, less every
  byte received, less the decay of every byte sent.  The decay of a record is what the law of the
  half-life takes from its bytes, between nothing and all of them.  The per-peer cap and the
  epoch length have no influence on the balance.
\<close>

theorem effective_balance_accounting:
  assumes "pow_half_ok pf" and "Validate p = Inr ()" and "sint (MaxBalance p) \<le> 2 ^ 53"
    and "sint (HalfLifeSeconds p) \<le> 9223372036" and "length rs < 2 ^ 31" and "bytes_of (\<lambda>_. True) rs \<le> 2 ^ 53"
  shows "\<exists>e c. DiversityWeightedCredit (map Some rs) dev (WindowSize p) = Inr c \<and>
    ComputeEffectiveBalance pf (map Some rs) dev created now p = Inr e \<and>
    sint e = sint (ComputeDripAllowance pf (Unix created) (Unix now) p) + sint c
      - bytes_of (\<lambda>r. bytes_Equal (sr_ReceiverPubkey r) dev) rs
      - (\<Sum>r\<leftarrow>sent_by dev rs. uint (sr_BytesTotal r) - remaining_bytes pf now (sint (HalfLifeSeconds p)) r) \<and>
    (\<forall>r\<in>set rs. 0 \<le> remaining_bytes pf now (sint (HalfLifeSeconds p)) r \<and>
       remaining_bytes pf now (sint (HalfLifeSeconds p)) r \<le> uint (sr_BytesTotal r)) \<and>
    (\<forall>cap es. ComputeEffectiveBalance pf (map Some rs) dev created now (p\<lparr>PerPeerCap := cap, EpochSeconds := es\<rparr>) = Inr e)"
proof -
  have ok: "0 \<le> sint (WindowSize p)" "0 < sint (HalfLifeSeconds p)"
    using assms(2) by (auto simp: Validate_def split: if_splits)
  note left = DecayedValue_remaining [OF assms(1,6) ok(2) assms(4), of _ now]
  let ?left = "remaining_bytes pf now (sint (HalfLifeSeconds p))"
  define D where "D = (\<Sum>r\<leftarrow>sent_by dev rs. ?left r)"
  let ?drip = "ComputeDripAllowance pf (Unix created) (Unix now) p"
  let ?recv = "bytes_of (\<lambda>r. bytes_Equal (sr_ReceiverPubkey r) dev) rs"
  let ?raw = "bytes_of (\<lambda>_. True) (sent_by dev rs)"
  obtain S where c: "DiversityWeightedCredit (map Some rs) dev (WindowSize p) = Inr (word_of_int S)" and S: "0 \<le> S" "S \<le> 2 ^ 53"
    using diversity_credit_value [OF assms(5,6) ok(1), of dev] by blast
  have raw: "?raw = bytes_of (\<lambda>r. bytes_Equal (sr_SenderPubkey r) dev) rs" by (simp add: sent_by_def bytes_of_filter)
  have sub: "r \<in> set rs" if "r \<in> set (sent_by dev rs)" for r using that by (simp add: sent_by_def)
  have decayed: "(\<Sum>r\<leftarrow>sent_by dev rs. sint (DecayedValue pf (sr_BytesTotal r) (Unix (sr_Timestamp r)) (Unix now) (HalfLifeSeconds p * Second))) = D"
    unfolding D_def using left(1) sub by (metis (mono_tags, lifting) map_cong)
  have penalty: "(\<Sum>r\<leftarrow>sent_by dev rs. uint (sr_BytesTotal r) - ?left r) = ?raw - D"
    by (simp add: D_def bytes_of_def sum_list_subtractf)
  have D: "0 \<le> D" "D \<le> ?raw"
    using sum_list_between [of "sent_by dev rs" ?left "\<lambda>r. uint (sr_BytesTotal r)"] left(2) sub by (simp_all add: D_def bytes_of_def)
  have lim: "0 \<le> ?recv" "?recv \<le> 2 ^ 53" "0 \<le> ?raw" "?raw \<le> 2 ^ 53"
    using bytes_of_mono [of _ rs] assms(6) raw by (auto simp: bytes_of_nonneg intro: order_trans)
  have drip: "0 \<le> sint ?drip" "sint ?drip \<le> 2 ^ 53" using drip_range [OF assms(2,3)] assms(3) by (auto intro: order_trans)
  define e :: int64 where "e = ?drip + word_of_int S - word_of_int ?recv - (word_of_int ?raw - word_of_int D)"
  have "e = word_of_int (sint ?drip + S - ?recv - (?raw - D))" by (simp add: e_def)
  hence e: "sint e = sint ?drip + S - ?recv - (?raw - D)"
    using S D lim drip by (simp only:) (rule sint_int64_of_int; simp)
  have bal: "ComputeEffectiveBalance pf (map Some rs) dev created now p = Inr e"
    using c by (simp add: ComputeEffectiveBalance_def sumReceived_eq sumCredits_eq decayed e_def)
  have "ComputeEffectiveBalance pf (map Some rs) dev created now (p\<lparr>PerPeerCap := cap, EpochSeconds := es\<rparr>) = Inr e" for cap es
    using c by (simp add: ComputeEffectiveBalance_def ComputeDripAllowance_def Let_def sumReceived_eq sumCredits_eq decayed e_def)
  moreover have "sint (word_of_int S :: int64) = S" using S by (simp add: sint_int64_of_int)
  ultimately show ?thesis using c e bal penalty left(2) by (intro exI [of _ e] exI [of _ "word_of_int S"]) simp
qed

definition demo_platform :: platform where
  "demo_platform = \<lparr>pf_to_int64 = (\<lambda>_. 0), pf_pow_half = (\<lambda>y. if y = Fin 0 then Fin 1 else Fin 0)\<rparr>"

text \<open>A platform whose power is exact at whole exponents 0 and 1, and a record sent one half-life ago: half of it is left.\<close>

definition halving_platform :: platform where
  "halving_platform = \<lparr>pf_to_int64 = (\<lambda>_. 0), pf_pow_half = (\<lambda>y. if y = Fin 0 then Fin 1 else if y = Fin 1 then Fin (1 / 2) else Fin 0)\<rparr>"

lemma demo_half_left: "remaining_bytes halving_platform 7776005 7776000 (demo_sent 2 900 5) = 450"
proof -
  have "quot64 7776000000000000 1000000000 = 7776000" "rem64 7776000000000000 1000000000 = 0"
    by (simp_all add: quot64_def rem64_def signed_divide_int_def signed_modulo_int_def)
  hence age: "TimeSub (Unix 7776005) (Unix 5) = 7776000 * Second" "\<not> sint (Unix 7776005) < sint (Unix 5)"
    by (simp_all add: TimeSub_def TimeAdd_def addSec_def Unix_def unixToInternal_def Second_def Before_def Let_def)
  have "rnd (of_nat 7776000000000000) = (of_nat 7776000000000000 :: rat)" by (rule rnd_nat) simp
  moreover have "rnd (of_nat 450) = (of_nat 450 :: rat)" by (rule rnd_nat) simp
  moreover have "rnd (of_nat 1) = (of_nat 1 :: rat)" by (rule rnd_nat) simp
  moreover have "sint (TimeSub (Unix 7776005) (Unix 5)) = 7776000000000000" by (simp add: age(1) Second_def)
  moreover have "sr_Timestamp (demo_sent 2 900 5) = 5" "sr_BytesTotal (demo_sent 2 900 5) = 900" by (simp_all add: demo_sent_def)
  ultimately show ?thesis using age(2) unfolding remaining_bytes_def by (simp add: halving_platform_def del: of_int_sint)
qed

theorem effective_balance_accounting_witness:
  "\<exists>e c. DiversityWeightedCredit (map Some [demo_sent 2 900 5]) (Some [1]) 50 = Inr c \<and>
     ComputeEffectiveBalance halving_platform (map Some [demo_sent 2 900 5]) (Some [1]) 1 7776005 DefaultParams = Inr e \<and>
     sint e = sint (ComputeDripAllowance halving_platform (Unix 1) (Unix 7776005) DefaultParams) + sint c - 450"
proof -
  let ?rs = "[demo_sent 2 900 5]"
  have "\<exists>p::rat. p * 2 = 1 \<and> 0 \<le> p \<and> p \<le> 1" by (rule exI [of _ "1 / 2"]) simp
  hence ok: "pow_half_ok halving_platform" "Validate DefaultParams = Inr ()" "sint (MaxBalance DefaultParams) \<le> 2 ^ 53"
    "sint (HalfLifeSeconds DefaultParams) \<le> 9223372036" "length ?rs < 2 ^ 31" "bytes_of (\<lambda>_. True) ?rs \<le> 2 ^ 53"
    by (simp_all add: pow_half_ok_def halving_platform_def Validate_def DefaultParams_def MB_def bytes_of_def demo_sent_def)
  have "sent_by (Some [1]) ?rs = ?rs" "bytes_of (\<lambda>r. bytes_Equal (sr_ReceiverPubkey r) (Some [1])) ?rs = 0"
    "uint (sr_BytesTotal (demo_sent 2 900 5)) = 900" "WindowSize DefaultParams = 50" "sint (HalfLifeSeconds DefaultParams) = 7776000"
    by (simp_all add: sent_by_def bytes_of_def demo_sent_def bytes_Equal_def DefaultParams_def)
  with effective_balance_accounting [OF ok, of "Some [1]" 1 7776005] show ?thesis by (auto simp: demo_half_left)
qed

section \<open>Checkpoints\<close>

lemma checkpointMetrics_eq:
  "checkpointMetrics ws rs dev =
     (let vs = [w. Some w \<leftarrow> ws] in
      \<lparr>WitnessCount = length vs,
       ClusterCount = card (cw_EncounterCluster ` {w \<in> set vs. cw_EncounterCluster w \<noteq> []}),
       FreshCount = length (filter (\<lambda>w. bs (cw_WitnessPubkey w) \<notin> recentPeers dev rs) vs)\<rparr>)"
proof -
  let ?step = "\<lambda>w (metrics, seen). case w of None \<Rightarrow> (metrics, seen)
              | Some w \<Rightarrow>
                  let metrics = metrics\<lparr>WitnessCount := WitnessCount metrics + 1\<rparr>;
                      seen = (if cw_EncounterCluster w \<noteq> [] then insert (cw_EncounterCluster w) seen else seen);
                      metrics = (if bs (cw_WitnessPubkey w) \<notin> recentPeers dev rs
                        then metrics\<lparr>FreshCount := FreshCount metrics + 1\<rparr> else metrics)
                  in (metrics, seen)"
  have "fold ?step ws (\<lparr>WitnessCount = a, ClusterCount = 0, FreshCount = b\<rparr>, seen) =
      (let vs = [w. Some w \<leftarrow> ws] in
       (\<lparr>WitnessCount = a + length vs, ClusterCount = 0,
         FreshCount = b + length (filter (\<lambda>w. bs (cw_WitnessPubkey w) \<notin> recentPeers dev rs) vs)\<rparr>,
        seen \<union> cw_EncounterCluster ` {w \<in> set vs. cw_EncounterCluster w \<noteq> []}))" for a b seen
    by (induction ws arbitrary: a b seen) (auto simp: Let_def split: option.splits)
  from this [of 0 0 "{}"] show ?thesis by (simp add: checkpointMetrics_def Let_def)
qed

lemma recentPeers_eq:
  "recentPeers dev records =
     {p. \<exists>r. Some r \<in> set records \<and>
        (if bytes_Equal (sr_SenderPubkey r) dev then p = bs (sr_ReceiverPubkey r)
         else bytes_Equal (sr_ReceiverPubkey r) dev \<and> p = bs (sr_SenderPubkey r))}"
proof -
  have "fold (\<lambda>r acc. case r of None \<Rightarrow> acc
        | Some r \<Rightarrow> if bytes_Equal (sr_SenderPubkey r) dev then insert (bs (sr_ReceiverPubkey r)) acc
            else if bytes_Equal (sr_ReceiverPubkey r) dev then insert (bs (sr_SenderPubkey r)) acc
            else acc) records a = a \<union> {p. \<exists>r. Some r \<in> set records \<and>
        (if bytes_Equal (sr_SenderPubkey r) dev then p = bs (sr_ReceiverPubkey r)
         else bytes_Equal (sr_ReceiverPubkey r) dev \<and> p = bs (sr_SenderPubkey r))}" for a
    by (induction records arbitrary: a) (auto split: option.splits if_splits)
  from this [of "{}"] show ?thesis by (simp add: recentPeers_def)
qed

lemma ComputeEffectiveBalance_nil:
  assumes "None \<in> set records"
  shows "is_panic (ComputeEffectiveBalance pf records dev created now p)"
proof -
  have loop: "is_panic r \<or> (\<exists>x. r = Inr x)" if "r = diversityLoop dev counts acc rs" for counts acc rs r
    using that
    by (induction rs arbitrary: acc) (auto simp: sdiv64_def split: if_splits)
  have "is_panic (DiversityWeightedCredit records dev (WindowSize p)) \<or>
      (\<exists>c. DiversityWeightedCredit records dev (WindowSize p) = Inr c)"
  proof (cases "window (WindowSize p) records")
    case (Inl e)
    then show ?thesis by (auto simp: DiversityWeightedCredit_def window_def Let_def split: if_splits)
  next
    case (Inr w)
    show ?thesis
    proof (cases "None \<in> set w")
      case True
      with deref_all_nil [OF this] Inr show ?thesis
        by (auto simp: DiversityWeightedCredit_def is_panic_res_bind)
    next
      case False
      then obtain xs where "w = map Some xs" by (metis ex_map_conv not_None_eq)
      with Inr loop [OF refl] show ?thesis by (auto simp: DiversityWeightedCredit_def)
    qed
  qed
  with deref_all_nil [OF assms] show ?thesis
    by (auto simp: ComputeEffectiveBalance_def is_panic_res_bind)
qed

lemma chainState_last:
  assumes "filter (\<lambda>r. bytes_Equal (sr_SenderPubkey r) dev \<or> bytes_Equal (sr_ReceiverPubkey r) dev) rs \<noteq> []"
  shows "chainState dev (map Some rs) =
    (let r = last (filter (\<lambda>r. bytes_Equal (sr_SenderPubkey r) dev \<or> bytes_Equal (sr_ReceiverPubkey r) dev) rs);
         t = (if bytes_Equal (sr_SenderPubkey r) dev then sr_SenderTotals r else sr_ReceiverTotals r)
     in (sr_Id r, if bytes_Equal (sr_SenderPubkey r) dev then sr_SenderRecordIndex r else sr_ReceiverRecordIndex r,
         getp 0 ct_CumulativeSent t, getp 0 ct_CumulativeReceived t))"
  using assms by (induction rs rule: rev_induct) (auto simp: chainState_def Let_def)

text \<open>
  A checkpoint has high confidence exactly when at least five witnesses signed it, at least
  three different clusters are named, and at least two witnesses are not among the peers of the
  records.  It carries the head, index and totals of the last record of the device, and no device
  signature.  A nil record, which the first loop skips, makes the whole computation panic.
\<close>

theorem compute_checkpoint_spec:
  "(None \<in> set records \<longrightarrow> is_panic (ComputeCheckpoint pf records dev now p ws)) \<and>
   (\<forall>cp m. ComputeCheckpoint pf records dev now p ws = Inr (cp, m) \<longrightarrow>
      (let vs = [w. Some w \<leftarrow> ws]; rs = map the records;
           own = filter (\<lambda>r. bytes_Equal (sr_SenderPubkey r) dev \<or> bytes_Equal (sr_ReceiverPubkey r) dev) rs
       in cp_DeviceSig cp = None \<and> cp_Timestamp cp = now \<and>
          (cp_Confidence cp = CONFIDENCE_HIGH \<longleftrightarrow>
             5 \<le> length vs \<and> 3 \<le> card (cw_EncounterCluster ` {w \<in> set vs. cw_EncounterCluster w \<noteq> []}) \<and>
             2 \<le> length (filter (\<lambda>w. bs (cw_WitnessPubkey w) \<notin> recentPeers dev records) vs)) \<and>
          (own \<noteq> [] \<longrightarrow> cp_ChainHead cp = sr_Id (last own) \<and>
             cp_RecordIndex cp = (if bytes_Equal (sr_SenderPubkey (last own)) dev
               then sr_SenderRecordIndex (last own) else sr_ReceiverRecordIndex (last own)))))"
proof (intro conjI impI allI)
  assume "None \<in> set records"
  from ComputeEffectiveBalance_nil [OF this] show "is_panic (ComputeCheckpoint pf records dev now p ws)"
    by (auto simp: ComputeCheckpoint_def is_panic_res_bind split: prod.splits)
next
  fix cp m assume cp: "ComputeCheckpoint pf records dev now p ws = Inr (cp, m)"
  then have "None \<notin> set records"
    using ComputeEffectiveBalance_nil [of records pf dev now now p]
    by (auto simp: ComputeCheckpoint_def res_bind_eq_Inr split: prod.splits)
  hence rs: "records = map Some (map the records)"
    by (auto intro!: nth_equalityI simp: in_set_conv_nth)
  obtain e where cpv: "cp = (let (h, i, a, b) = chainState dev records; m = checkpointMetrics ws records dev in
      \<lparr>cp_DevicePubkey = dev, cp_ChainHead = h, cp_RecordIndex = i,
       cp_Totals = Some \<lparr>ct_CumulativeSent = a, ct_CumulativeReceived = b\<rparr>, cp_RawBalance = e, cp_Timestamp = now,
       cp_DeviceSig = None, cp_Witnesses = ws,
       cp_Confidence = (if 5 \<le> WitnessCount m \<and> 3 \<le> ClusterCount m \<and> 2 \<le> FreshCount m
         then CONFIDENCE_HIGH else CONFIDENCE_LOW)\<rparr>)"
    using cp by (auto simp: ComputeCheckpoint_def res_bind_eq_Inr Let_def split: prod.splits)
  show "let vs = [w. Some w \<leftarrow> ws]; rs = map the records;
           own = filter (\<lambda>r. bytes_Equal (sr_SenderPubkey r) dev \<or> bytes_Equal (sr_ReceiverPubkey r) dev) rs
       in cp_DeviceSig cp = None \<and> cp_Timestamp cp = now \<and>
          (cp_Confidence cp = CONFIDENCE_HIGH \<longleftrightarrow>
             5 \<le> length vs \<and> 3 \<le> card (cw_EncounterCluster ` {w \<in> set vs. cw_EncounterCluster w \<noteq> []}) \<and>
             2 \<le> length (filter (\<lambda>w. bs (cw_WitnessPubkey w) \<notin> recentPeers dev records) vs)) \<and>
          (own \<noteq> [] \<longrightarrow> cp_ChainHead cp = sr_Id (last own) \<and>
             cp_RecordIndex cp = (if bytes_Equal (sr_SenderPubkey (last own)) dev
               then sr_SenderRecordIndex (last own) else sr_ReceiverRecordIndex (last own)))"
    unfolding Let_def
  proof (intro conjI impI)
    show "cp_DeviceSig cp = None" "cp_Timestamp cp = now" by (simp_all add: cpv Let_def split: prod.split)
    show "cp_Confidence cp = CONFIDENCE_HIGH \<longleftrightarrow>
        5 \<le> length [w. Some w \<leftarrow> ws] \<and> 3 \<le> card (cw_EncounterCluster ` {w \<in> set [w. Some w \<leftarrow> ws]. cw_EncounterCluster w \<noteq> []}) \<and>
        2 \<le> length (filter (\<lambda>w. bs (cw_WitnessPubkey w) \<notin> recentPeers dev records) [w. Some w \<leftarrow> ws])"
      by (simp add: cpv checkpointMetrics_eq Let_def CONFIDENCE_HIGH_def CONFIDENCE_LOW_def split: prod.split)
  qed (use chainState_last [of dev "map the records", folded rs] in \<open>auto simp: cpv Let_def\<close>)
qed

theorem compute_checkpoint_spec_witness:
  "is_panic (ComputeCheckpoint demo_platform [Some (demo_sent 2 900 5), None] (Some [1]) 9 DefaultParams [])"
  using compute_checkpoint_spec [of "[Some (demo_sent 2 900 5), None]" demo_platform "Some [1]" 9 DefaultParams "[]"] by simp

end
