(* ===== verification/Go_State.thy ===== *)
theory Go_State
  imports Prelude
begin

text \<open>
  Functions that change a state and may fail half way: the failure is returned together with the
  state reached so far, because Go keeps what was written before the error.
\<close>

type_synonym ('s, 'a) op = "'s \<Rightarrow> 'a res \<times> 's"

definition st_ret :: "'a \<Rightarrow> ('s, 'a) op" where
  "st_ret x s = (Inr x, s)"

definition st_fail :: "failure \<Rightarrow> ('s, 'a) op" where
  "st_fail e s = (Inl e, s)"

definition st_bind :: "('s, 'a) op \<Rightarrow> ('a \<Rightarrow> ('s, 'b) op) \<Rightarrow> ('s, 'b) op" where
  "st_bind m f s = (case m s of (Inl e, s') \<Rightarrow> (Inl e, s') | (Inr x, s') \<Rightarrow> f x s')"

text \<open>A call that either changes the state or fails and leaves it alone; a call that only reads.\<close>

definition st_write :: "('s \<Rightarrow> 's res) \<Rightarrow> ('s, unit) op" where
  "st_write f s = (case f s of Inl e \<Rightarrow> (Inl e, s) | Inr s' \<Rightarrow> (Inr (), s'))"

definition st_read :: "('s \<Rightarrow> 'a res) \<Rightarrow> ('s, 'a) op" where
  "st_read f s = (f s, s)"

definition st_lift :: "'a res \<Rightarrow> ('s, 'a) op" where
  "st_lift r s = (r, s)"

definition st_wrap :: "string \<Rightarrow> ('s, 'a) op \<Rightarrow> ('s, 'a) op" where
  "st_wrap m f s = (let (r, s') = f s in (wrap_err m r, s'))"

text \<open>\<open>for _, x := range xs { if err := f(x); err != nil { return err } }\<close>\<close>

primrec st_each :: "('x \<Rightarrow> ('s, unit) op) \<Rightarrow> 'x list \<Rightarrow> ('s, unit) op" where
  "st_each f [] = st_ret ()"
| "st_each f (x # xs) = st_bind (f x) (\<lambda>_. st_each f xs)"

text \<open>A function of a pointer to the state that refuses nil with an error.\<close>

definition on_store :: "string \<Rightarrow> ('s, 'a) op \<Rightarrow> ('s option, 'a) op" where
  "on_store m f p = (case p of None \<Rightarrow> (fail m, None) | Some s \<Rightarrow> (let (r, s') = f s in (r, Some s')))"

lemmas st_defs = st_ret_def st_fail_def st_bind_def st_write_def st_read_def st_lift_def st_wrap_def

lemma st_bind_cong [fundef_cong]:
  "m s = m' s' \<Longrightarrow> s = s' \<Longrightarrow> (\<And>x t. m' s' = (Inr x, t) \<Longrightarrow> f x t = g x t) \<Longrightarrow> st_bind m f s = st_bind m' g s'"
  by (auto simp: st_bind_def split: prod.split sum.split)

lemma st_bind_Inr: "st_bind m f s = (Inr y, s') \<longleftrightarrow> (\<exists>x t. m s = (Inr x, t) \<and> f x t = (Inr y, s'))"
  by (auto simp: st_bind_def split: prod.splits sum.splits)

lemma st_wrap_Inr: "st_wrap m f s = (Inr x, s') \<longleftrightarrow> f s = (Inr x, s')"
  by (auto simp: st_wrap_def split: prod.splits)

lemma st_write_Inr: "st_write f s = (Inr u, s') \<longleftrightarrow> f s = Inr s'"
  by (auto simp: st_write_def split: sum.splits)

lemma st_each_append: "st_each f (xs @ ys) = st_bind (st_each f xs) (\<lambda>_. st_each f ys)"
  by (induction xs) (auto simp: fun_eq_iff st_bind_def st_ret_def split: prod.split sum.split)

text \<open>Invariants of a state that survive any outcome.\<close>

definition st_keeps :: "('s \<Rightarrow> bool) \<Rightarrow> ('s, 'a) op \<Rightarrow> bool" where
  "st_keeps I m \<longleftrightarrow> (\<forall>s. I s \<longrightarrow> I (snd (m s)))"

lemma st_keepsD: "st_keeps I m \<Longrightarrow> I s \<Longrightarrow> I (snd (m s))"
  by (simp add: st_keeps_def)

lemma st_keeps_step: "st_keeps I m \<Longrightarrow> m s = (r, t) \<Longrightarrow> I s \<Longrightarrow> I t"
  using st_keepsD [of I m s] by simp

lemma st_keeps_ret [intro]: "st_keeps I (st_ret x)"
  and st_keeps_fail [intro]: "st_keeps I (st_fail e)"
  and st_keeps_read [intro]: "st_keeps I (st_read f)"
  and st_keeps_lift [intro]: "st_keeps I (st_lift r)"
  by (simp_all add: st_keeps_def st_defs)

lemma st_keeps_bind [intro]: "st_keeps I m \<Longrightarrow> (\<And>x. st_keeps I (f x)) \<Longrightarrow> st_keeps I (st_bind m f)"
  unfolding st_keeps_def st_bind_def by (force split: prod.split sum.split)

lemma st_bind_invI: "m s = (r, t) \<Longrightarrow> I t \<Longrightarrow> (\<And>x. I (snd (f x t))) \<Longrightarrow> I (snd (st_bind m f s))"
  by (simp add: st_bind_def split: sum.split)

lemma st_keeps_wrap [intro]: "st_keeps I f \<Longrightarrow> st_keeps I (st_wrap m f)"
  unfolding st_keeps_def st_wrap_def by (auto split: prod.split)

lemma st_keeps_write: "(\<And>s s'. I s \<Longrightarrow> f s = Inr s' \<Longrightarrow> I s') \<Longrightarrow> st_keeps I (st_write f)"
  by (auto simp: st_keeps_def st_write_def split: sum.split)

lemma st_keeps_each [intro]: "(\<And>x. st_keeps I (f x)) \<Longrightarrow> st_keeps I (st_each f xs)"
  by (induction xs) auto

lemma st_each_reaches:
  assumes "st_each f xs s = (Inr u, s')" "x \<in> set xs" "\<And>x. st_keeps I (f x)" "I s"
  shows "\<exists>t v t'. I t \<and> f x t = (Inr v, t')"
  using assms(1,2,4)
proof (induction xs arbitrary: s)
  case (Cons a xs)
  from Cons.prems(1) obtain v t where a: "f a s = (Inr v, t)" and rest: "st_each f xs t = (Inr u, s')"
    by (auto simp: st_bind_Inr)
  have "I t" using st_keepsD [OF assms(3) Cons.prems(3), of a] a by simp
  with Cons a rest show ?case by auto
qed simp

section \<open>Loops\<close>

text \<open>
  \<open>for { body }\<close>: the body blocks for ever (\<open>None\<close>), goes round with a new state (\<open>Inl\<close>) or leaves
  the loop with a result (\<open>Inr\<close>).  The loop gives \<open>None\<close> when it does not end.
\<close>

partial_function (option) for_ever :: "('s \<Rightarrow> ('s + 'r) option) \<Rightarrow> 's \<Rightarrow> 'r option" where
  "for_ever body s =
     Option.bind (body s) (\<lambda>x. case x of Inl s' \<Rightarrow> for_ever body s' | Inr r \<Rightarrow> Some r)"

lemma for_ever_unfold:
  "body s = None \<Longrightarrow> for_ever body s = None"
  "body s = Some (Inl s') \<Longrightarrow> for_ever body s = for_ever body s'"
  "body s = Some (Inr r) \<Longrightarrow> for_ever body s = Some r"
  by (subst for_ever.simps, simp)+

text \<open>Partial correctness by an invariant of the loop state.\<close>

lemma for_ever_inv:
  assumes run: "for_ever body s = Some r"
    and init: "I s"
    and step: "\<And>s s'. I s \<Longrightarrow> body s = Some (Inl s') \<Longrightarrow> I s'"
    and exit: "\<And>s r. I s \<Longrightarrow> body s = Some (Inr r) \<Longrightarrow> Q r"
  shows "Q r"
proof -
  have "body = body \<longrightarrow> I s \<longrightarrow> Q r"
    using _ run
  proof (rule for_ever.raw_induct [where P = "\<lambda>b s r. b = body \<longrightarrow> I s \<longrightarrow> Q r"])
    fix loop b s r
    assume IH: "\<And>b s r. loop b s = Some r \<Longrightarrow> b = body \<longrightarrow> I s \<longrightarrow> Q r"
      and "Option.bind (b s) (\<lambda>x. case x of Inl s' \<Rightarrow> loop b s' | Inr r \<Rightarrow> Some r) = Some r"
    thus "b = body \<longrightarrow> I s \<longrightarrow> Q r"
      using step exit by (cases "b s") (auto split: sum.splits)
  qed
  with init show ?thesis by blast
qed

text \<open>The run of a loop that ends: the states at the start of its rounds, in order.\<close>

inductive rounds :: "('s \<Rightarrow> ('s + 'r) option) \<Rightarrow> 's \<Rightarrow> 's list \<Rightarrow> 'r \<Rightarrow> bool" for body where
  leave: "body s = Some (Inr r) \<Longrightarrow> rounds body s [s] r"
| again: "body s = Some (Inl s') \<Longrightarrow> rounds body s' ss r \<Longrightarrow> rounds body s (s # ss) r"

lemma rounds_start: "rounds body s ss r \<Longrightarrow> \<exists>ts. ss = s # ts"
  by (erule rounds.cases) auto

lemma for_ever_rounds: "for_ever body s = Some r \<longleftrightarrow> (\<exists>ss. rounds body s ss r)"
proof
  assume "for_ever body s = Some r"
  thus "\<exists>ss. rounds body s ss r"
    by (rule for_ever_inv [where I = "\<lambda>t. \<forall>ss q. rounds body t ss q \<longrightarrow> (\<exists>ts. rounds body s ts q)"]) (blast intro: rounds.intros)+
next
  assume "\<exists>ss. rounds body s ss r"
  then obtain ss where "rounds body s ss r" ..
  thus "for_ever body s = Some r" by (induction rule: rounds.induct) (simp_all add: for_ever_unfold)
qed

text \<open>
  Two loops side by side: \<open>body'\<close> does through \<open>f\<close> what \<open>body\<close> does, and leaves with a result of \<open>P\<close> where
  \<open>body\<close> blocks.  When the second loop ends, either the first ends with the same result or it is blocked.
\<close>

lemma for_ever_compare:
  assumes run: "for_ever body' (f s) = Some r'"
    and again: "\<And>s s'. I s \<Longrightarrow> body s = Some (Inl s') \<Longrightarrow> body' (f s) = Some (Inl (f s')) \<and> I s'"
    and leave: "\<And>s r. I s \<Longrightarrow> body s = Some (Inr r) \<Longrightarrow> body' (f s) = Some (Inr (g r))"
    and block: "\<And>s. I s \<Longrightarrow> body s = None \<Longrightarrow> \<exists>q. body' (f s) = Some (Inr q) \<and> P q"
    and init: "I s"
  shows "(\<exists>r. for_ever body s = Some r \<and> r' = g r) \<or> for_ever body s = None \<and> P r'"
  using run
proof (rule for_ever_inv [where I = "\<lambda>t. \<exists>u. t = f u \<and> I u \<and> for_ever body s = for_ever body u"])
  show "\<exists>u. f s = f u \<and> I u \<and> for_ever body s = for_ever body u" using init by blast
next
  fix t t' assume "\<exists>u. t = f u \<and> I u \<and> for_ever body s = for_ever body u" and t: "body' t = Some (Inl t')"
  then obtain u where u: "t = f u" "I u" "for_ever body s = for_ever body u" by blast
  show "\<exists>u. t' = f u \<and> I u \<and> for_ever body s = for_ever body u"
  proof (cases "body u")
    case None
    with block [OF u(2)] t u(1) show ?thesis by auto
  next
    case (Some x)
    with again [OF u(2)] leave [OF u(2)] t u show ?thesis by (cases x) (auto simp: for_ever_unfold(2))
  qed
next
  fix t q assume "\<exists>u. t = f u \<and> I u \<and> for_ever body s = for_ever body u" and t: "body' t = Some (Inr q)"
  then obtain u where u: "t = f u" "I u" "for_ever body s = for_ever body u" by blast
  show "(\<exists>r. for_ever body s = Some r \<and> q = g r) \<or> for_ever body s = None \<and> P q"
  proof (cases "body u")
    case None
    with block [OF u(2) None] t u show ?thesis by (auto simp: for_ever_unfold(1))
  next
    case (Some x)
    with again [OF u(2)] leave [OF u(2)] t u show ?thesis by (cases x) (auto simp: for_ever_unfold(3))
  qed
qed

text \<open>Termination: while the invariant holds the body returns, and going round makes the measure smaller.\<close>

lemma for_ever_returns:
  assumes "I s"
    and live: "\<And>s. I s \<Longrightarrow> body s \<noteq> None"
    and step: "\<And>s s'. I s \<Longrightarrow> body s = Some (Inl s') \<Longrightarrow> I s' \<and> f s' < (f s :: nat)"
  shows "\<exists>r. for_ever body s = Some r"
  using assms(1)
proof (induction "f s" arbitrary: s rule: less_induct)
  case less
  show ?case
  proof (cases "body s")
    case None
    with live less.prems show ?thesis by blast
  next
    case (Some x)
    with less step show ?thesis by (cases x) (auto simp: for_ever_unfold)
  qed
qed

end
