(* ===== verification/Identity.thy ===== *)
theory Identity
  imports Store_Props Go_State
begin

text \<open>
  The package \<open>identity/\<close>: creation and loading of the device identity, succession records that hand
  a chain over to a new key, and the envelope around a platform attestation.  The current time is
  an argument.
\<close>

section \<open>Device identity\<close>

record DeviceIdentity =
  di_Pubkey :: slice
  di_PrivateKey :: slice
  di_ChainHead :: slice
  di_CreatedAt :: int64

definition NewIdentity :: "engine \<Rightarrow> go_error + byte list \<times> byte list \<Rightarrow> int64 \<Rightarrow> (Store, DeviceIdentity) op" where
  "NewIdentity en generated now =
     st_bind (st_lift (GenerateKeyPair generated)) (\<lambda>(pubkey, privateKey).
     st_bind (st_write (InitIdentity en pubkey privateKey now)) (\<lambda>_.
     st_ret \<lparr>di_Pubkey = pubkey, di_PrivateKey = privateKey, di_ChainHead = None, di_CreatedAt = now\<rparr>))"

definition LoadIdentity :: "engine \<Rightarrow> Store \<Rightarrow> DeviceIdentity res" where
  "LoadIdentity en store =
     res_bind (GetIdentity en store) (\<lambda>identity.
     Inr \<lparr>di_Pubkey = id_Pubkey identity, di_PrivateKey = id_PrivateKey identity,
          di_ChainHead = id_ChainHead identity, di_CreatedAt = id_CreatedAt identity\<rparr>)"

section \<open>Succession\<close>

record SuccessionRecord =
  OldPubkey :: slice
  NewPubkey :: slice
  su_Timestamp :: int64
  su_Signature :: slice

definition generateSuccessionRecordMessage :: "slice \<Rightarrow> slice \<Rightarrow> int64 \<Rightarrow> byte list" where
  "generateSuccessionRecordMessage oldPublicKey newPublicKey timestamp =
     (bs oldPublicKey @ bs newPublicKey) @ be64 timestamp"

definition CreateSuccessionRecord :: "crypto_prims \<Rightarrow> int64 \<Rightarrow> slice \<Rightarrow> slice \<Rightarrow> slice \<Rightarrow> SuccessionRecord res" where
  "CreateSuccessionRecord cr now oldPrivateKey oldPublicKey newPublicKey =
     (let timestamp = now;
          message = generateSuccessionRecordMessage oldPublicKey newPublicKey timestamp in
      res_bind (Sign cr oldPrivateKey message) (\<lambda>signature.
      Inr \<lparr>OldPubkey = oldPublicKey, NewPubkey = newPublicKey, su_Timestamp = timestamp, su_Signature = signature\<rparr>))"

definition VerifySuccessionRecord :: "crypto_prims \<Rightarrow> SuccessionRecord option \<Rightarrow> bool res" where
  "VerifySuccessionRecord cr rec =
     (case rec of
        None \<Rightarrow> nil_deref
      | Some r \<Rightarrow>
          (let message = generateSuccessionRecordMessage (OldPubkey r) (NewPubkey r) (su_Timestamp r) in
           res_bind (Verify cr (OldPubkey r) message (su_Signature r)) (\<lambda>ok.
           if \<not> ok then Inr False else Inr True)))"

section \<open>Attestation\<close>

definition AttestationAndroid :: byte where "AttestationAndroid = 1"
definition AttestationIOS :: byte where "AttestationIOS = 2"

record AttestationEnvelope =
  at_Type :: byte
  at_Timestamp :: int64
  at_DevicePubkey :: "byte list"
  at_PlatformBlob :: "byte list"

definition parseAttestationEnvelope :: "byte list \<Rightarrow> AttestationEnvelope res" where
  "parseAttestationEnvelope data =
     (if length data < 41 then fail ''attestation blob too short''
      else Inr \<lparr>at_Type = data ! 0, at_Timestamp = unbe64 (take 8 (drop 1 data)),
                at_DevicePubkey = take 32 (drop 9 data), at_PlatformBlob = drop 41 data\<rparr>)"

definition bytesEqual :: "byte list \<Rightarrow> byte list \<Rightarrow> bool" where
  "bytesEqual a b = (if length a \<noteq> length b then False else list_all (\<lambda>i. a ! i = b ! i) [0..<length a])"

definition VerifyAttestation :: "crypto_prims \<Rightarrow> int64 \<Rightarrow> slice \<Rightarrow> slice \<Rightarrow> bool res" where
  "VerifyAttestation cr now attestationBlob pubkey =
     (if length (bs attestationBlob) = 0 then fail ''attestation blob is empty''
      else if length (bs pubkey) = 0 then fail ''pubkey is empty''
      else res_bind (parseAttestationEnvelope (bs attestationBlob)) (\<lambda>envelope.
        if at_Type envelope \<noteq> AttestationAndroid \<and> at_Type envelope \<noteq> AttestationIOS
        then fail ''unknown attestation type''
        else let age = now - at_Timestamp envelope in
          if sint age < 0 \<or> 86400 < sint age then fail ''attestation expired or has future timestamp''
          else let pubkeyHash = Hash cr (bs pubkey) in
            if \<not> bytesEqual (at_DevicePubkey envelope) pubkeyHash then fail ''attestation pubkey mismatch''
            else if length (at_PlatformBlob envelope) = 0 then fail ''platform attestation blob is empty''
            else Inr True))"

section \<open>Properties\<close>

lemma bytesEqual_eq: "bytesEqual a b \<longleftrightarrow> a = b"
  by (auto simp: bytesEqual_def list_all_iff intro: nth_equalityI)

text \<open>
  An identity can be created once: a second creation is refused.  Loading it returns the
  public key and the creation time but never the private key, so a device that restarts cannot
  sign with the loaded identity.
\<close>

theorem identity_survives_without_private_key:
  assumes "driver_ok en" and "NewIdentity en (Inr (pub, priv)) now s = (Inr d, s')"
  shows "di_Pubkey d = Some pub \<and> di_PrivateKey d = Some priv \<and>
    LoadIdentity en s' = Inr (d\<lparr>di_PrivateKey := None\<rparr>) \<and>
    (\<exists>e. Sign cr (di_PrivateKey (d\<lparr>di_PrivateKey := None\<rparr>)) msg = Inl (Err e)) \<and>
    (\<exists>e. NewIdentity en gen now' s' = (Inl (Err e), s'))"
proof -
  from assms have d: "d = \<lparr>di_Pubkey = Some pub, di_PrivateKey = Some priv, di_ChainHead = None, di_CreatedAt = now\<rparr>"
    and s': "identity_row s' = Some \<lparr>id_Pubkey = Some pub, id_PrivateKey = None, id_CreatedAt = now,
        id_ChainHead = None, id_ChainIndex = 0, id_CumulativeSent = 0, id_CumulativeReceived = 0\<rparr>"
    by (auto simp: NewIdentity_def st_bind_Inr st_lift_def st_ret_def st_write_Inr GenerateKeyPair_def InitIdentity_def
        stmt_Inr split: if_splits option.splits)
  have "LoadIdentity en s' = Inr (d\<lparr>di_PrivateKey := None\<rparr>)"
    using assms(1) by (simp add: LoadIdentity_def GetIdentity_def s' scan_row_def d scan_u64_def)
  moreover have "\<exists>e. NewIdentity en gen now' s' = (Inl (Err e), s')"
    using assms(1) s'
    by (auto simp: NewIdentity_def st_defs GenerateKeyPair_def InitIdentity_def fail_def not_null_def split: sum.split)
  ultimately show ?thesis by (auto simp: d Sign_def fail_def PrivateKeySize_def)
qed

theorem identity_survives_without_private_key_witness:
  "\<exists>s'. LoadIdentity demo_engine s' =
     Inr \<lparr>di_Pubkey = Some (demo_pub 1), di_PrivateKey = None, di_ChainHead = None, di_CreatedAt = 7\<rparr>"
proof -
  obtain d s' where new: "NewIdentity demo_engine (Inr (demo_pub 1, demo_priv 1)) 7 empty_store = (Inr d, s')"
    and d: "d = \<lparr>di_Pubkey = Some (demo_pub 1), di_PrivateKey = Some (demo_priv 1), di_ChainHead = None, di_CreatedAt = 7\<rparr>"
    by (simp add: NewIdentity_def st_defs GenerateKeyPair_def InitIdentity_def demo_engine_def not_null_def empty_store_def)
  from identity_survives_without_private_key [OF demo_engine_ok new, of demo_crypto "[]" "Inr ([], [])" 1] d
  show ?thesis by auto
qed

lemma succession_message_inj:
  "length (bs a) = length (bs a') \<Longrightarrow> length (bs b) = length (bs b') \<Longrightarrow>
   generateSuccessionRecordMessage a b t = generateSuccessionRecordMessage a' b' t' \<longleftrightarrow> bs a = bs a' \<and> bs b = bs b' \<and> t = t'"
  by (simp add: generateSuccessionRecordMessage_def be64c.enc_inj)

text \<open>
  A succession record made with the old key pair verifies, and so does no record in which a
  signature that verified for another hand-over is reused: the signed message determines both keys
  and the timestamp when the keys have the same lengths.
\<close>

theorem succession_record_verifies:
  assumes "keypair_ok cr pub priv" and "CreateSuccessionRecord cr now (Some priv) (Some pub) new = Inr r"
  shows "VerifySuccessionRecord cr (Some r) = Inr True \<and> NewPubkey r = new \<and> su_Timestamp r = now \<and>
    (\<forall>old2 new2 t2. length (bs old2) = length pub \<and> length (bs new2) = length (bs new) \<and>
       generateSuccessionRecordMessage old2 new2 t2 = generateSuccessionRecordMessage (OldPubkey r) new now
       \<longrightarrow> bs old2 = pub \<and> bs new2 = bs new \<and> t2 = now)"
proof -
  from assms(2) have r: "r = \<lparr>OldPubkey = Some pub, NewPubkey = new, su_Timestamp = now,
      su_Signature = Some (ed25519_Sign cr priv (generateSuccessionRecordMessage (Some pub) new now))\<rparr>"
    by (auto simp: CreateSuccessionRecord_def Let_def res_bind_eq_Inr Sign_eq_Inr)
  have "VerifySuccessionRecord cr (Some r) = Inr True"
    using assms(1) by (simp add: r VerifySuccessionRecord_def Verify_def PublicKeySize_def keypair_ok_def)
  moreover note succession_message_inj [of _ "Some pub" _ new _ now]
  ultimately show ?thesis by (simp add: r) blast
qed

theorem succession_record_verifies_witness:
  "\<exists>r. CreateSuccessionRecord demo_crypto 5 (Some (demo_priv 1)) (Some (demo_pub 1)) (Some (demo_pub 2)) = Inr r \<and>
     VerifySuccessionRecord demo_crypto (Some r) = Inr True"
proof -
  obtain r where r: "CreateSuccessionRecord demo_crypto 5 (Some (demo_priv 1)) (Some (demo_pub 1)) (Some (demo_pub 2)) = Inr r"
    by (simp add: CreateSuccessionRecord_def Sign_def PrivateKeySize_def demo_priv_def)
  with succession_record_verifies [OF demo_keypair_ok r] show ?thesis by auto
qed

text \<open>
  C38. An attestation is accepted exactly when it is long enough, of a known platform, between 0
  and 24 hours old, bound to the hash of the public key, and carries a platform blob; every other
  input is an error (the verdict \<open>false\<close> without an error does not occur).
\<close>

theorem verify_attestation_iff:
  "VerifyAttestation cr now blob pub = Inr ok \<longleftrightarrow>
     ok \<and> bs pub \<noteq> [] \<and> 41 < length (bs blob) \<and> bs blob ! 0 \<in> {AttestationAndroid, AttestationIOS} \<and>
     take 32 (drop 9 (bs blob)) = Hash cr (bs pub) \<and>
     (let age = sint (now - unbe64 (take 8 (drop 1 (bs blob)))) in 0 \<le> age \<and> age \<le> 86400)"
  by (cases "length (bs blob) \<le> 40")
    (auto simp: VerifyAttestation_def parseAttestationEnvelope_def bytesEqual_eq Let_def split: if_splits)

end
