(* ===== verification/Discovery.thy ===== *)
theory Discovery
  imports Crypto Wire_Types
begin

text \<open>
  The package \<open>discovery/\<close>: the index of locally available chunks, advertisements that hide file
  hashes behind a salt, and capabilities that grant access to a file.
\<close>

section \<open>File index\<close>

record FileIndex =
  fi_files :: "byte list \<rightharpoonup> uint32 set"

definition NewFileIndex :: FileIndex where
  "NewFileIndex = \<lparr>fi_files = Map.empty\<rparr>"

definition AddFile :: "slice \<Rightarrow> uint32 list \<Rightarrow> FileIndex option \<Rightarrow> FileIndex res" where
  "AddFile fileHash chunkIndices f =
     (case f of
        None \<Rightarrow> fail ''file index is nil''
      | Some f \<Rightarrow>
          if length (bs fileHash) = 0 then fail ''file hash is required''
          else if length chunkIndices = 0 then fail ''at least one chunk index is required''
          else let key = bs fileHash;
                   present = (case fi_files f key of None \<Rightarrow> {} | Some s \<Rightarrow> s)
               in Inr (f\<lparr>fi_files := (fi_files f)(key \<mapsto> fold insert chunkIndices present)\<rparr>))"

definition RemoveFile :: "slice \<Rightarrow> FileIndex option \<Rightarrow> FileIndex res" where
  "RemoveFile fileHash f =
     (case f of
        None \<Rightarrow> fail ''file index is nil''
      | Some f \<Rightarrow>
          if length (bs fileHash) = 0 then fail ''file hash is required''
          else Inr (f\<lparr>fi_files := (fi_files f)(bs fileHash := None)\<rparr>))"

definition HasFile :: "slice \<Rightarrow> FileIndex option \<Rightarrow> bool" where
  "HasFile fileHash f =
     (case f of None \<Rightarrow> False
      | Some f \<Rightarrow> if length (bs fileHash) = 0 then False else fi_files f (bs fileHash) \<noteq> None)"

text \<open>Go iterates over the set of indices in an order of its own.\<close>

definition GetAvailableChunks :: "(uint32 set \<Rightarrow> uint32 list) \<Rightarrow> slice \<Rightarrow> FileIndex option \<Rightarrow> uint32 list" where
  "GetAvailableChunks order fileHash f =
     (case f of None \<Rightarrow> []
      | Some f \<Rightarrow> if length (bs fileHash) = 0 then []
          else (case fi_files f (bs fileHash) of None \<Rightarrow> [] | Some indices \<Rightarrow> order indices))"

definition HasChunk :: "slice \<Rightarrow> uint32 \<Rightarrow> FileIndex option \<Rightarrow> bool" where
  "HasChunk fileHash chunkIndex f =
     (case f of None \<Rightarrow> False
      | Some f \<Rightarrow> if length (bs fileHash) = 0 then False
          else (case fi_files f (bs fileHash) of None \<Rightarrow> False | Some indices \<Rightarrow> chunkIndex \<in> indices))"

definition EqualFileHash :: "slice \<Rightarrow> slice \<Rightarrow> bool" where
  "EqualFileHash a b = bytes_Equal a b"

section \<open>Salted advertisements\<close>

definition SaltSizeBytes :: nat where "SaltSizeBytes = 8"
definition AdvertPrefixLen :: nat where "AdvertPrefixLen = 4"

record Advertisement =
  ad_Salt :: slice
  ad_HashedPrefix :: slice

definition ComputeSaltedPrefix :: "crypto_prims \<Rightarrow> slice \<Rightarrow> slice \<Rightarrow> slice res" where
  "ComputeSaltedPrefix cr fileHash salt =
     (if length (bs fileHash) = 0 then fail ''file hash is required''
      else if length (bs salt) \<noteq> SaltSizeBytes then fail (''salt must be '' @ itoa SaltSizeBytes @ '' bytes'')
      else let material = bs fileHash @ bs salt; full = Hash cr material
           in Inr (Some (take AdvertPrefixLen full)))"

text \<open>The argument \<open>random\<close> is the outcome of \<open>rand.Read\<close> into the 8 bytes of the salt.\<close>

definition GenerateAdvertisement :: "crypto_prims \<Rightarrow> go_error + byte list \<Rightarrow> slice \<Rightarrow> Advertisement res" where
  "GenerateAdvertisement cr random fileHash =
     (if length (bs fileHash) = 0 then fail ''file hash is required''
      else (case random of
              Inl e \<Rightarrow> Inl (Err (Wrapf ''generate salt: '' e))
            | Inr salt \<Rightarrow>
                res_bind (ComputeSaltedPrefix cr fileHash (Some salt)) (\<lambda>prefix.
                Inr \<lparr>ad_Salt = Some salt, ad_HashedPrefix = prefix\<rparr>)))"

definition MatchAdvertisement :: "crypto_prims \<Rightarrow> Advertisement option \<Rightarrow> slice \<Rightarrow> bool res" where
  "MatchAdvertisement cr ad fileHash =
     (case ad of
        None \<Rightarrow> fail ''advertisement is required''
      | Some ad \<Rightarrow>
          if length (bs (ad_Salt ad)) \<noteq> SaltSizeBytes
          then fail (''advertisement salt must be '' @ itoa SaltSizeBytes @ '' bytes'')
          else if length (bs (ad_HashedPrefix ad)) \<noteq> AdvertPrefixLen
          then fail (''advertisement prefix must be '' @ itoa AdvertPrefixLen @ '' bytes'')
          else res_bind (ComputeSaltedPrefix cr fileHash (ad_Salt ad)) (\<lambda>prefix.
            Inr (list_all (\<lambda>i. bs (ad_HashedPrefix ad) ! i = bs prefix ! i) [0..<AdvertPrefixLen])))"

section \<open>Capabilities\<close>

definition capabilitySignableBytes :: "FileCapability \<Rightarrow> byte list" where
  "capabilitySignableBytes capability =
     ((bs (fc_FileHash capability) @ bs (fc_GrantedTo capability)) @ bs (fc_GrantedBy capability)) @ be64 (fc_ExpiresAt capability)"

definition CreateCapability ::
  "crypto_prims \<Rightarrow> slice \<Rightarrow> slice \<Rightarrow> slice \<Rightarrow> slice \<Rightarrow> int64 \<Rightarrow> FileCapability res" where
  "CreateCapability cr fileHash grantedTo grantedByPubKey grantedByPrivateKey expiresAt =
     (if length (bs fileHash) = 0 then fail ''file hash is required''
      else if length (bs grantedByPubKey) = 0 then fail ''grantedBy pubkey is required''
      else if length (bs grantedByPrivateKey) = 0 then fail ''grantedBy private key is required''
      else if sint expiresAt \<le> 0 then fail ''expiresAt must be > 0''
      else let cap = \<lparr>fc_FileHash = clone fileHash, fc_GrantedTo = clone grantedTo, fc_GrantedBy = clone grantedByPubKey,
                      fc_ExpiresAt = expiresAt, fc_Signature = None\<rparr>;
               signable = capabilitySignableBytes cap
           in res_bind (wrap_err ''sign capability: '' (Sign cr grantedByPrivateKey signable)) (\<lambda>sig.
              Inr (cap\<lparr>fc_Signature := sig\<rparr>)))"

definition ValidateCapability :: "crypto_prims \<Rightarrow> FileCapability option \<Rightarrow> slice \<Rightarrow> int64 \<Rightarrow> unit res" where
  "ValidateCapability cr capability requesterPubKey now =
     (case capability of
        None \<Rightarrow> fail ''capability is required''
      | Some c \<Rightarrow>
          if length (bs (fc_FileHash c)) = 0 then fail ''capability file hash is required''
          else if length (bs (fc_GrantedBy c)) = 0 then fail ''capability grantedBy is required''
          else if length (bs (fc_Signature c)) = 0 then fail ''capability signature is required''
          else if sint (fc_ExpiresAt c) \<le> sint now then fail ''capability expired''
          else if 0 < length (bs (fc_GrantedTo c)) \<and> \<not> bytes_Equal (fc_GrantedTo c) requesterPubKey
          then fail ''capability not granted to requester''
          else let signable = capabilitySignableBytes c in
            res_bind (wrap_err ''verify capability: '' (Verify cr (fc_GrantedBy c) signable (fc_Signature c))) (\<lambda>ok.
            if \<not> ok then fail ''invalid capability signature'' else Inr ()))"

section \<open>Properties\<close>

text \<open>The index as the set of available chunks, and the operations on it.\<close>

definition available :: "FileIndex \<Rightarrow> (byte list \<times> uint32) set" where
  "available f = {(h, i). \<exists>s. fi_files f h = Some s \<and> i \<in> s}"

datatype index_op = OpAdd slice "uint32 list" | OpRemove slice

primrec index_step :: "index_op \<Rightarrow> FileIndex \<Rightarrow> FileIndex res" where
  "index_step (OpAdd h is) f = AddFile h is (Some f)"
| "index_step (OpRemove h) f = RemoveFile h (Some f)"

fun index_run :: "index_op list \<Rightarrow> FileIndex \<Rightarrow> FileIndex" where
  "index_run [] f = f"
| "index_run (op # ops) f = index_run ops (case index_step op f of Inr f' \<Rightarrow> f' | Inl _ \<Rightarrow> f)"

fun spec_run :: "index_op list \<Rightarrow> (byte list \<times> uint32) set \<Rightarrow> (byte list \<times> uint32) set" where
  "spec_run [] S = S"
| "spec_run (OpAdd h is # ops) S = spec_run ops (if bs h = [] then S else S \<union> {bs h} \<times> set is)"
| "spec_run (OpRemove h # ops) S = spec_run ops (S - {bs h} \<times> UNIV)"

definition index_ok :: "FileIndex \<Rightarrow> bool" where
  "index_ok f \<longleftrightarrow> fi_files f [] = None \<and> (\<forall>h. fi_files f h \<noteq> Some {})"

lemma fold_insert_list: "fold insert xs S = S \<union> set xs"
  by (induction xs arbitrary: S) auto

lemma index_step_ok: "index_ok f \<Longrightarrow> index_step op f = Inr f' \<Longrightarrow> index_ok f'"
  by (cases op) (auto simp: index_ok_def AddFile_def RemoveFile_def Let_def fold_insert_list split: if_splits)

lemma available_AddFile:
  "available (case AddFile h is (Some f) of Inr f' \<Rightarrow> f' | Inl _ \<Rightarrow> f) = (if bs h = [] then available f else available f \<union> {bs h} \<times> set is)"
  by (auto simp: AddFile_def available_def Let_def fold_insert_list fail_def split: option.splits if_splits)

lemma available_RemoveFile:
  "index_ok f \<Longrightarrow> available (case RemoveFile h (Some f) of Inr f' \<Rightarrow> f' | Inl _ \<Rightarrow> f) = available f - {bs h} \<times> UNIV"
  by (auto simp: RemoveFile_def available_def index_ok_def fail_def split: if_splits)

lemma available_run: "index_ok f \<Longrightarrow> index_ok (index_run ops f) \<and> available (index_run ops f) = spec_run ops (available f)"
proof (induction ops arbitrary: f)
  case (Cons op ops)
  let ?f = "case index_step op f of Inr f' \<Rightarrow> f' | Inl _ \<Rightarrow> f"
  have "index_ok ?f" using Cons.prems index_step_ok by (auto split: sum.split)
  with Cons.IH show ?case
    using available_AddFile available_RemoveFile [OF Cons.prems] by (cases op) simp_all
qed simp

text \<open>
  C28. The file index implements a set of available chunks: after any sequence of additions and
  removals (refused ones included), a chunk is reported exactly when it was added after the last
  removal of its file, a file is reported exactly when some chunk of it is, and the listed chunks
  are those reported, whatever the iteration order.
\<close>

theorem file_index_refines_set:
  assumes "f = index_run ops NewFileIndex" and "\<forall>S. finite S \<longrightarrow> set (order S) = S"
  shows "HasChunk h i (Some f) = ((bs h, i) \<in> spec_run ops {}) \<and>
    HasFile h (Some f) = (\<exists>i. (bs h, i) \<in> spec_run ops {}) \<and>
    set (GetAvailableChunks order h (Some f)) = {i. (bs h, i) \<in> spec_run ops {}}"
proof -
  have "index_ok NewFileIndex" "available NewFileIndex = {}" by (simp_all add: index_ok_def NewFileIndex_def available_def)
  hence ok: "index_ok f" and av: "available f = spec_run ops {}" using available_run assms(1) by simp_all
  have "set (order S) = S" for S using assms(2) by simp
  with ok show ?thesis unfolding av [symmetric]
    by (auto simp: HasChunk_def HasFile_def GetAvailableChunks_def available_def index_ok_def ex_in_conv split: option.splits)
qed

theorem file_index_refines_set_witness:
  "HasChunk (Some [1]) 3 (Some (index_run [OpAdd (Some [1]) [2, 3], OpRemove (Some [2])] NewFileIndex)) \<and>
   \<not> HasChunk (Some [1]) 3 (Some (index_run [OpAdd (Some [1]) [2, 3], OpRemove (Some [1])] NewFileIndex))"
  using file_index_refines_set [OF refl, of sorted_list_of_set "Some [1]" 3 "[OpAdd (Some [1]) [2, 3], OpRemove (Some [2])]"]
    file_index_refines_set [OF refl, of sorted_list_of_set "Some [1]" 3 "[OpAdd (Some [1]) [2, 3], OpRemove (Some [1])]"]
  by simp

lemma ComputeSaltedPrefix_eq_Inr:
  "ComputeSaltedPrefix cr h salt = Inr p \<longleftrightarrow>
     bs h \<noteq> [] \<and> length (bs salt) = 8 \<and> p = Some (take 4 (Hash cr (bs h @ bs salt)))"
  by (auto simp: ComputeSaltedPrefix_def Let_def SaltSizeBytes_def AdvertPrefixLen_def)

lemma generated_matches:
  assumes "sha256_ok cr" and "length salt = 8" and "GenerateAdvertisement cr (Inr salt) h = Inr ad" and "bs f \<noteq> []"
  shows "MatchAdvertisement cr (Some ad) f = Inr (take 4 (Hash cr (bs f @ salt)) = take 4 (Hash cr (bs h @ salt)))"
proof -
  from assms(3) have ad: "ad = \<lparr>ad_Salt = Some salt, ad_HashedPrefix = Some (take 4 (Hash cr (bs h @ salt)))\<rparr>"
    by (auto simp: GenerateAdvertisement_def res_bind_eq_Inr ComputeSaltedPrefix_eq_Inr split: if_splits)
  have "ComputeSaltedPrefix cr f (Some salt) = Inr (Some (take 4 (Hash cr (bs f @ salt))))"
    using assms(2,4) by (simp add: ComputeSaltedPrefix_eq_Inr)
  moreover have "length (take 4 (Hash cr x)) = 4" for x using length_Hash [OF assms(1)] by simp
  ultimately show ?thesis using assms(2)
    by (auto simp: MatchAdvertisement_def ad SaltSizeBytes_def AdvertPrefixLen_def list_all_iff intro!: nth_equalityI)
      (metis nth_take)
qed

lemma unadvertised_empty_match: "bs f = [] \<Longrightarrow> \<exists>e. MatchAdvertisement cr (Some ad) f = Inl (Err e)"
  by (auto simp: MatchAdvertisement_def ComputeSaltedPrefix_def fail_def Let_def)

text \<open>
  An advertisement of a file matches that file; it matches another file exactly when the
  salted digests agree in their first four bytes.
\<close>

theorem advertisement_matches:
  assumes "sha256_ok cr" and "length salt = 8" and "GenerateAdvertisement cr (Inr salt) h = Inr ad" and "bs g \<noteq> []"
  shows "MatchAdvertisement cr (Some ad) h = Inr True \<and>
    MatchAdvertisement cr (Some ad) g = Inr (take 4 (Hash cr (bs g @ salt)) = take 4 (Hash cr (bs h @ salt)))"
proof -
  from assms(3) have "bs h \<noteq> []" by (auto simp: GenerateAdvertisement_def split: if_splits)
  from generated_matches [OF assms(1-3) this] generated_matches [OF assms] show ?thesis by simp
qed

theorem advertisement_matches_witness:
  "\<exists>ad. GenerateAdvertisement demo_crypto (Inr (replicate 8 1)) (Some [5]) = Inr ad \<and>
     MatchAdvertisement demo_crypto (Some ad) (Some [5]) = Inr True \<and> MatchAdvertisement demo_crypto (Some ad) (Some [6]) = Inr False"
proof -
  obtain ad where ad: "GenerateAdvertisement demo_crypto (Inr (replicate 8 1)) (Some [5]) = Inr ad"
    by (simp add: GenerateAdvertisement_def ComputeSaltedPrefix_def Let_def SaltSizeBytes_def)
  from advertisement_matches [OF demo_sha256_ok _ ad, of "Some [6]"] ad show ?thesis
    by (auto simp: Hash_def demo_crypto_def)
qed

lemma ValidateCapability_iff:
  "ValidateCapability cr (Some c) req now = Inr () \<longleftrightarrow>
     bs (fc_FileHash c) \<noteq> [] \<and> bs (fc_Signature c) \<noteq> [] \<and> sint now < sint (fc_ExpiresAt c) \<and>
     (bs (fc_GrantedTo c) = [] \<or> bs (fc_GrantedTo c) = bs req) \<and>
     length (bs (fc_GrantedBy c)) = 32 \<and>
     ed25519_Verify cr (bs (fc_GrantedBy c)) (capabilitySignableBytes c) (bs (fc_Signature c))"
  by (auto simp: ValidateCapability_def Let_def res_bind_eq_Inr Verify_eq_Inr bytes_Equal_def)

text \<open>
  C29. A capability made with a key pair is accepted, until it expires, from exactly the requesters
  it was granted to: everybody for a bearer capability, the named key otherwise.
\<close>

theorem capability_roundtrip:
  assumes "keypair_ok cr pub priv" and "\<forall>m. ed25519_Sign cr priv m \<noteq> []"
    and "CreateCapability cr h to (Some pub) (Some priv) expires = Inr c"
  shows "ValidateCapability cr (Some c) req now = Inr () \<longleftrightarrow>
    sint now < sint expires \<and> (bs to = [] \<or> bs to = bs req)"
proof -
  let ?c = "\<lparr>fc_FileHash = clone h, fc_GrantedTo = clone to, fc_GrantedBy = clone (Some pub), fc_ExpiresAt = expires, fc_Signature = None\<rparr>"
  from assms(3) have c: "c = ?c\<lparr>fc_Signature := Some (ed25519_Sign cr priv (capabilitySignableBytes ?c))\<rparr>" and h: "bs h \<noteq> []"
    by (auto simp: CreateCapability_def Let_def res_bind_eq_Inr Sign_eq_Inr split: if_splits)
  have "capabilitySignableBytes c = capabilitySignableBytes ?c" by (simp add: c capabilitySignableBytes_def)
  moreover have "ed25519_Verify cr pub (capabilitySignableBytes ?c) (ed25519_Sign cr priv (capabilitySignableBytes ?c))" "length pub = 32"
    using assms(1) by (simp_all add: keypair_ok_def)
  ultimately show ?thesis
    using h assms(2) by (auto simp: ValidateCapability_iff c)
qed

theorem capability_roundtrip_witness:
  "\<exists>c. CreateCapability demo_crypto (Some [5]) (Some (demo_pub 2)) (Some (demo_pub 1)) (Some (demo_priv 1)) 100 = Inr c \<and>
     ValidateCapability demo_crypto (Some c) (Some (demo_pub 2)) 50 = Inr () \<and>
     ValidateCapability demo_crypto (Some c) (Some (demo_pub 3)) 50 \<noteq> Inr ()"
proof -
  obtain c where c: "CreateCapability demo_crypto (Some [5]) (Some (demo_pub 2)) (Some (demo_pub 1)) (Some (demo_priv 1)) 100 = Inr c"
    by (simp add: CreateCapability_def Let_def Sign_def PrivateKeySize_def demo_priv_def demo_pub_def)
  have ne: "\<forall>m. ed25519_Sign demo_crypto (demo_priv 1) m \<noteq> []" by (simp add: demo_crypto_def demo_priv_def)
  have "demo_pub 2 \<noteq> []" "demo_pub 2 \<noteq> demo_pub 3" by (simp_all add: demo_pub_def)
  with c capability_roundtrip [OF demo_keypair_ok ne c] show ?thesis by simp
qed

text \<open>
  The signed bytes of a capability have no field boundaries: from a capability granted to one
  requester, anybody can make, without the private key, a bearer capability (for the file hash
  extended by that requester's key) that is accepted from every requester.
\<close>

theorem capability_boundary_shift:
  assumes "ValidateCapability cr (Some c) req now = Inr ()"
    and "c' = c\<lparr>fc_FileHash := Some (bs (fc_FileHash c) @ bs (fc_GrantedTo c)), fc_GrantedTo := None\<rparr>"
  shows "ValidateCapability cr (Some c') anybody now = Inr ()"
proof -
  have "capabilitySignableBytes c' = capabilitySignableBytes c" by (simp add: assms(2) capabilitySignableBytes_def)
  with assms show ?thesis by (simp add: ValidateCapability_iff)
qed

theorem capability_boundary_shift_witness:
  "ValidateCapability demo_crypto (Some \<lparr>fc_FileHash = Some (5 # demo_pub 2), fc_GrantedTo = None, fc_GrantedBy = Some (demo_pub 1),
     fc_ExpiresAt = 100, fc_Signature = Some (demo_pub 1 @ 5 # demo_pub 2 @ demo_pub 1 @ be64 100)\<rparr>) (Some (demo_pub 3)) 50 = Inr ()"
proof -
  let ?c = "\<lparr>fc_FileHash = Some [5], fc_GrantedTo = Some (demo_pub 2), fc_GrantedBy = Some (demo_pub 1),
     fc_ExpiresAt = 100, fc_Signature = Some (demo_pub 1 @ 5 # demo_pub 2 @ demo_pub 1 @ be64 100)\<rparr>"
  have "ValidateCapability demo_crypto (Some ?c) (Some (demo_pub 2)) 50 = Inr ()"
    by (simp add: ValidateCapability_iff capabilitySignableBytes_def demo_crypto_def demo_pub_def)
  from capability_boundary_shift [OF this refl, of "Some (demo_pub 3)"] show ?thesis by simp
qed

end
