(* ===== verification/Gossip.thy ===== *)
theory Gossip
  imports Store_Props Go_State
begin

text \<open>
  The package \<open>gossip/\<close>: the payload a node offers, the byte budget that trims it, and the effect
  of a received payload on the database.  Processing stops at the first error and keeps what was
  written before it.
\<close>

section \<open>Budget\<close>

definition ApplyByteBudget :: "GossipPayload option \<Rightarrow> int \<Rightarrow> GossipPayload option" where
  "ApplyByteBudget payload maxItems =
     (case payload of
        None \<Rightarrow> None
      | Some p \<Rightarrow>
          if maxItems \<le> 0 then payload
          else let remaining = nat maxItems in
            if length (gp_ForkEvidence p) > remaining
            then Some (p\<lparr>gp_ForkEvidence := take remaining (gp_ForkEvidence p), gp_PeerSummaries := [], gp_SeedingFiles := []\<rparr>)
            else let remaining = remaining - length (gp_ForkEvidence p) in
              if length (gp_PeerSummaries p) > remaining
              then Some (p\<lparr>gp_PeerSummaries := take remaining (gp_PeerSummaries p), gp_SeedingFiles := []\<rparr>)
              else let remaining = remaining - length (gp_PeerSummaries p) in
                if length (gp_SeedingFiles p) > remaining
                then Some (p\<lparr>gp_SeedingFiles := take remaining (gp_SeedingFiles p)\<rparr>)
                else Some p)"

section \<open>Building a payload\<close>

definition defaultPeerSummaryLimit :: int where "defaultPeerSummaryLimit = 256"
definition defaultGossipMaxItems :: int where "defaultGossipMaxItems = 256"

text \<open>\<open>x, err := load(); if err != nil && !errors.Is(err, sql.ErrNoRows) { return nil, wrap(err) }\<close>,
  with \<open>zero\<close> for \<open>x\<close> when the error is ignored.\<close>

definition or_no_rows :: "string \<Rightarrow> 'a \<Rightarrow> 'a res \<Rightarrow> 'a res" where
  "or_no_rows m zero r =
     (case r of Inl (Err e) \<Rightarrow> if errors_Is e ErrNoRows then Inr zero else Inl (Err (Wrapf m e))
      | Inl (Panic p) \<Rightarrow> Inl (Panic p) | Inr x \<Rightarrow> Inr x)"

definition buildSelfSummary :: "engine \<Rightarrow> int64 \<Rightarrow> Store \<Rightarrow> PeerInfo option res" where
  "buildSelfSummary en now store =
     (case GetIdentity en store of
        Inl (Err e) \<Rightarrow> if errors_Is e ErrNoRows then Inr None else Inl (Err (Wrapf ''load local identity: '' e))
      | Inl (Panic p) \<Rightarrow> Inl (Panic p)
      | Inr ident \<Rightarrow>
          res_bind (or_no_rows ''check local fork evidence: '' False (HasForkEvidence en (id_Pubkey ident) store)) (\<lambda>hasFork.
          Inr (Some \<lparr>pi_Pubkey = id_Pubkey ident, pi_ChainHead = id_ChainHead ident, pi_RecordIndex = id_ChainIndex ident,
            pi_Totals = Some \<lparr>ct_CumulativeSent = id_CumulativeSent ident, ct_CumulativeReceived = id_CumulativeReceived ident\<rparr>,
            pi_LastSeen = now, pi_HasForkEvidence = hasFork, pi_TransportType = ''unknown''\<rparr>)))"

definition BuildGossipPayload :: "engine \<Rightarrow> proto_lib \<Rightarrow> int64 \<Rightarrow> Store option \<Rightarrow> GossipPayload option res" where
  "BuildGossipPayload en pl now store =
     (case store of
        None \<Rightarrow> fail ''store is required''
      | Some store \<Rightarrow>
          res_bind (buildSelfSummary en now store) (\<lambda>selfSummary.
          res_bind (or_no_rows ''load peer summaries: '' [] (GetAllPeers en defaultPeerSummaryLimit store)) (\<lambda>ps.
          res_bind (case selfSummary of
              None \<Rightarrow> Inr (None, [])
            | Some self \<Rightarrow>
                res_bind (or_no_rows ''load latest checkpoint: '' None
                  (res_bind (GetLatestCheckpoint en pl (pi_Pubkey self) store) (\<lambda>c. Inr (Some c)))) (\<lambda>latest.
                res_bind (or_no_rows ''load fork evidence: '' [] (GetForkEvidence en pl (pi_Pubkey self) store)) (\<lambda>forks.
                Inr (latest, forks)))) (\<lambda>(latest, forks).
          res_bind (or_no_rows ''load seeding files: '' [] (ListFiles en defaultPeerSummaryLimit 0 store)) (\<lambda>fs.
          Inr (ApplyByteBudget (Some \<lparr>gp_SelfSummary = selfSummary, gp_PeerSummaries = map Some ps,
            gp_ForkEvidence = map Some forks, gp_SeedingFiles = map Some fs, gp_LatestCheckpoint = latest\<rparr>)
            defaultGossipMaxItems))))))"

section \<open>Processing a payload\<close>

text \<open>The loops on a store that is not nil, and the functions with their nil check.\<close>

definition propagateForks :: "engine \<Rightarrow> proto_lib \<Rightarrow> ForkEvidence option list \<Rightarrow> (Store, unit) op" where
  "propagateForks en pl evidence =
     st_each (\<lambda>e. case e of None \<Rightarrow> st_ret ()
       | Some _ \<Rightarrow> st_wrap ''insert fork evidence: '' (st_write (InsertForkEvidence en pl e))) evidence"

definition PropagateForkEvidence :: "engine \<Rightarrow> proto_lib \<Rightarrow> ForkEvidence option list \<Rightarrow> (Store option, unit) op" where
  "PropagateForkEvidence en pl evidence = on_store ''store is required'' (propagateForks en pl evidence)"

definition propagateLatest :: "engine \<Rightarrow> proto_lib \<Rightarrow> Checkpoint option \<Rightarrow> (Store, unit) op" where
  "propagateLatest en pl checkpoint =
     (case checkpoint of None \<Rightarrow> st_ret ()
      | Some _ \<Rightarrow> st_wrap ''insert checkpoint: '' (st_write (InsertCheckpoint en pl checkpoint)))"

definition PropagateCheckpoint :: "engine \<Rightarrow> proto_lib \<Rightarrow> Checkpoint option \<Rightarrow> (Store option, unit) op" where
  "PropagateCheckpoint en pl checkpoint = on_store ''store is required'' (propagateLatest en pl checkpoint)"

definition upsertSummary :: "engine \<Rightarrow> string \<Rightarrow> PeerInfo option \<Rightarrow> (Store, unit) op" where
  "upsertSummary en m peer =
     (case peer of None \<Rightarrow> st_ret () | Some _ \<Rightarrow> st_wrap m (st_write (UpsertPeer en peer)))"

definition insertSeedingFile :: "engine \<Rightarrow> FileMeta option \<Rightarrow> (Store, unit) op" where
  "insertSeedingFile en meta =
     (case meta of None \<Rightarrow> st_ret ()
      | Some _ \<Rightarrow> st_wrap ''insert seeding file metadata: '' (st_write (InsertFileMeta en meta)))"

definition processPayload :: "engine \<Rightarrow> proto_lib \<Rightarrow> GossipPayload option \<Rightarrow> (Store, unit) op" where
  "processPayload en pl payload =
     (case payload of
        None \<Rightarrow> st_lift (fail ''gossip payload is required'')
      | Some p \<Rightarrow>
          st_bind (upsertSummary en ''upsert self summary: '' (gp_SelfSummary p)) (\<lambda>_.
          st_bind (st_each (upsertSummary en ''upsert peer summary: '') (gp_PeerSummaries p)) (\<lambda>_.
          st_bind (propagateForks en pl (gp_ForkEvidence p)) (\<lambda>_.
          st_bind (propagateLatest en pl (gp_LatestCheckpoint p)) (\<lambda>_.
          st_each (insertSeedingFile en) (gp_SeedingFiles p))))))"

definition ProcessGossipPayload :: "engine \<Rightarrow> proto_lib \<Rightarrow> GossipPayload option \<Rightarrow> (Store option, unit) op" where
  "ProcessGossipPayload en pl payload = on_store ''store is required'' (processPayload en pl payload)"

text \<open>
  An exchange of payloads.  A transport is nil or the outcomes of its two calls: the error of
  \<open>Send\<close>, and the envelope or error of \<open>Recv\<close>.  The result also has the envelope that was sent.
\<close>

definition RunGossip ::
  "engine \<Rightarrow> proto_lib \<Rightarrow> int64 \<Rightarrow> string \<Rightarrow> (unit res \<times> Envelope option res) option \<Rightarrow> Store option \<Rightarrow>
   (unit res \<times> Store option) \<times> Envelope option" where
  "RunGossip en pl now peerID transport store =
     (if store = None then ((fail ''gossip session store is required'', store), None)
      else if peerID = [] then ((fail ''peer id is required'', store), None)
      else case transport of
        None \<Rightarrow> ((fail ''transport is required'', store), None)
      | Some (send, recv) \<Rightarrow>
          (case BuildGossipPayload en pl now store of
             Inl e \<Rightarrow> ((Inl e, store), None)
           | Inr payload \<Rightarrow>
               (let out = envelope (Envelope_Gossip payload) in
                case wrap_err ''send gossip payload: '' send of
                  Inl e \<Rightarrow> ((Inl e, store), Some out)
                | Inr _ \<Rightarrow>
                    (case wrap_err ''receive gossip payload: '' recv of
                       Inl e \<Rightarrow> ((Inl e, store), Some out)
                     | Inr resp \<Rightarrow>
                         if GetGossip resp = None then ((fail ''missing gossip response payload'', store), Some out)
                         else (st_wrap ''process gossip payload: '' (ProcessGossipPayload en pl (GetGossip resp)) store, Some out)))))"

section \<open>Properties\<close>

text \<open>
  C37. The byte budget keeps at most the given number of items and drops them in priority order:
  fork evidence is lost only when it alone exceeds the budget, peer summaries only after all files;
  what is kept are prefixes, and the self summary and the checkpoint are never dropped.
\<close>

theorem byte_budget_priorities:
  assumes "0 < maxItems" and "ApplyByteBudget (Some p) maxItems = Some t"
  shows "length (gp_ForkEvidence t) + length (gp_PeerSummaries t) + length (gp_SeedingFiles t) =
      min (nat maxItems) (length (gp_ForkEvidence p) + length (gp_PeerSummaries p) + length (gp_SeedingFiles p)) \<and>
    prefix (gp_ForkEvidence t) (gp_ForkEvidence p) \<and> prefix (gp_PeerSummaries t) (gp_PeerSummaries p) \<and>
    prefix (gp_SeedingFiles t) (gp_SeedingFiles p) \<and>
    (gp_ForkEvidence t \<noteq> gp_ForkEvidence p \<longrightarrow> gp_PeerSummaries t = []) \<and>
    (gp_PeerSummaries t \<noteq> gp_PeerSummaries p \<longrightarrow> gp_SeedingFiles t = []) \<and>
    gp_SelfSummary t = gp_SelfSummary p \<and> gp_LatestCheckpoint t = gp_LatestCheckpoint p"
  using assms by (auto simp: ApplyByteBudget_def Let_def take_is_prefix split: if_splits)

theorem byte_budget_priorities_witness:
  "\<exists>t. ApplyByteBudget (Some \<lparr>gp_SelfSummary = None, gp_PeerSummaries = [None, None, None], gp_ForkEvidence = [None, None],
     gp_SeedingFiles = [None, None], gp_LatestCheckpoint = None\<rparr>) 3 = Some t \<and>
     length (gp_ForkEvidence t) + length (gp_PeerSummaries t) + length (gp_SeedingFiles t) = 3"
proof -
  let ?p = "\<lparr>gp_SelfSummary = None, gp_PeerSummaries = [None, None, None], gp_ForkEvidence = [None, None],
     gp_SeedingFiles = [None, None], gp_LatestCheckpoint = None\<rparr>"
  obtain t where t: "ApplyByteBudget (Some ?p) 3 = Some t" by (simp add: ApplyByteBudget_def)
  from byte_budget_priorities [OF _ t] t show ?thesis by auto
qed

text \<open>
  A predicate on databases that every storage operation preserves, the insertion of a record when
  the record satisfies \<open>P\<close>.
\<close>

definition op_invariant :: "proto_lib \<Rightarrow> crypto_prims \<Rightarrow> (ShareRecord \<Rightarrow> bool) \<Rightarrow> (Store \<Rightarrow> bool) \<Rightarrow> bool" where
  "op_invariant pl cr P I \<longleftrightarrow>
     (\<forall>en op s s'. (\<forall>r. op = OpInsertRecord r \<longrightarrow> P r) \<longrightarrow> I s \<longrightarrow> exec_op pl cr en op s = Inr s' \<longrightarrow> I s')"

lemma op_invariantD:
  "op_invariant pl cr P I \<Longrightarrow> (\<And>r. op = OpInsertRecord r \<Longrightarrow> P r) \<Longrightarrow> I s \<Longrightarrow> exec_op pl cr en op s = Inr s' \<Longrightarrow> I s'"
  unfolding op_invariant_def by blast

lemma gossip_keeps:
  assumes inv: "op_invariant pl cr P I"
  shows "st_keeps I (upsertSummary en m p)" and "st_keeps I (propagateForks en pl es)"
    and "st_keeps I (propagateLatest en pl c)" and "st_keeps I (insertSeedingFile en f)"
proof -
  show "st_keeps I (upsertSummary en m p)"
    unfolding upsertSummary_def
    by (cases p) (auto intro!: st_keeps_write dest: op_invariantD [OF inv, where op = "OpUpsertPeer p" and en = en, simplified])
  show "st_keeps I (propagateForks en pl es)"
    unfolding propagateForks_def
  proof (rule st_keeps_each)
    fix e
    show "st_keeps I (case e of None \<Rightarrow> st_ret () | Some _ \<Rightarrow> st_wrap ''insert fork evidence: '' (st_write (InsertForkEvidence en pl e)))"
      by (cases e) (auto intro!: st_keeps_write dest: op_invariantD [OF inv, where op = "OpInsertForkEvidence e" and en = en, simplified])
  qed
  show "st_keeps I (propagateLatest en pl c)"
    unfolding propagateLatest_def
    by (cases c) (auto intro!: st_keeps_write dest: op_invariantD [OF inv, where op = "OpInsertCheckpoint c" and en = en, simplified])
  show "st_keeps I (insertSeedingFile en f)"
    unfolding insertSeedingFile_def
    by (cases f) (auto intro!: st_keeps_write dest: op_invariantD [OF inv, where op = "OpInsertFileMeta f" and en = en, simplified])
qed

lemma processPayload_keeps:
  assumes "op_invariant pl cr P I"
  shows "st_keeps I (processPayload en pl payload)"
proof -
  note ks = gossip_keeps [OF assms]
  show ?thesis
    unfolding processPayload_def by (cases payload) (auto intro!: st_keeps_bind st_keeps_each ks)
qed

text \<open>
  Whatever a peer sends, processing its payload, complete or stopped by an error or a panic,
  keeps the database well formed and loses no share record and no fork evidence.
\<close>

theorem gossip_keeps_store:
  assumes "store_ok s" and "ProcessGossipPayload en pl payload (Some s) = (r, Some s')"
  shows "store_ok s' \<and> prefix (share_records s) (share_records s') \<and> prefix (fork_evidence s) (fork_evidence s')"
proof -
  have s': "s' = snd (processPayload en pl payload s)"
    using assms(2) by (auto simp: ProcessGossipPayload_def on_store_def split: prod.splits)
  let ?I = "\<lambda>t. store_ok t \<and> prefix (share_records s) (share_records t) \<and> prefix (fork_evidence s) (fork_evidence t)"
  have "st_keeps ?I (processPayload en pl payload)"
    by (rule processPayload_keeps [of _ demo_crypto "\<lambda>_. True"])
      (auto simp: op_invariant_def intro: exec_op_store_ok dest: exec_op_append_only intro: prefix_order.trans)
  from st_keepsD [OF this, of s] assms(1) show ?thesis by (simp add: s')
qed

theorem gossip_keeps_store_witness:
  "\<exists>r s'. ProcessGossipPayload demo_engine demo_proto None (Some demo_store) = (r, Some s') \<and> store_ok s'"
proof -
  obtain r s' where p: "ProcessGossipPayload demo_engine demo_proto None (Some demo_store) = (r, Some s')"
    by (simp add: ProcessGossipPayload_def on_store_def processPayload_def st_lift_def)
  have "store_ok demo_store"
    using exec_op_store_ok [OF store_ok_empty, of demo_proto demo_crypto demo_engine "OpInsertRecord demo_record" demo_store] demo_insert
    by simp
  from gossip_keeps_store [OF this p] p show ?thesis by blast
qed

text \<open>
  Two ways in which a payload stops the processing: a self summary without totals panics, and
  a file that is already known is an error wherever it is listed, so that a second exchange with
  the same peer never succeeds once one of its files was received.
\<close>

theorem gossip_known_file_or_missing_totals:
  assumes "driver_ok en"
  shows "(gp_SelfSummary p = Some peer \<and> pi_Totals peer = None \<longrightarrow>
      (\<exists>pn. ProcessGossipPayload en pl (Some p) (Some s) = (Inl (Panic pn), Some s))) \<and>
    (Some f \<in> set (gp_SeedingFiles p) \<and> select_row fr_file_hash (fm_FileHash f) (files s) \<noteq> None \<longrightarrow>
      (\<forall>s'. ProcessGossipPayload en pl (Some p) (Some s) \<noteq> (Inr (), s')))"
proof (intro conjI impI allI)
  assume "gp_SelfSummary p = Some peer \<and> pi_Totals peer = None"
  thus "\<exists>pn. ProcessGossipPayload en pl (Some p) (Some s) = (Inl (Panic pn), Some s)"
    by (simp add: ProcessGossipPayload_def on_store_def processPayload_def st_defs upsertSummary_def UpsertPeer_def nil_deref_def)
next
  fix s'
  let ?I = "\<lambda>t. select_row fr_file_hash (fm_FileHash f) (files t) \<noteq> None"
  assume f: "Some f \<in> set (gp_SeedingFiles p) \<and> select_row fr_file_hash (fm_FileHash f) (files s) \<noteq> None"
  have "op_invariant pl demo_crypto (\<lambda>_. True) ?I"
    unfolding op_invariant_def by (auto dest: exec_op_append_only(4) select_row_prefix)
  note ks = gossip_keeps [OF this]
  show "ProcessGossipPayload en pl (Some p) (Some s) \<noteq> (Inr (), s')"
  proof
    assume "ProcessGossipPayload en pl (Some p) (Some s) = (Inr (), s')"
    then obtain t1 t2 t3 t4 u where steps:
      "upsertSummary en ''upsert self summary: '' (gp_SelfSummary p) s = (Inr (), t1)"
      "st_each (upsertSummary en ''upsert peer summary: '') (gp_PeerSummaries p) t1 = (Inr (), t2)"
      "propagateForks en pl (gp_ForkEvidence p) t2 = (Inr (), t3)"
      "propagateLatest en pl (gp_LatestCheckpoint p) t3 = (Inr (), t4)"
      and files: "st_each (insertSeedingFile en) (gp_SeedingFiles p) t4 = (Inr (), u)"
      by (auto simp: ProcessGossipPayload_def on_store_def processPayload_def st_bind_Inr split: prod.splits)
    from f have "?I s" by simp
    note t1 = st_keeps_step [where I = ?I, OF ks(1) steps(1) this]
    note t2 = st_keeps_step [where I = ?I, OF st_keeps_each [OF ks(1)] steps(2) t1]
    note t3 = st_keeps_step [where I = ?I, OF ks(2) steps(3) t2]
    note t4 = st_keeps_step [where I = ?I, OF ks(3) steps(4) t3]
    with st_each_reaches [OF files, of "Some f" ?I] f ks(4) obtain t v t' where t: "?I t" "insertSeedingFile en (Some f) t = (Inr v, t')"
      by blast
    with assms show False
      by (auto simp: insertSeedingFile_def st_wrap_Inr st_write_Inr InsertFileMeta_def stmt_Inr dest: select_row_Some)
  qed
qed

theorem gossip_known_file_or_missing_totals_witness:
  "\<exists>pn. ProcessGossipPayload demo_engine demo_proto (Some \<lparr>gp_SelfSummary = Some \<lparr>pi_Pubkey = Some [1], pi_ChainHead = None,
      pi_RecordIndex = 1, pi_Totals = None, pi_LastSeen = 7, pi_HasForkEvidence = False, pi_TransportType = ''ble''\<rparr>,
      gp_PeerSummaries = [], gp_ForkEvidence = [], gp_SeedingFiles = [], gp_LatestCheckpoint = None\<rparr>) (Some empty_store)
     = (Inl (Panic pn), Some empty_store)"
  (is "\<exists>pn. ProcessGossipPayload _ _ (Some ?p) _ = _")
  using gossip_known_file_or_missing_totals [OF demo_engine_ok, of ?p] by simp

end
