(* ===== verification/Batch.thy ===== *)
theory Batch
  imports Crypto Wire_Types "HOL-Library.Sublist"
begin

text \<open>
  The file \<open>transfer/batch.go\<close>: which peers provide which chunks, and batches of chunks read from
  and written to the file storage.  The storage is an interface that the application implements;
  its three methods are a parameter that works on a state of its own.
\<close>

section \<open>File storage\<close>

record 'f FileStorage =
  fs_ReadChunk :: "slice \<Rightarrow> uint32 \<Rightarrow> 'f \<Rightarrow> slice res"
  fs_WriteChunk :: "slice \<Rightarrow> uint32 \<Rightarrow> slice \<Rightarrow> 'f \<Rightarrow> unit res \<times> 'f"
  fs_HasChunk :: "slice \<Rightarrow> uint32 \<Rightarrow> 'f \<Rightarrow> bool res"

section \<open>Multi-source plan\<close>

record ChunkRange =
  Start :: uint32
  End :: uint32

record MultiSourcePlan =
  peerRanges :: "string \<rightharpoonup> ChunkRange list"
  chunkProviders :: "uint32 \<rightharpoonup> string set"

definition NewMultiSourcePlan :: MultiSourcePlan where
  "NewMultiSourcePlan = \<lparr>peerRanges = Map.empty, chunkProviders = Map.empty\<rparr>"

definition addProvider :: "string \<Rightarrow> uint32 \<Rightarrow> (uint32 \<rightharpoonup> string set) \<Rightarrow> (uint32 \<rightharpoonup> string set)" where
  "addProvider peerID idx prov = prov(idx \<mapsto> insert peerID (case prov idx of None \<Rightarrow> {} | Some s \<Rightarrow> s))"

text \<open>\<open>for idx := r.Start; idx <= r.End; idx++\<close>: the index wraps around after \<open>2\<^sup>3\<^sup>2 - 1\<close>.  The result
  is \<open>None\<close> when the loop does not end.\<close>

partial_function (option) addChunks ::
  "string \<Rightarrow> uint32 \<Rightarrow> uint32 \<Rightarrow> (uint32 \<rightharpoonup> string set) \<Rightarrow> (uint32 \<rightharpoonup> string set) option" where
  "addChunks peerID idx lim prov =
     (if idx \<le> lim then addChunks peerID (idx + 1) lim (addProvider peerID idx prov) else Some prov)"

text \<open>The plan keeps the ranges that were added before an invalid one.\<close>

fun addRanges :: "string \<Rightarrow> ChunkRange list \<Rightarrow> MultiSourcePlan \<Rightarrow> (unit res \<times> MultiSourcePlan) option" where
  "addRanges peerID [] m = Some (Inr (), m)"
| "addRanges peerID (r # rs) m =
     (if End r < Start r
      then Some (fail (''invalid chunk range: '' @ itoa (unat (Start r)) @ ''-'' @ itoa (unat (End r))), m)
      else Option.bind (addChunks peerID (Start r) (End r) (chunkProviders m)) (\<lambda>prov.
        addRanges peerID rs
          (m\<lparr>peerRanges := (peerRanges m)(peerID \<mapsto> (case peerRanges m peerID of None \<Rightarrow> [] | Some l \<Rightarrow> l) @ [r]),
             chunkProviders := prov\<rparr>)))"

definition AddPeerRanges :: "string \<Rightarrow> ChunkRange list \<Rightarrow> MultiSourcePlan option \<Rightarrow> (unit res \<times> MultiSourcePlan option) option" where
  "AddPeerRanges peerID ranges m =
     (case m of
        None \<Rightarrow> Some (fail ''plan is nil'', None)
      | Some p \<Rightarrow>
          if peerID = [] then Some (fail ''peer id is required'', m)
          else if length ranges = 0 then Some (fail ''at least one range is required'', m)
          else Option.bind (addRanges peerID ranges p) (\<lambda>(r, p'). Some (r, Some p')))"

definition ProvidersForChunk :: "(string set \<Rightarrow> string list) \<Rightarrow> uint32 \<Rightarrow> MultiSourcePlan option \<Rightarrow> string list" where
  "ProvidersForChunk order chunkIndex m =
     (case m of None \<Rightarrow> []
      | Some p \<Rightarrow> (case chunkProviders p chunkIndex of None \<Rightarrow> [] | Some s \<Rightarrow> order s))"

definition RangesForPeer :: "string \<Rightarrow> MultiSourcePlan option \<Rightarrow> ChunkRange list" where
  "RangesForPeer peerID m =
     (case m of None \<Rightarrow> [] | Some p \<Rightarrow> (case peerRanges p peerID of None \<Rightarrow> [] | Some l \<Rightarrow> l))"

text \<open>\<open>Merge\<close> iterates over a snapshot of the other plan, whose peers come in some order.\<close>

definition snapshotPeerRanges :: "string list \<Rightarrow> MultiSourcePlan \<Rightarrow> (string \<times> ChunkRange list) list" where
  "snapshotPeerRanges order p = [(peerID, ranges). peerID \<leftarrow> order, Some ranges \<leftarrow> [peerRanges p peerID]]"

fun mergeLoop :: "(string \<times> ChunkRange list) list \<Rightarrow> MultiSourcePlan option \<Rightarrow> (unit res \<times> MultiSourcePlan option) option" where
  "mergeLoop [] m = Some (Inr (), m)"
| "mergeLoop ((peerID, ranges) # rest) m =
     Option.bind (AddPeerRanges peerID ranges m) (\<lambda>(r, m').
       case r of Inl e \<Rightarrow> Some (Inl e, m') | Inr _ \<Rightarrow> mergeLoop rest m')"

definition Merge :: "string list \<Rightarrow> MultiSourcePlan option \<Rightarrow> MultiSourcePlan option \<Rightarrow> (unit res \<times> MultiSourcePlan option) option" where
  "Merge order other m =
     (case m of
        None \<Rightarrow> Some (fail ''plan is nil'', None)
      | Some _ \<Rightarrow> (case other of None \<Rightarrow> Some (Inr (), m) | Some p \<Rightarrow> mergeLoop (snapshotPeerRanges order p) m))"

section \<open>Batches\<close>

definition MaxChunksPerBatch :: nat where
  "MaxChunksPerBatch = 64"

fun readChunks :: "'f FileStorage \<Rightarrow> slice \<Rightarrow> 'f \<Rightarrow> uint32 list \<Rightarrow> ChunkData option list res" where
  "readChunks st fileHash s [] = Inr []"
| "readChunks st fileHash s (idx # rest) =
     res_bind (wrap_err (''read chunk '' @ itoa (unat idx) @ '': '') (fs_ReadChunk st fileHash idx s)) (\<lambda>data.
     res_bind (readChunks st fileHash s rest) (\<lambda>chunks.
     Inr (Some \<lparr>cd_ChunkIndex = idx, cd_Data = data\<rparr> # chunks)))"

definition BuildBatch :: "'f FileStorage option \<Rightarrow> slice \<Rightarrow> uint32 list \<Rightarrow> int \<Rightarrow> 'f \<Rightarrow> ChunkBatch res" where
  "BuildBatch storage fileHash chunkIndices maxChunks s =
     (case storage of
        None \<Rightarrow> fail ''storage is required''
      | Some st \<Rightarrow>
          if length (bs fileHash) = 0 then fail ''file hash is required''
          else if maxChunks \<le> 0 then fail ''max chunks must be > 0''
          else if maxChunks > int MaxChunksPerBatch
          then fail (''max chunks exceeds protocol limit: '' @ itoa_s maxChunks @ '' > '' @ itoa MaxChunksPerBatch)
          else if length chunkIndices = 0 then fail ''chunk indices are required''
          else if int (length chunkIndices) > maxChunks
          then fail (''requested chunks exceed maxChunks: '' @ itoa (length chunkIndices) @ '' > '' @ itoa_s maxChunks)
          else if length chunkIndices > MaxChunksPerBatch
          then fail (''requested chunks exceed protocol limit: '' @ itoa (length chunkIndices) @ '' > '' @ itoa MaxChunksPerBatch)
          else res_bind (readChunks st fileHash s chunkIndices) (\<lambda>chunks.
            Inr \<lparr>cb_FileHash = clone fileHash, cb_Chunks = chunks\<rparr>))"

text \<open>Every chunk is checked before it is written; a bad chunk stops the loop after the good ones
  before it were stored.\<close>

fun verifyLoop ::
  "crypto_prims \<Rightarrow> 'f FileStorage \<Rightarrow> slice \<Rightarrow> slice list \<Rightarrow> uint32 list \<Rightarrow> ChunkData option list \<Rightarrow> 'f \<Rightarrow> uint32 list res \<times> 'f" where
  "verifyLoop cr st fileHash chunkHashes verified [] s = (Inr verified, s)"
| "verifyLoop cr st fileHash chunkHashes verified (chunk # rest) s =
     (case chunk of
        None \<Rightarrow> (fail ''batch contains nil chunk'', s)
      | Some c \<Rightarrow>
          let idx = cd_ChunkIndex c in
          if unat idx \<ge> length chunkHashes then (fail (''chunk index out of range: '' @ itoa (unat idx)), s)
          else let expectedHash = chunkHashes ! unat idx; computedHash = Hash cr (bs (cd_Data c)) in
            if \<not> bytes_Equal expectedHash (Some computedHash)
            then (fail (''chunk hash mismatch at index '' @ itoa (unat idx)), s)
            else case fs_WriteChunk st fileHash idx (cd_Data c) s of (r, s') \<Rightarrow>
              (case wrap_err (''write chunk '' @ itoa (unat idx) @ '': '') r of
                 Inl e \<Rightarrow> (Inl e, s')
               | Inr _ \<Rightarrow> verifyLoop cr st fileHash chunkHashes (verified @ [idx]) rest s'))"

definition VerifyAndStoreBatch ::
  "crypto_prims \<Rightarrow> ChunkBatch option \<Rightarrow> FileMeta option \<Rightarrow> 'f FileStorage option \<Rightarrow> 'f \<Rightarrow> uint32 list res \<times> 'f" where
  "VerifyAndStoreBatch cr batch meta storage s =
     (case batch of None \<Rightarrow> (fail ''batch is required'', s)
      | Some b \<Rightarrow>
     (case meta of None \<Rightarrow> (fail ''file metadata is required'', s)
      | Some m \<Rightarrow>
     (case storage of None \<Rightarrow> (fail ''storage is required'', s)
      | Some st \<Rightarrow>
          if \<not> bytes_Equal (cb_FileHash b) (fm_FileHash m) then (fail ''batch file hash does not match metadata'', s)
          else if length (cb_Chunks b) > MaxChunksPerBatch
          then (fail (''batch exceeds protocol max chunks: '' @ itoa (length (cb_Chunks b)) @ '' > '' @ itoa MaxChunksPerBatch), s)
          else verifyLoop cr st (cb_FileHash b) (fm_ChunkHashes m) [] (cb_Chunks b) s)))"

fun missingLoop :: "'f FileStorage \<Rightarrow> slice \<Rightarrow> 'f \<Rightarrow> uint32 list \<Rightarrow> uint32 list res" where
  "missingLoop st fileHash s [] = Inr []"
| "missingLoop st fileHash s (idx # rest) =
     res_bind (wrap_err (''check chunk '' @ itoa (unat idx) @ '': '') (fs_HasChunk st fileHash idx s)) (\<lambda>has.
     res_bind (missingLoop st fileHash s rest) (\<lambda>missing.
     Inr (if \<not> has then idx # missing else missing)))"

definition MissingChunkIndices :: "'f FileStorage option \<Rightarrow> slice \<Rightarrow> uint32 list \<Rightarrow> 'f \<Rightarrow> uint32 list res" where
  "MissingChunkIndices storage fileHash requestedIndices s =
     (case storage of
        None \<Rightarrow> fail ''storage is required''
      | Some st \<Rightarrow>
          if length (bs fileHash) = 0 then fail ''file hash is required''
          else missingLoop st fileHash s requestedIndices)"

section \<open>Properties of the plan\<close>

lemma addChunks_result_bound: "addChunks p idx lim prov = Some q \<Longrightarrow> lim \<noteq> - 1"
proof (rule addChunks.raw_induct [where P = "\<lambda>p idx lim prov q. lim \<noteq> - 1"])
  fix f p idx lim prov q
  assume "\<And>p idx lim prov q. f p idx lim prov = Some q \<Longrightarrow> lim \<noteq> - 1"
    and "(if idx \<le> lim then f p (idx + 1) lim (addProvider p idx prov) else Some prov) = Some q"
  thus "(lim :: uint32) \<noteq> - 1" by (cases "idx \<le> lim") auto
qed

lemma addChunks_diverges: "addChunks p idx (- 1) prov = None"
  using addChunks_result_bound [of p idx "- 1" prov] by (cases "addChunks p idx (- 1) prov") auto

lemma uint32_succ: "idx \<le> lim \<Longrightarrow> lim \<noteq> - 1 \<Longrightarrow> unat (idx + 1 :: uint32) = unat idx + 1"
proof -
  assume "idx \<le> lim" "lim \<noteq> - 1"
  hence "idx \<noteq> - 1" using word_order.extremum_unique by blast
  hence "1 + idx \<noteq> 0" by (metis add.commute eq_neg_iff_add_eq_0)
  thus ?thesis using unatSuc [of idx] by (simp add: add.commute)
qed

lemma addChunks_terminates:
  assumes "lim \<noteq> - 1"
  shows "addChunks p idx lim prov =
    Some (\<lambda>i. if idx \<le> i \<and> i \<le> lim then Some (insert p (case prov i of None \<Rightarrow> {} | Some s \<Rightarrow> s)) else prov i)"
proof (induction "Suc (unat lim) - unat idx" arbitrary: idx prov)
  case 0
  hence "\<not> idx \<le> lim" by (simp add: word_le_nat_alt)
  then show ?case by (subst addChunks.simps) (auto simp: fun_eq_iff)
next
  case (Suc n)
  hence le: "idx \<le> lim" by (simp add: word_le_nat_alt)
  note succ = uint32_succ [OF le assms]
  have "addChunks p (idx + 1) lim (addProvider p idx prov) =
    Some (\<lambda>i. if idx + 1 \<le> i \<and> i \<le> lim then Some (insert p (case addProvider p idx prov i of None \<Rightarrow> {} | Some s \<Rightarrow> s))
      else addProvider p idx prov i)"
    by (rule Suc.hyps(1)) (use Suc.hyps(2) succ in linarith)
  moreover have "idx + 1 \<le> i \<longleftrightarrow> idx \<le> i \<and> i \<noteq> idx" for i
    using succ by (auto simp: word_le_nat_alt unat_arith_simps intro: le_neq_implies_less)
  ultimately show ?case using le by (subst addChunks.simps) (auto simp: addProvider_def fun_eq_iff)
qed

definition providers :: "MultiSourcePlan \<Rightarrow> uint32 \<Rightarrow> string set" where
  "providers m i = (case chunkProviders m i of None \<Rightarrow> {} | Some s \<Rightarrow> s)"

lemma addRanges_spec:
  assumes "\<forall>r\<in>set rs. Start r \<le> End r" and "\<forall>r\<in>set rs. End r \<noteq> - 1"
  shows "\<exists>m'. addRanges p rs m = Some (Inr (), m') \<and>
    (\<forall>i. providers m' i = providers m i \<union> (if \<exists>r\<in>set rs. Start r \<le> i \<and> i \<le> End r then {p} else {})) \<and>
    RangesForPeer p (Some m') = RangesForPeer p (Some m) @ rs"
  using assms
proof (induction rs arbitrary: m)
  case (Cons r rs)
  let ?prov = "\<lambda>i. if Start r \<le> i \<and> i \<le> End r then Some (insert p (case chunkProviders m i of None \<Rightarrow> {} | Some s \<Rightarrow> s)) else chunkProviders m i"
  define m1 where "m1 = m\<lparr>peerRanges := (peerRanges m)(p \<mapsto> (case peerRanges m p of None \<Rightarrow> [] | Some l \<Rightarrow> l) @ [r]), chunkProviders := ?prov\<rparr>"
  have "addRanges p (r # rs) m = addRanges p rs m1"
    using Cons.prems addChunks_terminates [of "End r" p "Start r" "chunkProviders m"] by (auto simp: m1_def)
  moreover obtain m' where "addRanges p rs m1 = Some (Inr (), m')"
    "\<forall>i. providers m' i = providers m1 i \<union> (if \<exists>r\<in>set rs. Start r \<le> i \<and> i \<le> End r then {p} else {})"
    "RangesForPeer p (Some m') = RangesForPeer p (Some m1) @ rs"
    using Cons.IH [of m1] Cons.prems by auto
  moreover have "providers m1 i = providers m i \<union> (if Start r \<le> i \<and> i \<le> End r then {p} else {})" for i
    by (auto simp: m1_def providers_def)
  moreover have "RangesForPeer p (Some m1) = RangesForPeer p (Some m) @ [r]"
    by (simp add: m1_def RangesForPeer_def)
  ultimately show ?case by (intro exI [of _ m']) auto
qed simp

lemma addRanges_diverges:
  "\<forall>r\<in>set rs. Start r \<le> End r \<Longrightarrow> r0 \<in> set rs \<Longrightarrow> End r0 = - 1 \<Longrightarrow> addRanges p rs m = None"
proof (induction rs arbitrary: m)
  case (Cons r rs)
  show ?case
  proof (cases "End r = - 1")
    case True
    then show ?thesis using Cons.prems by (simp add: addChunks_diverges not_less)
  next
    case False
    then show ?thesis using Cons by (auto simp: addChunks_terminates not_less)
  qed
qed simp

text \<open>
  C30. Adding well-formed ranges of a peer makes it a provider of exactly the chunks in them and
  appends them to its ranges, provided no range ends at \<open>2\<^sup>3\<^sup>2 - 1\<close>: with such a range the call never
  returns, because the loop variable wraps around (and the plan's lock is held for ever).
\<close>

theorem add_peer_ranges_spec:
  assumes "peerID \<noteq> []" and "ranges \<noteq> []" and "\<forall>r\<in>set ranges. Start r \<le> End r"
  shows "((\<forall>r\<in>set ranges. End r \<noteq> - 1) \<longrightarrow>
      (\<exists>m'. AddPeerRanges peerID ranges (Some m) = Some (Inr (), Some m') \<and>
         (\<forall>i. providers m' i = providers m i \<union> (if \<exists>r\<in>set ranges. Start r \<le> i \<and> i \<le> End r then {peerID} else {})) \<and>
         RangesForPeer peerID (Some m') = RangesForPeer peerID (Some m) @ ranges)) \<and>
    ((\<exists>r\<in>set ranges. End r = - 1) \<longrightarrow> AddPeerRanges peerID ranges (Some m) = None)"
  using addRanges_spec [OF assms(3), of peerID m] addRanges_diverges [OF assms(3)] assms(1,2)
  by (auto simp: AddPeerRanges_def)

theorem add_peer_ranges_spec_witness:
  "AddPeerRanges ''p'' [\<lparr>Start = 3, End = - 1\<rparr>] (Some NewMultiSourcePlan) = None \<and>
   (\<exists>m'. AddPeerRanges ''p'' [\<lparr>Start = 3, End = 5\<rparr>] (Some NewMultiSourcePlan) = Some (Inr (), Some m') \<and> providers m' 4 = {''p''})"
proof -
  have "AddPeerRanges ''p'' [\<lparr>Start = 3, End = - 1\<rparr>] (Some NewMultiSourcePlan) = None"
    using add_peer_ranges_spec [of "''p''" "[\<lparr>Start = 3, End = - 1\<rparr>]" NewMultiSourcePlan] by simp
  moreover have "\<exists>m'. AddPeerRanges ''p'' [\<lparr>Start = 3, End = 5\<rparr>] (Some NewMultiSourcePlan) = Some (Inr (), Some m') \<and> providers m' 4 = {''p''}"
    using add_peer_ranges_spec [of "''p''" "[\<lparr>Start = 3, End = 5\<rparr>]" NewMultiSourcePlan]
    by (auto simp: providers_def NewMultiSourcePlan_def)
  ultimately show ?thesis by blast
qed

section \<open>Properties of batches\<close>

text \<open>A sequence of writes.\<close>

fun write_all :: "'f FileStorage \<Rightarrow> slice \<Rightarrow> (uint32 \<times> slice) list \<Rightarrow> 'f \<Rightarrow> 'f" where
  "write_all st h [] s = s"
| "write_all st h ((i, d) # ws) s = write_all st h ws (snd (fs_WriteChunk st h i d s))"

lemma verifyLoop_spec:
  assumes "verifyLoop cr st h hs acc cs s = (r, s')"
  shows "\<exists>ws. write_all st h ws s = s' \<and>
    (\<forall>(i, d)\<in>set ws. unat i < length hs \<and> bs (hs ! unat i) = Hash cr (bs d)) \<and>
    prefix (map (\<lambda>(i, d). Some \<lparr>cd_ChunkIndex = i, cd_Data = d\<rparr>) ws) cs \<and>
    (\<forall>v. r = Inr v \<longrightarrow> length ws = length cs \<and> v = acc @ map fst ws)"
  using assms
proof (induction cs arbitrary: acc s)
  case Nil
  then show ?case by (intro exI [of _ "[]"]) auto
next
  case (Cons c cs)
  show ?case
  proof (cases "\<exists>x. c = Some x \<and> unat (cd_ChunkIndex x) < length hs \<and> bs (hs ! unat (cd_ChunkIndex x)) = Hash cr (bs (cd_Data x))")
    case True
    then obtain x where x: "c = Some x" "unat (cd_ChunkIndex x) < length hs"
      "bs (hs ! unat (cd_ChunkIndex x)) = Hash cr (bs (cd_Data x))" by blast
    obtain q s1 where w: "fs_WriteChunk st h (cd_ChunkIndex x) (cd_Data x) s = (q, s1)" by fastforce
    show ?thesis
    proof (cases q)
      case (Inl e)
      with Cons.prems x w show ?thesis
        by (intro exI [of _ "[(cd_ChunkIndex x, cd_Data x)]"])
          (auto simp: bytes_Equal_def Let_def wrap_err_def split: failure.splits)
    next
      case (Inr u)
      hence "verifyLoop cr st h hs (acc @ [cd_ChunkIndex x]) cs s1 = (r, s')"
        using Cons.prems x w by (simp add: bytes_Equal_def Let_def not_less)
      from Cons.IH [OF this] obtain ws where "write_all st h ws s1 = s'"
        "\<forall>(i, d)\<in>set ws. unat i < length hs \<and> bs (hs ! unat i) = Hash cr (bs d)"
        "prefix (map (\<lambda>(i, d). Some \<lparr>cd_ChunkIndex = i, cd_Data = d\<rparr>) ws) cs"
        "\<forall>v. r = Inr v \<longrightarrow> length ws = length cs \<and> v = (acc @ [cd_ChunkIndex x]) @ map fst ws" by blast
      with x w show ?thesis by (intro exI [of _ "(cd_ChunkIndex x, cd_Data x) # ws"]) auto
    qed
  next
    case False
    hence "\<exists>e. r = Inl e" "s' = s" using Cons.prems
      by (auto simp: bytes_Equal_def Let_def not_le fail_def split: option.splits if_splits)
    then show ?thesis by (intro exI [of _ "[]"]) auto
  qed
qed

text \<open>
  C13. Only verified data reaches the storage: whatever the outcome, the chunks that
  \<open>VerifyAndStoreBatch\<close> passes to the storage are a prefix of the batch and each has the digest that the file's
  metadata gives for its index; on success the whole batch was written and its indices are returned.
\<close>

theorem only_verified_chunks_stored:
  assumes "VerifyAndStoreBatch cr (Some b) (Some m) (Some st) s = (r, s')"
  shows "\<exists>ws. write_all st (cb_FileHash b) ws s = s' \<and>
    (\<forall>(i, d)\<in>set ws. unat i < length (fm_ChunkHashes m) \<and> bs (fm_ChunkHashes m ! unat i) = Hash cr (bs d)) \<and>
    prefix (map (\<lambda>(i, d). Some \<lparr>cd_ChunkIndex = i, cd_Data = d\<rparr>) ws) (cb_Chunks b) \<and>
    (\<forall>v. r = Inr v \<longrightarrow> length ws = length (cb_Chunks b) \<and> v = map fst ws \<and> length v \<le> 64 \<and> bs (cb_FileHash b) = bs (fm_FileHash m))"
proof (cases "bytes_Equal (cb_FileHash b) (fm_FileHash m) \<and> length (cb_Chunks b) \<le> MaxChunksPerBatch")
  case True
  with assms have "verifyLoop cr st (cb_FileHash b) (fm_ChunkHashes m) [] (cb_Chunks b) s = (r, s')"
    by (simp add: VerifyAndStoreBatch_def)
  from verifyLoop_spec [OF this] True show ?thesis by (auto simp: MaxChunksPerBatch_def bytes_Equal_def)
next
  case False
  with assms have "s' = s" "\<exists>e. r = Inl e" by (auto simp: VerifyAndStoreBatch_def fail_def split: if_splits)
  thus ?thesis by (intro exI [of _ "[]"]) auto
qed

text \<open>A storage that keeps chunks in a map, for concrete runs.\<close>

definition demo_files :: "(byte list \<times> uint32 \<rightharpoonup> slice) FileStorage" where
  "demo_files =
     \<lparr>fs_ReadChunk = (\<lambda>h i s. case s (bs h, i) of None \<Rightarrow> fail ''not found'' | Some d \<Rightarrow> Inr d),
      fs_WriteChunk = (\<lambda>h i d s. (Inr (), s((bs h, i) \<mapsto> d))),
      fs_HasChunk = (\<lambda>h i s. Inr (s (bs h, i) \<noteq> None))\<rparr>"

definition demo_meta :: FileMeta where
  "demo_meta = \<lparr>fm_FileHash = Some [4], fm_FileName = ''f'', fm_FileSize = 1, fm_ChunkSize = 1,
     fm_ChunkHashes = [Some (9 # replicate 31 0)], fm_OriginPubkey = Some [1], fm_OriginSig = Some [2], fm_CreatedAt = 5\<rparr>"

theorem only_verified_chunks_stored_witness:
  "\<exists>s' ws. VerifyAndStoreBatch demo_crypto (Some \<lparr>cb_FileHash = Some [4], cb_Chunks = [Some \<lparr>cd_ChunkIndex = 0, cd_Data = Some [9]\<rparr>]\<rparr>)
     (Some demo_meta) (Some demo_files) Map.empty = (Inr [0], s') \<and> write_all demo_files (Some [4]) ws Map.empty = s'"
proof -
  let ?b = "\<lparr>cb_FileHash = Some [4], cb_Chunks = [Some \<lparr>cd_ChunkIndex = 0, cd_Data = Some [9]\<rparr>]\<rparr>"
  obtain s' where s': "VerifyAndStoreBatch demo_crypto (Some ?b) (Some demo_meta) (Some demo_files) Map.empty = (Inr [0], s')"
    by (simp add: VerifyAndStoreBatch_def MaxChunksPerBatch_def demo_meta_def demo_files_def Hash_def demo_crypto_def)
  from only_verified_chunks_stored [OF s'] s' show ?thesis by auto
qed

lemma readChunks_eq_Inr:
  "readChunks st h s idxs = Inr cs \<longleftrightarrow>
     list_all2 (\<lambda>i c. \<exists>d. fs_ReadChunk st h i s = Inr d \<and> c = Some \<lparr>cd_ChunkIndex = i, cd_Data = d\<rparr>) idxs cs"
  by (induction idxs arbitrary: cs) (auto simp: res_bind_eq_Inr list_all2_Cons1)

lemma BuildBatch_eq_Inr:
  "BuildBatch (Some st) h idxs n s = Inr b \<longleftrightarrow>
     bs h \<noteq> [] \<and> idxs \<noteq> [] \<and> int (length idxs) \<le> n \<and> n \<le> 64 \<and> cb_FileHash b = Some (bs h) \<and>
     list_all2 (\<lambda>i c. \<exists>d. fs_ReadChunk st h i s = Inr d \<and> c = Some \<lparr>cd_ChunkIndex = i, cd_Data = d\<rparr>) idxs (cb_Chunks b)"
  by (cases b; cases idxs) (auto simp: BuildBatch_def MaxChunksPerBatch_def res_bind_eq_Inr readChunks_eq_Inr clone_def
      simp del: readChunks.simps)

lemma missingLoop_eq_Inr:
  "missingLoop st h s idxs = Inr ms \<longleftrightarrow>
     (\<forall>i\<in>set idxs. \<exists>b. fs_HasChunk st h i s = Inr b) \<and> ms = filter (\<lambda>i. fs_HasChunk st h i s = Inr False) idxs"
proof (induction idxs arbitrary: ms)
  case (Cons i idxs)
  show ?case
  proof (cases "fs_HasChunk st h i s")
    case (Inl e)
    then show ?thesis by (cases e) simp_all
  next
    case (Inr b)
    then show ?thesis by (auto simp: res_bind_eq_Inr Cons.IH)
  qed
qed auto

section \<open>The interface of a chunk storage\<close>

text \<open>The chunks of a batch, each with its data.\<close>

definition chunks_of :: "(uint32 \<Rightarrow> byte list) \<Rightarrow> uint32 list \<Rightarrow> ChunkData option list" where
  "chunks_of g is = map (\<lambda>i. Some \<lparr>cd_ChunkIndex = i, cd_Data = Some (g i)\<rparr>) is"

text \<open>
  What a session relies on of its chunk storage: it behaves like a map from files and indices to
  the contents of chunks that \<open>fits\<close> admits.
\<close>

locale chunk_store =
  fixes st :: "'f FileStorage"
    and look :: "byte list \<Rightarrow> uint32 \<Rightarrow> 'f \<Rightarrow> byte list option"
    and fits :: "byte list \<Rightarrow> bool"
  assumes has: "fs_HasChunk st fh i f = Inr (look (bs fh) i f \<noteq> None)"
    and read: "look (bs fh) i f = Some d \<Longrightarrow> fs_ReadChunk st fh i f = Inr (Some d)"
    and stored: "look h i f = Some d \<Longrightarrow> fits d"
    and wr: "fits d \<Longrightarrow> \<exists>f'. fs_WriteChunk st fh i (Some d) f = (Inr (), f') \<and>
      (\<forall>h j. look h j f' = (if h = bs fh \<and> j = i then Some d else look h j f))"
begin

lemma missing:
  "bs fh \<noteq> [] \<Longrightarrow> MissingChunkIndices (Some st) fh idxs f = Inr (filter (\<lambda>i. look (bs fh) i f = None) idxs)"
  by (simp add: MissingChunkIndices_def missingLoop_eq_Inr has)

lemma batch:
  assumes "bs fh \<noteq> []" and "is \<noteq> []" and "length is \<le> 64" and "\<forall>i\<in>set is. look (bs fh) i f \<noteq> None"
  shows "BuildBatch (Some st) fh is (int (length is)) f =
    Inr \<lparr>cb_FileHash = Some (bs fh), cb_Chunks = chunks_of (\<lambda>i. the (look (bs fh) i f)) is\<rparr>"
  using assms by (auto simp: BuildBatch_eq_Inr chunks_of_def list_all2_map2 intro!: list.rel_refl_strong read)

text \<open>A storage that is a part of a larger state.\<close>

lemma lifted:
  assumes "\<And>x w. get (put x w) = x"
    and "\<And>fh i w. fs_ReadChunk st' fh i w = fs_ReadChunk st fh i (get w)" and "\<And>fh i w. fs_HasChunk st' fh i w = fs_HasChunk st fh i (get w)"
    and "\<And>fh i d w. fs_WriteChunk st' fh i d w = (let (r, x) = fs_WriteChunk st fh i d (get w) in (r, put x w))"
  shows "chunk_store st' (\<lambda>h i w. look h i (get w)) fits"
proof
  fix d fh i w
  assume "fits d"
  then obtain f where "fs_WriteChunk st fh i (Some d) (get w) = (Inr (), f)" "\<forall>h j. look h j f = (if h = bs fh \<and> j = i then Some d else look h j (get w))"
    using wr by blast
  thus "\<exists>w'. fs_WriteChunk st' fh i (Some d) w = (Inr (), w') \<and> (\<forall>h j. look h j (get w') = (if h = bs fh \<and> j = i then Some d else look h j (get w)))"
    by (intro exI [of _ "put f w"]) (simp add: assms(1,4))
qed (simp_all add: assms(2,3) has read stored)

end

end
