(* ===== verification/Dag.thy ===== *)
theory Dag
  imports Crypto Wire_Types
begin

text \<open>
  The package \<open>dag/\<close>: the bytes that signatures cover (\<open>record.go\<close>), the validation of signed
  messages, and the verification of a device's chain and the detection of forks in it
  (\<open>chain.go\<close>).  Functions that dereference their argument take the message itself; where
  the argument is a list of pointers, a nil pointer is a panic.
\<close>

section \<open>Bytes covered by signatures\<close>

definition appendUint64 :: "byte list \<Rightarrow> uint64 \<Rightarrow> byte list" where
  "appendUint64 buf value = buf @ be64 value"

definition appendUint32 :: "byte list \<Rightarrow> uint32 \<Rightarrow> byte list" where
  "appendUint32 buf value = buf @ be32 value"

definition appendTotals :: "byte list \<Rightarrow> CumulativeTotals \<Rightarrow> byte list" where
  "appendTotals buf t =
     (let buf = appendUint64 buf (ct_CumulativeSent t) in appendUint64 buf (ct_CumulativeReceived t))"

definition FileMetaSignableBytes :: "FileMeta \<Rightarrow> byte list" where
  "FileMetaSignableBytes r =
     (let buf = bs (fm_FileHash r);
          buf = buf @ string_bytes (fm_FileName r);
          buf = appendUint64 buf (fm_FileSize r);
          buf = appendUint64 buf (fm_ChunkSize r);
          buf = appendUint32 buf (of_nat (length (fm_ChunkHashes r)));
          buf = fold (\<lambda>ch buf. buf @ bs ch) (fm_ChunkHashes r) buf;
          buf = buf @ bs (fm_OriginPubkey r)
      in appendUint64 buf (fm_CreatedAt r))"

definition TransferRequestSignableBytes :: "TransferRequest \<Rightarrow> byte list" where
  "TransferRequestSignableBytes r =
     (let buf = bs (tr_RequesterPubkey r);
          buf = buf @ bs (tr_FileHash r);
          buf = appendUint32 buf (of_nat (length (tr_ChunkIndices r)));
          buf = fold (\<lambda>idx buf. appendUint32 buf idx) (tr_ChunkIndices r) buf;
          buf = buf @ bs (tr_Nonce r)
      in appendUint64 buf (tr_Timestamp r))"

definition SignableBytes :: "ShareRecord \<Rightarrow> byte list" where
  "SignableBytes r =
     (let buf = bs (sr_SenderPubkey r);
          buf = buf @ bs (sr_ReceiverPubkey r);
          buf = buf @ bs (sr_PrevSender r);
          buf = buf @ bs (sr_PrevReceiver r);
          buf = appendUint64 buf (sr_SenderRecordIndex r);
          buf = appendUint64 buf (sr_ReceiverRecordIndex r);
          buf = (case sr_SenderTotals r of
                   Some t \<Rightarrow> appendTotals buf t
                 | None \<Rightarrow> appendUint64 (appendUint64 buf 0) 0);
          buf = (case sr_ReceiverTotals r of
                   Some t \<Rightarrow> appendTotals buf t
                 | None \<Rightarrow> appendUint64 (appendUint64 buf 0) 0);
          buf = buf @ bs (sr_RequestHash r);
          buf = buf @ bs (sr_FileHash r);
          buf = appendUint32 buf (of_nat (length (sr_ChunkHashes r)));
          buf = fold (\<lambda>ch buf. buf @ bs ch) (sr_ChunkHashes r) buf;
          buf = appendUint64 buf (sr_BytesTotal r);
          buf = appendUint32 buf (sr_Visibility r)
      in appendUint64 buf (sr_Timestamp r))"

definition AttachSenderSig :: "ShareRecord \<Rightarrow> slice \<Rightarrow> ShareRecord" where
  "AttachSenderSig r sig = r\<lparr>sr_SenderSig := sig\<rparr>"

definition AttachReceiverSig :: "crypto_prims \<Rightarrow> ShareRecord \<Rightarrow> slice \<Rightarrow> ShareRecord" where
  "AttachReceiverSig cr r sig =
     (let r = r\<lparr>sr_ReceiverSig := sig\<rparr>; data = SignableBytes r in r\<lparr>sr_Id := Some (Hash cr data)\<rparr>)"

section \<open>Validation\<close>

definition ValidateFileMeta :: "crypto_prims \<Rightarrow> FileMeta \<Rightarrow> unit res" where
  "ValidateFileMeta cr r =
     (case Verify cr (fm_OriginPubkey r) (FileMetaSignableBytes r) (fm_OriginSig r) of
        Inl (Err e) \<Rightarrow> fail (''Origin sig verification failed: '' @ Error e)
      | Inl (Panic p) \<Rightarrow> Inl (Panic p)
      | Inr ok \<Rightarrow> if \<not> ok then fail ''Signature verification failed'' else Inr ())"

definition ValidateTransferRequest :: "crypto_prims \<Rightarrow> TransferRequest \<Rightarrow> unit res" where
  "ValidateTransferRequest cr r =
     res_bind (wrap_err ''Requester sig verification failed: ''
        (Verify cr (tr_RequesterPubkey r) (TransferRequestSignableBytes r) (tr_Signature r)))
     (\<lambda>ok. if \<not> ok then fail ''invalid request signature'' else Inr ())"

definition ValidateShareRecord :: "crypto_prims \<Rightarrow> ShareRecord \<Rightarrow> unit res" where
  "ValidateShareRecord cr r =
     (let message = SignableBytes r in
      res_bind (wrap_err ''sender sig verification failed: ''
         (Verify cr (sr_SenderPubkey r) message (sr_SenderSig r))) (\<lambda>ok.
      if \<not> ok then fail ''invalid sender signature'' else
      res_bind (wrap_err ''receiver sig verification failed: ''
         (Verify cr (sr_ReceiverPubkey r) message (sr_ReceiverSig r))) (\<lambda>ok.
      if \<not> ok then fail ''invalid receiver signature'' else
      let expectedId = Hash cr message in
      if expectedId \<noteq> bs (sr_Id r) then fail ''record id mismatch'' else Inr ())))"

section \<open>Chains and forks\<close>

definition deviceChainFields :: "ShareRecord \<Rightarrow> slice \<Rightarrow> slice \<times> uint64" where
  "deviceChainFields r devicePubkey =
     (if bytes_Equal (sr_SenderPubkey r) devicePubkey
      then (sr_PrevSender r, sr_SenderRecordIndex r)
      else (sr_PrevReceiver r, sr_ReceiverRecordIndex r))"

text \<open>The loop of \<open>VerifyChainSegment\<close> over adjacent pairs, \<open>i\<close> being the position of the first.\<close>

fun verifyLinks :: "nat \<Rightarrow> slice \<Rightarrow> ShareRecord option list \<Rightarrow> unit res" where
  "verifyLinks i devicePubkey (Some cur # Some nxt # rest) =
     (let (_, currIndex) = deviceChainFields cur devicePubkey;
          (nextPrev, nextIndex) = deviceChainFields nxt devicePubkey in
      if \<not> bytes_Equal nextPrev (sr_Id cur) then fail (''broken chain link at index '' @ itoa i)
      else if nextIndex \<noteq> currIndex + 1 then fail (''chain index gap at position '' @ itoa i)
      else verifyLinks (Suc i) devicePubkey (Some nxt # rest))"
| "verifyLinks i devicePubkey (cur # nxt # rest) = nil_deref"
| "verifyLinks i devicePubkey _ = Inr ()"

definition VerifyChainSegment :: "ShareRecord option list \<Rightarrow> slice \<Rightarrow> unit res" where
  "VerifyChainSegment records devicePubkey =
     (if length records < 2 then Inr () else verifyLinks 0 devicePubkey records)"

definition DetectFork :: "ShareRecord \<Rightarrow> ShareRecord \<Rightarrow> slice \<Rightarrow> ForkEvidence option" where
  "DetectFork a b devicePubKey =
     (let (_, indexA) = deviceChainFields a devicePubKey;
          (_, indexB) = deviceChainFields b devicePubKey in
      if indexA = indexB
      then if bytes_Equal (sr_Id a) (sr_Id b) then None
           else Some \<lparr>fe_DevicePubkey = devicePubKey, fe_RecordA = Some a, fe_RecordB = Some b,
                      fe_ReporterPubkey = None, fe_ReporterSig = None, fe_DetectedAt = 0\<rparr>
      else None)"

section \<open>Specification\<close>

text \<open>A record's position and back link in the chain of a device.\<close>

definition chainIndex :: "slice \<Rightarrow> ShareRecord \<Rightarrow> uint64" where
  "chainIndex d r = snd (deviceChainFields r d)"

definition chainPrev :: "slice \<Rightarrow> ShareRecord \<Rightarrow> slice" where
  "chainPrev d r = fst (deviceChainFields r d)"

text \<open>A segment is linked when each record names its predecessor and has the next index.\<close>

definition chain_linked :: "slice \<Rightarrow> ShareRecord list \<Rightarrow> bool" where
  "chain_linked d rs \<longleftrightarrow>
     (\<forall>i. Suc i < length rs \<longrightarrow>
        bs (chainPrev d (rs ! Suc i)) = bs (sr_Id (rs ! i)) \<and>
        chainIndex d (rs ! Suc i) = chainIndex d (rs ! i) + 1)"

text \<open>The lengths of the variable-length fields a share record's signature covers.\<close>

definition field_lengths :: "ShareRecord \<Rightarrow> nat list" where
  "field_lengths r =
     map (\<lambda>f. length (bs (f r)))
       [sr_SenderPubkey, sr_ReceiverPubkey, sr_PrevSender, sr_PrevReceiver, sr_RequestHash, sr_FileHash]
     @ map (\<lambda>ch. length (bs ch)) (sr_ChunkHashes r)"

text \<open>What a share record's signature is meant to cover.\<close>

definition signed_content where
  "signed_content r =
     ([bs (sr_SenderPubkey r), bs (sr_ReceiverPubkey r), bs (sr_PrevSender r), bs (sr_PrevReceiver r),
       bs (sr_RequestHash r), bs (sr_FileHash r)], map bs (sr_ChunkHashes r),
      [sr_SenderRecordIndex r, sr_ReceiverRecordIndex r,
       getp 0 ct_CumulativeSent (sr_SenderTotals r), getp 0 ct_CumulativeReceived (sr_SenderTotals r),
       getp 0 ct_CumulativeSent (sr_ReceiverTotals r), getp 0 ct_CumulativeReceived (sr_ReceiverTotals r),
       sr_BytesTotal r, sr_Timestamp r], sr_Visibility r)"

section \<open>Lemmas\<close>

lemma fold_append_bs: "fold (\<lambda>ch buf. buf @ bs ch) chs buf = buf @ concat (map bs chs)"
  by (induction chs arbitrary: buf) auto

lemma fold_appendUint32: "fold (\<lambda>idx buf. appendUint32 buf idx) xs buf = buf @ concat (map be32 xs)"
  by (induction xs arbitrary: buf) (auto simp: appendUint32_def)

text \<open>The signed bytes as one concatenation; nil totals read as zeros.\<close>

lemma SignableBytes_concat:
  "SignableBytes r =
     bs (sr_SenderPubkey r) @ bs (sr_ReceiverPubkey r) @ bs (sr_PrevSender r) @ bs (sr_PrevReceiver r) @
     be64 (sr_SenderRecordIndex r) @ be64 (sr_ReceiverRecordIndex r) @
     be64 (getp 0 ct_CumulativeSent (sr_SenderTotals r)) @ be64 (getp 0 ct_CumulativeReceived (sr_SenderTotals r)) @
     be64 (getp 0 ct_CumulativeSent (sr_ReceiverTotals r)) @ be64 (getp 0 ct_CumulativeReceived (sr_ReceiverTotals r)) @
     bs (sr_RequestHash r) @ bs (sr_FileHash r) @ be32 (of_nat (length (sr_ChunkHashes r))) @
     concat (map bs (sr_ChunkHashes r)) @ be64 (sr_BytesTotal r) @ be32 (sr_Visibility r) @ be64 (sr_Timestamp r)"
  by (simp add: SignableBytes_def Let_def appendUint64_def appendUint32_def appendTotals_def fold_append_bs
      split: option.split)

lemma TransferRequestSignableBytes_concat:
  "TransferRequestSignableBytes r =
     bs (tr_RequesterPubkey r) @ bs (tr_FileHash r) @ be32 (of_nat (length (tr_ChunkIndices r))) @
     concat (map be32 (tr_ChunkIndices r)) @ bs (tr_Nonce r) @ be64 (tr_Timestamp r)"
  by (simp add: TransferRequestSignableBytes_def Let_def fold_appendUint32) (simp add: appendUint64_def appendUint32_def)

lemma SignableBytes_sigs [simp]:
  "SignableBytes (r\<lparr>sr_SenderSig := s\<rparr>) = SignableBytes r"
  "SignableBytes (r\<lparr>sr_ReceiverSig := s\<rparr>) = SignableBytes r"
  "SignableBytes (r\<lparr>sr_Id := i\<rparr>) = SignableBytes r"
  by (simp_all add: SignableBytes_concat)

lemma SignableBytes_Attach [simp]:
  "SignableBytes (AttachSenderSig r s) = SignableBytes r"
  "SignableBytes (AttachReceiverSig cr r s) = SignableBytes r"
  by (simp_all add: AttachSenderSig_def AttachReceiverSig_def Let_def)

lemma TransferRequestSignableBytes_sig [simp]:
  "TransferRequestSignableBytes (r\<lparr>tr_Signature := s\<rparr>) = TransferRequestSignableBytes r"
  by (simp add: TransferRequestSignableBytes_concat)

lemma concat_eq_lengths:
  "map length xs = map length ys \<Longrightarrow> concat xs @ r = concat ys @ s \<longleftrightarrow> xs = ys \<and> r = s"
proof (induction xs arbitrary: ys)
  case (Cons x xs)
  then obtain y ys' where "ys = y # ys'" "length x = length y" "map length xs = map length ys'"
    by (cases ys) auto
  with Cons.IH [of ys'] show ?case by auto
qed simp

lemma all_nat_zero_Suc: "(\<forall>i. P i) \<longleftrightarrow> P 0 \<and> (\<forall>i. P (Suc i))"
  by (metis nat.exhaust)

lemma verifyLinks_Inr:
  "verifyLinks i d (map Some rs) = Inr () \<longleftrightarrow> chain_linked d rs"
proof (induction rs arbitrary: i rule: induct_list012)
  case (3 x y zs)
  have "chain_linked d (x # y # zs) \<longleftrightarrow>
      bs (chainPrev d y) = bs (sr_Id x) \<and> chainIndex d y = chainIndex d x + 1 \<and> chain_linked d (y # zs)"
    unfolding chain_linked_def by (subst all_nat_zero_Suc) simp
  with 3(2) show ?case
    by (auto simp: chainPrev_def chainIndex_def bytes_Equal_def split: prod.splits)
qed (simp_all add: chain_linked_def)

lemma VerifyChainSegment_Inr:
  "VerifyChainSegment (map Some rs) d = Inr () \<longleftrightarrow> chain_linked d rs"
  by (auto simp: VerifyChainSegment_def verifyLinks_Inr chain_linked_def)

lemma chain_linked_index:
  "chain_linked d rs \<Longrightarrow> i < length rs \<Longrightarrow> chainIndex d (rs ! i) = chainIndex d (rs ! 0) + of_nat i"
  by (induction i) (auto simp: chain_linked_def)

lemma DetectFork_eq:
  "DetectFork a b d =
     (if chainIndex d a = chainIndex d b \<and> bs (sr_Id a) \<noteq> bs (sr_Id b)
      then Some \<lparr>fe_DevicePubkey = d, fe_RecordA = Some a, fe_RecordB = Some b,
                 fe_ReporterPubkey = None, fe_ReporterSig = None, fe_DetectedAt = 0\<rparr>
      else None)"
  by (simp add: DetectFork_def chainIndex_def bytes_Equal_def split: prod.splits)

section \<open>Properties\<close>

text \<open>
  C8. Acceptance of a share record, completely: both public keys have 32 bytes, both signatures
  verify over the signed bytes, and the identifier is the digest of the signed bytes.  No other
  field is constrained (in particular the cumulative totals are not).
\<close>

theorem validate_share_record_iff:
  "ValidateShareRecord cr r = Inr () \<longleftrightarrow>
     length (bs (sr_SenderPubkey r)) = 32 \<and> length (bs (sr_ReceiverPubkey r)) = 32 \<and>
     ed25519_Verify cr (bs (sr_SenderPubkey r)) (SignableBytes r) (bs (sr_SenderSig r)) \<and>
     ed25519_Verify cr (bs (sr_ReceiverPubkey r)) (SignableBytes r) (bs (sr_ReceiverSig r)) \<and>
     bs (sr_Id r) = Hash cr (SignableBytes r)"
  by (auto simp: ValidateShareRecord_def Let_def res_bind_eq_Inr Verify_eq_Inr split: if_splits)

lemma Attach_validates:
  assumes "Verify cr (sr_SenderPubkey r) (SignableBytes r) ssig = Inr True"
    and "Verify cr (sr_ReceiverPubkey r) (SignableBytes r) rsig = Inr True"
  shows "ValidateShareRecord cr (AttachReceiverSig cr (AttachSenderSig r ssig) rsig) = Inr ()"
  using assms unfolding ValidateShareRecord_def Let_def SignableBytes_Attach
  by (simp add: AttachSenderSig_def AttachReceiverSig_def)

text \<open>
  Co-signing produces a valid record: when each party signs the same draft with the key of
  the public key the draft names for it, attaching the sender's and then the receiver's
  signature gives a record that passes validation, whatever the other fields hold.
\<close>

theorem cosigned_record_validates:
  assumes "keypair_ok cr spub spriv" and "keypair_ok cr rpub rpriv"
    and "sr_SenderPubkey r = Some spub" and "sr_ReceiverPubkey r = Some rpub"
    and "Sign cr (Some spriv) (SignableBytes r) = Inr ssig"
    and "Sign cr (Some rpriv) (SignableBytes (AttachSenderSig r ssig)) = Inr rsig"
  shows "ValidateShareRecord cr (AttachReceiverSig cr (AttachSenderSig r ssig) rsig) = Inr ()"
  using Sign_Verify [OF assms(1,5)] Sign_Verify [OF assms(2,6)] assms(3,4)
  by (intro Attach_validates) simp_all

text \<open>A draft that the witnesses sign: sender \<open>1...\<close>, receiver \<open>2...\<close>, totals unrelated to the transfer.\<close>

definition demo_draft :: ShareRecord where
  "demo_draft =
     \<lparr>sr_Id = None, sr_SenderPubkey = Some (demo_pub 1), sr_ReceiverPubkey = Some (demo_pub 2),
      sr_PrevSender = None, sr_PrevReceiver = None, sr_SenderRecordIndex = 1, sr_ReceiverRecordIndex = 1,
      sr_SenderTotals = Some \<lparr>ct_CumulativeSent = 999, ct_CumulativeReceived = 0\<rparr>, sr_ReceiverTotals = None,
      sr_RequestHash = Some [1], sr_ChunkHashes = [], sr_BytesTotal = 7, sr_Timestamp = 123,
      sr_SenderSig = None, sr_ReceiverSig = None, sr_FileHash = Some [2], sr_Visibility = 0\<rparr>"

theorem cosigned_record_validates_witness:
  "ValidateShareRecord demo_crypto
     (AttachReceiverSig demo_crypto
        (AttachSenderSig demo_draft (Some (demo_pub 1 @ SignableBytes demo_draft)))
        (Some (demo_pub 2 @ SignableBytes demo_draft))) = Inr ()"
proof (rule cosigned_record_validates [OF demo_keypair_ok demo_keypair_ok])
  show "Sign demo_crypto (Some (demo_priv 1)) (SignableBytes demo_draft) =
      Inr (Some (demo_pub 1 @ SignableBytes demo_draft))"
    by (simp add: Sign_eq_Inr demo_crypto_def demo_priv_def demo_pub_def)
  show "Sign demo_crypto (Some (demo_priv 2))
      (SignableBytes (AttachSenderSig demo_draft (Some (demo_pub 1 @ SignableBytes demo_draft)))) =
      Inr (Some (demo_pub 2 @ SignableBytes demo_draft))"
    by (simp add: Sign_eq_Inr demo_crypto_def demo_priv_def demo_pub_def)
qed (simp_all add: demo_draft_def)

text \<open>
  The signed bytes determine the signed content of a record, for records whose
  variable-length fields have the same lengths (the case of the 32-byte keys and hashes the
  protocol uses).
\<close>

theorem signable_bytes_injective:
  assumes "field_lengths r = field_lengths r'" and "SignableBytes r = SignableBytes r'"
  shows "signed_content r = signed_content r'"
proof -
  have "map length (map bs (sr_ChunkHashes r)) = map length (map bs (sr_ChunkHashes r'))"
    using assms(1) by (simp add: field_lengths_def comp_def)
  from concat_eq_lengths [OF this] assms show ?thesis
    by (simp add: SignableBytes_concat field_lengths_def signed_content_def
        be32c.enc_append_inj be64c.enc_append_inj be64c.enc_inj)
qed

theorem signable_bytes_injective_witness:
  "signed_content (AttachSenderSig demo_draft (Some [1])) = signed_content demo_draft"
  by (rule signable_bytes_injective) (simp_all add: field_lengths_def AttachSenderSig_def)

text \<open>
  Without that restriction they do not: the boundary between two adjacent fields is not part
  of the signed bytes.  A record whose \<open>PrevSender\<close> is set and \<open>PrevReceiver\<close> is empty has the
  same signed bytes, and so the same identifier and signatures, as the record with the two swapped.
\<close>

theorem signable_bytes_ambiguous:
  assumes "bs h \<noteq> []"
  shows "SignableBytes (r\<lparr>sr_PrevSender := h, sr_PrevReceiver := None\<rparr>)
           = SignableBytes (r\<lparr>sr_PrevSender := None, sr_PrevReceiver := h\<rparr>)
       \<and> signed_content (r\<lparr>sr_PrevSender := h, sr_PrevReceiver := None\<rparr>)
           \<noteq> signed_content (r\<lparr>sr_PrevSender := None, sr_PrevReceiver := h\<rparr>)
       \<and> ValidateShareRecord cr (r\<lparr>sr_PrevSender := h, sr_PrevReceiver := None\<rparr>)
           = ValidateShareRecord cr (r\<lparr>sr_PrevSender := None, sr_PrevReceiver := h\<rparr>)"
proof -
  let ?a = "r\<lparr>sr_PrevSender := h, sr_PrevReceiver := None\<rparr>"
  let ?b = "r\<lparr>sr_PrevSender := None, sr_PrevReceiver := h\<rparr>"
  have eq: "SignableBytes ?a = SignableBytes ?b"
    by (simp add: SignableBytes_concat)
  have "ValidateShareRecord cr ?a = ValidateShareRecord cr ?b"
    unfolding ValidateShareRecord_def Let_def eq by (simp cong: if_cong)
  with eq assms show ?thesis
    by (simp add: signed_content_def)
qed

theorem signable_bytes_ambiguous_witness:
  "SignableBytes (demo_draft\<lparr>sr_PrevSender := Some [5], sr_PrevReceiver := None\<rparr>)
     = SignableBytes (demo_draft\<lparr>sr_PrevSender := None, sr_PrevReceiver := Some [5]\<rparr>)"
proof -
  have "bs (Some [5 :: byte]) \<noteq> []" by simp
  from signable_bytes_ambiguous [OF this, of demo_draft demo_crypto] show ?thesis by blast
qed

text \<open>
  C24. \<open>VerifyChainSegment\<close> accepts a segment exactly when every record names the identifier
  of the one before as its predecessor in the device's chain and has the next index.
\<close>

theorem verify_chain_segment_iff:
  "VerifyChainSegment (map Some rs) d = Inr () \<longleftrightarrow>
     (\<forall>i. Suc i < length rs \<longrightarrow>
        bs (chainPrev d (rs ! Suc i)) = bs (sr_Id (rs ! i)) \<and>
        chainIndex d (rs ! Suc i) = chainIndex d (rs ! i) + 1)"
  by (simp add: VerifyChainSegment_Inr chain_linked_def)

theorem verify_chain_segment_iff_witness:
  "VerifyChainSegment (map Some [demo_draft\<lparr>sr_Id := Some [5]\<rparr>,
      demo_draft\<lparr>sr_PrevSender := Some [5], sr_SenderRecordIndex := 2\<rparr>]) (Some (demo_pub 1)) = Inr ()"
  unfolding verify_chain_segment_iff
  by (simp add: chainPrev_def chainIndex_def deviceChainFields_def demo_draft_def less_Suc_eq)

text \<open>
  No false alarms: two records of one verified segment are never reported as a fork of the
  device (their indices differ, up to the 2^64 records an index can count), and a reported pair
  has one index and two identifiers.
\<close>

theorem detect_fork_none_in_chain:
  assumes "VerifyChainSegment (map Some rs) d = Inr ()" and "length rs \<le> 2 ^ 64"
    and "i < length rs" and "j < length rs"
  shows "DetectFork (rs ! i) (rs ! j) d = None"
proof (cases "i = j")
  case True
  then show ?thesis by (simp add: DetectFork_eq)
next
  case False
  from assms(1) have "chain_linked d rs" by (simp add: VerifyChainSegment_Inr)
  hence "chainIndex d (rs ! i) = chainIndex d (rs ! 0) + of_nat i"
    and "chainIndex d (rs ! j) = chainIndex d (rs ! 0) + of_nat j"
    using assms(3,4) by (auto intro: chain_linked_index)
  moreover have "(of_nat i :: uint64) \<noteq> of_nat j"
    using assms(2-4) False by (simp add: word_of_nat_eq_iff take_bit_eq_mod)
  ultimately show ?thesis by (simp add: DetectFork_eq)
qed

theorem detect_fork_none_in_chain_witness:
  "DetectFork (demo_draft\<lparr>sr_Id := Some [5]\<rparr>)
      (demo_draft\<lparr>sr_PrevSender := Some [5], sr_SenderRecordIndex := 2\<rparr>) (Some (demo_pub 1)) = None"
proof -
  let ?rs = "[demo_draft\<lparr>sr_Id := Some [5]\<rparr>, demo_draft\<lparr>sr_PrevSender := Some [5], sr_SenderRecordIndex := 2\<rparr>]"
  have "VerifyChainSegment (map Some ?rs) (Some (demo_pub 1)) = Inr ()"
    unfolding VerifyChainSegment_Inr
    by (simp add: chain_linked_def chainPrev_def chainIndex_def
        deviceChainFields_def demo_draft_def less_Suc_eq)
  from detect_fork_none_in_chain [OF this, of 0 1] show ?thesis by simp
qed

end
