(* ===== verification/Codec.thy ===== *)
theory Codec
  imports Wire_Types
begin

text \<open>
  The file \<open>wire/codec.go\<close>: length-prefixed framing of envelopes.  \<open>proto.Marshal\<close> and
  \<open>proto.Unmarshal\<close> are parameters.  A reader is the sequence of bytes it still delivers; a
  writer is any state with a \<open>Write\<close> that may fail.
\<close>

definition MaxMessageSize :: nat where
  "MaxMessageSize = 16 * 1024 * 1024"

text \<open>The length is converted to 32 bits before it is compared with the limit.\<close>

definition EncodeEnvelope :: "(Envelope \<Rightarrow> byte list res) \<Rightarrow> Envelope option \<Rightarrow> byte list res" where
  "EncodeEnvelope marshal env =
     (case env of
        None \<Rightarrow> fail ''envelope is nil''
      | Some e \<Rightarrow>
          res_bind (marshal e) (\<lambda>payload.
            let length = (of_nat (List.length payload) :: uint32) in
            if unat length > MaxMessageSize
            then fail ''message length is greater than chunk size''
            else Inr (be32 length @ payload)))"

definition DecodeEnvelope :: "(byte list \<Rightarrow> Envelope res) \<Rightarrow> byte list \<Rightarrow> Envelope res" where
  "DecodeEnvelope unmarshal data =
     (let totalMessageLength = length data in
      if totalMessageLength < 4 then fail ''data is too short to contain a length''
      else let payloadLength = unbe32 (take 4 data) in
        if unat payloadLength > MaxMessageSize
        then fail ''message length is greater than chunk size''
        else if payloadLength \<noteq> of_nat (totalMessageLength - 4)
        then fail ''payload length does not match the total message length''
        else unmarshal (take (unat payloadLength) (drop 4 data)))"

definition WriteEnvelope ::
  "(Envelope \<Rightarrow> byte list res) \<Rightarrow> ('w \<Rightarrow> byte list \<Rightarrow> unit res \<times> 'w) \<Rightarrow> 'w \<Rightarrow> Envelope option \<Rightarrow> unit res \<times> 'w" where
  "WriteEnvelope marshal write w env =
     (case EncodeEnvelope marshal env of
        Inl err \<Rightarrow> (Inl err, w)
      | Inr data \<Rightarrow> write w data)"

text \<open>\<open>io.ReadFull\<close>: exactly \<open>n\<close> bytes, or an error when the reader ends before.\<close>

definition ReadFull :: "byte list \<Rightarrow> nat \<Rightarrow> byte list res \<times> byte list" where
  "ReadFull r n =
     (if n \<le> length r then (Inr (take n r), drop n r)
      else if r = [] then (fail ''EOF'', []) else (fail ''unexpected EOF'', []))"

definition ReadEnvelope :: "(byte list \<Rightarrow> Envelope res) \<Rightarrow> byte list \<Rightarrow> Envelope res \<times> byte list" where
  "ReadEnvelope unmarshal r =
     (case ReadFull r 4 of
        (Inl err, r') \<Rightarrow> (Inl err, r')
      | (Inr header, r') \<Rightarrow>
          (let payloadLength = unbe32 header in
           if unat payloadLength > MaxMessageSize
           then (fail ''message length is greater than chunk size'', r')
           else (case ReadFull r' (unat payloadLength) of
                   (Inl err, r'') \<Rightarrow> (Inl err, r'')
                 | (Inr payload, r'') \<Rightarrow> (unmarshal payload, r''))))"

text \<open>A receiver that calls \<open>ReadEnvelope\<close> \<open>n\<close> times.\<close>

primrec ReadEnvelopes :: "(byte list \<Rightarrow> Envelope res) \<Rightarrow> nat \<Rightarrow> byte list \<Rightarrow> Envelope res list \<times> byte list" where
  "ReadEnvelopes unmarshal 0 r = ([], r)"
| "ReadEnvelopes unmarshal (Suc n) r =
     (let (e, r') = ReadEnvelope unmarshal r; (es, r'') = ReadEnvelopes unmarshal n r' in (e # es, r''))"

text \<open>A sender that calls \<open>WriteEnvelope\<close> for one envelope after the other until one fails.\<close>

fun WriteEnvelopes ::
  "(Envelope \<Rightarrow> byte list res) \<Rightarrow> ('w \<Rightarrow> byte list \<Rightarrow> unit res \<times> 'w) \<Rightarrow> 'w \<Rightarrow> Envelope option list \<Rightarrow> unit res \<times> 'w" where
  "WriteEnvelopes marshal write w [] = (Inr (), w)"
| "WriteEnvelopes marshal write w (env # envs) =
     (case WriteEnvelope marshal write w env of
        (Inl err, w') \<Rightarrow> (Inl err, w')
      | (Inr _, w') \<Rightarrow> WriteEnvelopes marshal write w' envs)"

section \<open>Frames\<close>

text \<open>The bytes of one frame around a payload.\<close>

definition frame :: "byte list \<Rightarrow> byte list" where
  "frame payload = be32 (of_nat (length payload)) @ payload"

lemma MaxMessageSize_val: "MaxMessageSize = 16777216"
  by (simp add: MaxMessageSize_def)

lemma unat_small_length:
  "length p < 2 ^ 32 \<Longrightarrow> unat (of_nat (length p) :: uint32) = length p"
  by (simp add: unat_of_nat)

lemma EncodeEnvelope_eq_Inr:
  "EncodeEnvelope marshal (Some e) = Inr data \<longleftrightarrow>
     (\<exists>p. marshal e = Inr p \<and> unat (of_nat (length p) :: uint32) \<le> MaxMessageSize \<and> data = frame p)"
  by (auto simp: EncodeEnvelope_def res_bind_eq_Inr frame_def Let_def not_less split: if_splits)

lemma DecodeEnvelope_frame:
  "unat (of_nat (length p) :: uint32) \<le> MaxMessageSize \<Longrightarrow>
   DecodeEnvelope u (frame p) = u (take (unat (of_nat (length p) :: uint32)) p)"
  by (simp add: DecodeEnvelope_def frame_def Let_def not_less del: unbe32_take)

lemma ReadFull_append: "length a = n \<Longrightarrow> ReadFull (a @ r) n = (Inr a, r)"
  by (simp add: ReadFull_def)

lemma ReadEnvelope_frame:
  assumes "length p \<le> MaxMessageSize"
  shows "ReadEnvelope u (frame p @ r) = (u p, r)"
proof -
  from assms have "unat (of_nat (length p) :: uint32) = length p"
    by (simp add: MaxMessageSize_val unat_of_nat)
  with assms show ?thesis
    by (simp add: ReadEnvelope_def frame_def ReadFull_append)
qed

lemma ReadEnvelopes_frames:
  "\<forall>p\<in>set ps. length p \<le> MaxMessageSize \<Longrightarrow>
   ReadEnvelopes u (length ps) (concat (map frame ps) @ r) = (map u ps, r)"
  by (induction ps) (auto simp: ReadEnvelope_frame)

lemma ReadFull_consumes:
  "ReadFull r n = (x, r') \<Longrightarrow> \<exists>used. r = used @ r' \<and> length used \<le> n"
  by (auto simp: ReadFull_def split: if_splits) (metis append_take_drop_id length_take min.cobounded2)

section \<open>Properties\<close>

text \<open>
  Framing is transparent: whatever \<open>EncodeEnvelope\<close> produces for a payload below 4 GiB,
  \<open>DecodeEnvelope\<close> hands exactly that payload to the unmarshaller.
\<close>

theorem decode_encode_envelope:
  assumes enc: "EncodeEnvelope marshal (Some e) = Inr data"
    and m: "marshal e = Inr p" and small: "length p < 2 ^ 32"
  shows "DecodeEnvelope unmarshal data = unmarshal p"
proof -
  from enc m have "data = frame p" and "unat (of_nat (length p) :: uint32) \<le> MaxMessageSize"
    by (auto simp: EncodeEnvelope_eq_Inr)
  with small show ?thesis
    by (simp add: DecodeEnvelope_frame unat_small_length)
qed

theorem decode_encode_envelope_witness:
  "DecodeEnvelope (\<lambda>b. if b = [7] then Inr (envelope (Envelope_Gossip None)) else fail ''bad'') [0, 0, 0, 1, 7]
     = Inr (envelope (Envelope_Gossip None))"
proof -
  have "EncodeEnvelope (\<lambda>_. Inr [7]) (Some (envelope (Envelope_Gossip None))) = Inr [0, 0, 0, 1, 7]"
    by (simp add: EncodeEnvelope_def MaxMessageSize_def be32_def)
  from decode_encode_envelope [OF this refl,
      of "\<lambda>b. if b = [7] then Inr (envelope (Envelope_Gossip None)) else fail ''bad''"]
  show ?thesis by simp
qed

text \<open>
  C25. Streaming: envelopes written one after the other are read back as the same sequence.  The writer
  takes whatever it is given, the encodings are of at most 16 MiB, and the protobuf runtime decodes what
  it encoded; then every \<open>WriteEnvelope\<close> succeeds, and as many calls of \<open>ReadEnvelope\<close> on the bytes that were
  written return the envelopes in order, consuming these bytes and leaving what follows.
\<close>

theorem read_envelopes_of_written:
  assumes "\<And>w d. \<exists>w'. put w d = (Inr (), w') \<and> sent w' = sent w @ d"
    and "\<forall>e\<in>set es. \<exists>p. marshal e = Inr p \<and> length p \<le> MaxMessageSize \<and> unmarshal p = Inr e"
  shows "\<exists>w' data. WriteEnvelopes marshal put w (map Some es) = (Inr (), w') \<and> sent w' = sent w @ data \<and>
    ReadEnvelopes unmarshal (length es) (data @ rest) = (map Inr es, rest)"
  using assms(2)
proof (induction es arbitrary: w)
  case (Cons e es)
  then obtain p where p: "marshal e = Inr p" "length p \<le> MaxMessageSize" "unmarshal p = Inr e" by auto
  have "EncodeEnvelope marshal (Some e) = Inr (frame p)"
    using p(1,2) by (simp add: EncodeEnvelope_eq_Inr MaxMessageSize_val unat_of_nat)
  moreover obtain w1 where w1: "put w (frame p) = (Inr (), w1)" "sent w1 = sent w @ frame p" using assms(1) by blast
  ultimately have "WriteEnvelope marshal put w (Some e) = (Inr (), w1)" by (simp add: WriteEnvelope_def)
  with Cons.IH [of w1] Cons.prems w1(2) obtain w' data where
    "WriteEnvelopes marshal put w (map Some (e # es)) = (Inr (), w')" "sent w' = sent w @ frame p @ data"
    "ReadEnvelopes unmarshal (length es) (data @ rest) = (map Inr es, rest)" by auto
  thus ?case by (intro exI [of _ w'] exI [of _ "frame p @ data"]) (simp add: ReadEnvelope_frame [OF p(2)] p(3))
qed simp

theorem read_envelopes_of_written_witness:
  "\<exists>data. WriteEnvelopes (\<lambda>_. Inr [7]) (\<lambda>w d. (Inr (), w @ d)) [1] (map Some [envelope (Envelope_Gossip None), envelope (Envelope_Gossip None)])
       = (Inr (), [1] @ data) \<and>
     ReadEnvelopes (\<lambda>b. if b = [7] then Inr (envelope (Envelope_Gossip None)) else fail ''bad'') 2 (data @ [9]) =
       ([Inr (envelope (Envelope_Gossip None)), Inr (envelope (Envelope_Gossip None))], [9])"
proof -
  let ?es = "[envelope (Envelope_Gossip None), envelope (Envelope_Gossip None)]"
  let ?u = "\<lambda>b. if b = [7] then Inr (envelope (Envelope_Gossip None)) else fail ''bad''"
  have "\<forall>e\<in>set ?es. \<exists>p. (Inr [7] :: byte list res) = Inr p \<and> length p \<le> MaxMessageSize \<and> ?u p = Inr e"
    by (simp add: MaxMessageSize_def)
  from read_envelopes_of_written [where put = "\<lambda>w d. (Inr (), w @ d)" and sent = "\<lambda>w. w" and w = "[1]" and rest = "[9]", OF _ this]
  show ?thesis by (auto simp: numeral_2_eq_2)
qed

text \<open>
  What \<open>DecodeEnvelope\<close> accepts: for inputs below 4 GiB, exactly the frames of payloads of
  at most 16 MiB that the unmarshaller accepts; nothing may follow the frame.
\<close>

theorem decode_envelope_accepts:
  "length data < 2 ^ 32 \<Longrightarrow>
   DecodeEnvelope unmarshal data = Inr e \<longleftrightarrow>
     (\<exists>p. data = be32 (of_nat (length p)) @ p \<and> length p \<le> MaxMessageSize \<and> unmarshal p = Inr e)"
  (is "_ \<Longrightarrow> ?dec \<longleftrightarrow> ?acc")
proof
  assume small: "length data < 2 ^ 32" and ?dec
  let ?n = "unbe32 (take 4 data)"
  from \<open>?dec\<close> have len: "4 \<le> length data" and max: "unat ?n \<le> MaxMessageSize"
    and eq: "?n = of_nat (length data - 4)" and um: "unmarshal (take (unat ?n) (drop 4 data)) = Inr e"
    by (auto simp: DecodeEnvelope_def Let_def not_less split: if_splits)
  from eq small have n: "unat ?n = length (drop 4 data)"
    by (simp add: unat_of_nat)
  have "data = take 4 data @ drop 4 data" by simp
  also have "take 4 data = be32 (of_nat (length (drop 4 data)))"
    using len eq be32_unbe32 [of "take 4 data"] by simp
  finally show ?acc using n max um by (intro exI [of _ "drop 4 data"]) simp
next
  assume ?acc
  then obtain p where "data = frame p" "length p \<le> MaxMessageSize" "unmarshal p = Inr e"
    by (auto simp: frame_def)
  thus ?dec by (simp add: DecodeEnvelope_frame MaxMessageSize_val unat_of_nat)
qed

theorem decode_envelope_accepts_witness:
  "DecodeEnvelope (\<lambda>b. Inr (envelope (Envelope_Gossip None))) [0, 0, 0, 1, 7]
     = Inr (envelope (Envelope_Gossip None))"
  using decode_envelope_accepts [of "[0, 0, 0, 1, 7]" "\<lambda>b. Inr (envelope (Envelope_Gossip None))"
      "envelope (Envelope_Gossip None)"]
  by (simp add: MaxMessageSize_def be32_def exI [of _ "[7]"])

text \<open>
  A peer cannot make \<open>ReadEnvelope\<close> take more than the header and 16 MiB from the
  connection, whatever length it claims and whatever the outcome is.
\<close>

theorem read_envelope_bounded:
  "ReadEnvelope unmarshal r = (x, r') \<Longrightarrow> \<exists>used. r = used @ r' \<and> length used \<le> 4 + MaxMessageSize"
proof -
  assume read: "ReadEnvelope unmarshal r = (x, r')"
  obtain h r1 where h: "ReadFull r 4 = (h, r1)" by fastforce
  from ReadFull_consumes [OF h] obtain u1 where u1: "r = u1 @ r1" "length u1 \<le> 4" by blast
  consider "r' = r1" | n y where "ReadFull r1 n = (y, r')" "n \<le> MaxMessageSize"
    using read h by (auto simp: ReadEnvelope_def Let_def not_less split: sum.splits prod.splits if_splits)
  thus ?thesis
  proof cases
    case 1
    with u1 show ?thesis by auto
  next
    case 2
    from ReadFull_consumes [OF 2(1)] obtain u2 where "r1 = u2 @ r'" "length u2 \<le> n" by blast
    with u1 2(2) show ?thesis by (intro exI [of _ "u1 @ u2"]) simp
  qed
qed

theorem read_envelope_bounded_witness:
  "\<exists>used. [255, 255, 255, 255, 1, 2] = used @ [1, 2 :: byte] \<and> length used \<le> 4 + MaxMessageSize"
proof -
  have "ReadEnvelope (\<lambda>_. fail ''x'') [255, 255, 255, 255, 1, 2]
      = (fail ''message length is greater than chunk size'', [1, 2])"
    by (simp add: ReadEnvelope_def ReadFull_def MaxMessageSize_def unbe32_def nat_be_def)
  from read_envelope_bounded [OF this] show ?thesis .
qed

text \<open>
  The size limit is checked on the length already truncated to 32 bits: a payload of
  \<open>2 ^ 32 + k\<close> bytes with small \<open>k\<close> is accepted by \<open>EncodeEnvelope\<close>, and
  \<open>DecodeEnvelope\<close> unmarshals only its first \<open>k\<close> bytes.
\<close>

theorem encode_envelope_truncates_length:
  assumes "marshal e = Inr p" and "length p = 2 ^ 32 + k" and "k \<le> MaxMessageSize"
  shows "\<exists>data. EncodeEnvelope marshal (Some e) = Inr data \<and>
           DecodeEnvelope unmarshal data = unmarshal (take k p)"
proof -
  have len: "unat (of_nat (length p) :: uint32) = k"
    using assms(2,3) by (simp add: unat_of_nat MaxMessageSize_val del: of_nat_add)
  with assms have "EncodeEnvelope marshal (Some e) = Inr (frame p)"
    by (simp add: EncodeEnvelope_eq_Inr)
  moreover from len assms(3) have "DecodeEnvelope unmarshal (frame p) = unmarshal (take k p)"
    by (simp add: DecodeEnvelope_frame)
  ultimately show ?thesis by blast
qed

theorem encode_envelope_truncates_length_witness:
  "\<exists>data. EncodeEnvelope (\<lambda>_. Inr (replicate (2 ^ 32 + 3) 1)) (Some (envelope (Envelope_Gossip None))) = Inr data \<and>
     DecodeEnvelope (\<lambda>b. if b = [1, 1, 1] then Inr (envelope (Envelope_Gossip None)) else fail ''bad'') data
       = Inr (envelope (Envelope_Gossip None))"
proof -
  have "(3 :: nat) \<le> MaxMessageSize" by (simp add: MaxMessageSize_def)
  from encode_envelope_truncates_length [OF _ _ this,
      of "\<lambda>_. Inr (replicate (2 ^ 32 + 3) 1)" "envelope (Envelope_Gossip None)" "replicate (2 ^ 32 + 3) 1"
        "\<lambda>b. if b = [1, 1, 1] then Inr (envelope (Envelope_Gossip None)) else fail ''bad''"]
  show ?thesis by (simp add: take_replicate numeral_3_eq_3)
qed

end
