(* ===== verification/Policy.thy ===== *)
theory Policy
  imports Identity Credit_Props Dag Codec
begin

text \<open>
  The admission rules of \<open>transfer/\<close>: the three tiers of service policy (\<open>policy.go\<close>), the
  handshake messages (\<open>handshake.go\<close>) and the time window of transfer requests (\<open>security.go\<close>).
  The clock, the database engine, the platform's float conversions and the iteration order of maps
  are arguments.
\<close>

section \<open>Service policy\<close>

definition MinStrictWitnesses :: nat where "MinStrictWitnesses = 5"
definition MinStrictClusters :: nat where "MinStrictClusters = 3"
definition MinStrictFresh :: nat where "MinStrictFresh = 2"

definition distinctClusters :: "CheckpointWitness option list \<Rightarrow> nat" where
  "distinctClusters witnesses =
     card (fold (\<lambda>w clusters. case w of None \<Rightarrow> clusters
       | Some w \<Rightarrow> if cw_EncounterCluster w = [] then clusters else insert (cw_EncounterCluster w) clusters) witnesses {})"

definition freshWitnessCount :: "CheckpointWitness option list \<Rightarrow> ShareRecord option list \<Rightarrow> slice \<Rightarrow> nat" where
  "freshWitnessCount witnesses recentRecords devicePubkey =
     (let recent = recentPeers devicePubkey recentRecords in
      fold (\<lambda>w fresh. case w of None \<Rightarrow> fresh
        | Some w \<Rightarrow> if length (bs (cw_WitnessPubkey w)) = 0 then fresh
            else if bs (cw_WitnessPubkey w) \<notin> recent then fresh + 1 else fresh) witnesses 0)"

record policy_env =
  pe_platform :: platform
  pe_order :: "(PeerEpoch \<times> int64) list \<Rightarrow> (PeerEpoch \<times> int64) list"
  pe_engine :: engine
  pe_now :: int64

text \<open>\<open>fmt.Sprintf("... %v", err)\<close> of the error of a call, for the reason of a rejection.\<close>

definition reject_on_error :: "string \<Rightarrow> 'a res \<Rightarrow> ('a \<Rightarrow> (bool \<times> string) res) \<Rightarrow> (bool \<times> string) res" where
  "reject_on_error m r f =
     (case r of Inl (Err e) \<Rightarrow> Inr (False, m @ Error e) | Inl (Panic p) \<Rightarrow> Inl (Panic p) | Inr x \<Rightarrow> f x)"

definition evaluateLight ::
  "policy_env \<Rightarrow> slice \<Rightarrow> Checkpoint option \<Rightarrow> ShareRecord option list \<Rightarrow> (bool \<times> string) res" where
  "evaluateLight pe peerPubkey checkpoint recentRecords =
     (case checkpoint of
        None \<Rightarrow> Inr (False, ''light policy requires checkpoint'')
      | Some cp \<Rightarrow>
          if length (cp_Witnesses cp) < 1 then Inr (False, ''light policy requires at least one witness'')
          else reject_on_error ''light chain verification failed: '' (VerifyChainSegment recentRecords peerPubkey) (\<lambda>_.
            res_bind (ComputeEffectiveBalance (pe_platform pe) recentRecords peerPubkey (cp_Timestamp cp) (pe_now pe) DefaultParams) (\<lambda>balance.
            if sint balance \<le> 0 then Inr (False, ''light policy requires positive balance'')
            else Inr (True, ''approved: policy light''))))"

definition evaluateStrict ::
  "policy_env \<Rightarrow> slice \<Rightarrow> Checkpoint option \<Rightarrow> ShareRecord option list \<Rightarrow> (bool \<times> string) res" where
  "evaluateStrict pe peerPubkey checkpoint recentRecords =
     (case checkpoint of
        None \<Rightarrow> Inr (False, ''strict policy requires checkpoint'')
      | Some cp \<Rightarrow>
          if cp_Confidence cp \<noteq> CONFIDENCE_HIGH then Inr (False, ''strict policy requires high confidence checkpoint'')
          else if length (cp_Witnesses cp) < MinStrictWitnesses then Inr (False, ''strict policy requires at least 5 witnesses'')
          else if distinctClusters (cp_Witnesses cp) < MinStrictClusters
          then Inr (False, ''strict policy requires at least 3 witness clusters'')
          else if freshWitnessCount (cp_Witnesses cp) recentRecords peerPubkey < MinStrictFresh
          then Inr (False, ''strict policy requires at least 2 fresh witnesses'')
          else reject_on_error ''strict chain verification failed: '' (VerifyChainSegment recentRecords peerPubkey) (\<lambda>_.
            let params = DefaultParams in
            res_bind (DiversityWeightedCredit recentRecords peerPubkey (WindowSize params)) (\<lambda>diversity.
            res_bind (ApplyPerPeerCaps (pe_order pe) recentRecords peerPubkey params) (\<lambda>capped.
            res_bind (ComputeEffectiveBalance (pe_platform pe) recentRecords peerPubkey (cp_Timestamp cp) (pe_now pe) params) (\<lambda>effective.
            if sint effective \<le> 0 then Inr (False, ''strict policy requires positive effective balance'')
            else if sint diversity \<le> 0 then Inr (False, ''strict policy requires non-zero diversity credit'')
            else if sint capped \<le> 0 then Inr (False, ''strict policy requires non-zero capped credit'')
            else Inr (True, ''approved: policy strict''))))))"

definition EvaluatePolicy ::
  "policy_env \<Rightarrow> Store option \<Rightarrow> slice \<Rightarrow> ServicePolicy \<Rightarrow> Checkpoint option \<Rightarrow> ShareRecord option list \<Rightarrow> (bool \<times> string) res" where
  "EvaluatePolicy pe store peerPubkey policy checkpoint recentRecords =
     (if length (bs peerPubkey) = 0 then Inr (False, ''peer public key is required'')
      else case store of
        None \<Rightarrow> Inr (False, ''store is required'')
      | Some s \<Rightarrow>
          reject_on_error ''fork evidence check failed: '' (HasForkEvidence (pe_engine pe) peerPubkey s) (\<lambda>hasForkEvidence.
          if hasForkEvidence then Inr (False, ''peer has fork evidence'')
          else if policy = POLICY_NONE then Inr (True, ''approved: policy none'')
          else if policy = POLICY_LIGHT then evaluateLight pe peerPubkey checkpoint recentRecords
          else if policy = POLICY_STRICT then evaluateStrict pe peerPubkey checkpoint recentRecords
          else Inr (False, ''unknown service policy: '' @ itoa_s (sint policy))))"

section \<open>Handshake\<close>

definition BuildHandshake :: "DeviceIdentity option \<Rightarrow> ServicePolicy \<Rightarrow> string \<Rightarrow> HandshakeMsg" where
  "BuildHandshake ident policy sessionID =
     \<lparr>hs_SessionId = Some (string_bytes sessionID), hs_EphemeralPubkey = None,
      hs_IdentityPubkey = (case ident of None \<Rightarrow> None | Some d \<Rightarrow> clone (di_Pubkey d)),
      hs_Policy = policy, hs_LatestCheckpoint = None, hs_RecordsSinceCheckpoint = []\<rparr>"

definition isKnownPolicy :: "ServicePolicy \<Rightarrow> bool" where
  "isKnownPolicy policy \<longleftrightarrow> policy = POLICY_NONE \<or> policy = POLICY_LIGHT \<or> policy = POLICY_STRICT"

definition ProcessHandshake :: "HandshakeMsg option \<Rightarrow> (slice \<times> ServicePolicy) res" where
  "ProcessHandshake msg =
     (case msg of
        None \<Rightarrow> fail ''handshake message is required''
      | Some m \<Rightarrow>
          if length (bs (hs_SessionId m)) = 0 then fail ''handshake session id is required''
          else if length (bs (hs_IdentityPubkey m)) = 0 then fail ''handshake identity pubkey is required''
          else if \<not> isKnownPolicy (hs_Policy m) then fail (''unknown service policy: '' @ itoa_s (sint (hs_Policy m)))
          else Inr (clone (hs_IdentityPubkey m), hs_Policy m))"

definition NegotiatePolicy :: "ServicePolicy \<Rightarrow> ServicePolicy \<Rightarrow> ServicePolicy" where
  "NegotiatePolicy localPolicy peerPolicy = (if sint localPolicy < sint peerPolicy then peerPolicy else localPolicy)"

definition EncodeHandshakeEnvelope :: "proto_lib \<Rightarrow> HandshakeMsg option \<Rightarrow> byte list res" where
  "EncodeHandshakeEnvelope pl msg =
     (case msg of
        None \<Rightarrow> fail ''handshake message is nil''
      | Some _ \<Rightarrow> EncodeEnvelope (marshal_Envelope pl) (Some (envelope (Envelope_Handshake msg))))"

definition DecodeHandshakeEnvelope :: "proto_lib \<Rightarrow> byte list \<Rightarrow> HandshakeMsg res" where
  "DecodeHandshakeEnvelope pl data =
     res_bind (DecodeEnvelope (unmarshal_Envelope pl) data) (\<lambda>env.
     case GetHandshake (Some env) of
       None \<Rightarrow> fail ''envelope does not contain handshake payload''
     | Some handshake \<Rightarrow> Inr handshake)"

section \<open>Request window\<close>

definition DefaultTransferRequestTTLSeconds :: int64 where
  "DefaultTransferRequestTTLSeconds = 5 * 60"

definition ValidateTransferRequestWindow :: "TransferRequest option \<Rightarrow> int64 \<Rightarrow> int64 \<Rightarrow> unit res" where
  "ValidateTransferRequestWindow req now maxAgeSeconds =
     (case req of
        None \<Rightarrow> fail ''transfer request is required''
      | Some q \<Rightarrow>
          let maxAgeSeconds = (if sint maxAgeSeconds \<le> 0 then DefaultTransferRequestTTLSeconds else maxAgeSeconds) in
          if sint (tr_Timestamp q) \<le> 0 then fail ''transfer request timestamp is required''
          else if sint (now + 30) < sint (tr_Timestamp q) then fail ''transfer request timestamp is in the future''
          else if sint maxAgeSeconds < sint (now - tr_Timestamp q) then fail ''transfer request expired''
          else Inr ())"

definition IsTransferRequestExpired :: "TransferRequest option \<Rightarrow> int64 \<Rightarrow> bool" where
  "IsTransferRequestExpired req now =
     (case req of None \<Rightarrow> True
      | Some q \<Rightarrow> sint DefaultTransferRequestTTLSeconds < sint (now - tr_Timestamp q))"

section \<open>Properties\<close>

lemma reject_on_error_True:
  "reject_on_error m r f = Inr (True, why) \<longleftrightarrow> (\<exists>x. r = Inr x \<and> f x = Inr (True, why))"
  by (auto simp: reject_on_error_def split: sum.splits failure.splits)

lemma evaluateLight_True:
  "evaluateLight pe k cp rs = Inr (True, why) \<longleftrightarrow>
     (\<exists>c b. cp = Some c \<and> cp_Witnesses c \<noteq> [] \<and> VerifyChainSegment rs k = Inr () \<and> why = ''approved: policy light'' \<and>
        ComputeEffectiveBalance (pe_platform pe) rs k (cp_Timestamp c) (pe_now pe) DefaultParams = Inr b \<and> 0 < sint b)"
  by (auto simp: evaluateLight_def reject_on_error_True res_bind_eq_Inr not_le split: option.splits)

lemma evaluateStrict_True:
  "evaluateStrict pe k cp rs = Inr (True, why) \<longleftrightarrow>
     (\<exists>c b d cap. cp = Some c \<and> cp_Confidence c = CONFIDENCE_HIGH \<and> 5 \<le> length (cp_Witnesses c) \<and>
        3 \<le> distinctClusters (cp_Witnesses c) \<and> 2 \<le> freshWitnessCount (cp_Witnesses c) rs k \<and>
        VerifyChainSegment rs k = Inr () \<and> why = ''approved: policy strict'' \<and>
        DiversityWeightedCredit rs k (WindowSize DefaultParams) = Inr d \<and> 0 < sint d \<and>
        ApplyPerPeerCaps (pe_order pe) rs k DefaultParams = Inr cap \<and> 0 < sint cap \<and>
        ComputeEffectiveBalance (pe_platform pe) rs k (cp_Timestamp c) (pe_now pe) DefaultParams = Inr b \<and> 0 < sint b)"
  by (auto simp: evaluateStrict_def reject_on_error_True res_bind_eq_Inr Let_def not_le not_less
      MinStrictWitnesses_def MinStrictClusters_def MinStrictFresh_def split: option.splits)

lemma EvaluatePolicy_True:
  "EvaluatePolicy pe store k policy cp rs = Inr (True, why) \<longleftrightarrow>
     bs k \<noteq> [] \<and> (\<exists>s. store = Some s \<and> HasForkEvidence (pe_engine pe) k s = Inr False) \<and>
     (policy = POLICY_NONE \<and> why = ''approved: policy none'' \<or>
      policy = POLICY_LIGHT \<and> evaluateLight pe k cp rs = Inr (True, why) \<or>
      policy = POLICY_STRICT \<and> evaluateStrict pe k cp rs = Inr (True, why))"
  by (auto simp: EvaluatePolicy_def reject_on_error_True policy_defs split: option.splits)

text \<open>
  C16. The evaluation of the policy never admits a peer with fork evidence, under any policy and whatever the peer presents; and
  the tiers are nested: what the strict policy admits the light policy admits, and what that
  admits the policy without checks admits.  (A session may serve a peer without evaluating the policy:
  which handshakes it admits is the subject of \<open>Session_Live\<close>.)
\<close>

theorem policy_tiers_nested:
  "(HasForkEvidence (pe_engine pe) k s = Inr True \<longrightarrow> \<not> (\<exists>why. EvaluatePolicy pe (Some s) k policy cp rs = Inr (True, why))) \<and>
   ((\<exists>why. EvaluatePolicy pe store k POLICY_STRICT cp rs = Inr (True, why)) \<longrightarrow>
    (\<exists>why. EvaluatePolicy pe store k POLICY_LIGHT cp rs = Inr (True, why))) \<and>
   ((\<exists>why. EvaluatePolicy pe store k POLICY_LIGHT cp rs = Inr (True, why)) \<longrightarrow>
    (\<exists>why. EvaluatePolicy pe store k POLICY_NONE cp rs = Inr (True, why)))"
  by (auto simp: EvaluatePolicy_True evaluateLight_True evaluateStrict_True policy_defs)

definition demo_env :: policy_env where
  "demo_env = \<lparr>pe_platform = demo_platform, pe_order = (\<lambda>l. l), pe_engine = demo_engine, pe_now = 9\<rparr>"

text \<open>A peer that the strict policy admits: one record sent, five witnesses of three clusters, none of them a party of the record.\<close>

definition demo_witness :: "byte \<Rightarrow> string \<Rightarrow> CheckpointWitness option" where
  "demo_witness k cluster = Some \<lparr>cw_WitnessPubkey = Some [k], cw_WitnessSig = None, cw_EncounterCluster = cluster\<rparr>"

definition demo_vouched :: Checkpoint where
  "demo_vouched = \<lparr>cp_DevicePubkey = Some [1], cp_ChainHead = None, cp_RecordIndex = 1, cp_Totals = None, cp_RawBalance = 0,
     cp_Timestamp = 10, cp_DeviceSig = None,
     cp_Witnesses = [demo_witness 3 ''a'', demo_witness 4 ''a'', demo_witness 5 ''b'', demo_witness 6 ''b'', demo_witness 7 ''c''],
     cp_Confidence = CONFIDENCE_HIGH\<rparr>"

lemma demo_credit:
  "DiversityWeightedCredit [Some (demo_sent 2 900 10)] (Some [1]) 50 = Inr 900"
  "ApplyPerPeerCaps (\<lambda>l. l) [Some (demo_sent 2 900 10)] (Some [1]) DefaultParams = Inr 900"
  "ComputeEffectiveBalance demo_platform [Some (demo_sent 2 900 10)] (Some [1]) 10 9 DefaultParams = Inr 900"
proof -
  show c: "DiversityWeightedCredit [Some (demo_sent 2 900 10)] (Some [1]) 50 = Inr 900"
    by code_simp
  show "ApplyPerPeerCaps (\<lambda>l. l) [Some (demo_sent 2 900 10)] (Some [1]) DefaultParams = Inr 900"
    by code_simp
  have early: "Before (Unix 9) (Unix 10)" by (simp add: Before_def Unix_def unixToInternal_def)
  have f: "DecayFactor demo_platform (Unix 10) (Unix 9) h = Fin 1" for h using early by (simp add: DecayFactor_def)
  have "rnd (of_nat 900) = (of_nat 900 :: rat)" by (rule rnd_nat) simp
  hence "sint (DecayedValue demo_platform 900 (Unix 10) (Unix 9) h) = sint (900 :: int64)" for h
    using DecayedValue_value [OF _ _ f, of 900 h] by simp
  hence d: "DecayedValue demo_platform 900 (Unix 10) (Unix 9) h = 900" for h by (rule signed_word_eqI)
  have "WindowSize DefaultParams = 50" by (simp add: DefaultParams_def)
  with c d early show "ComputeEffectiveBalance demo_platform [Some (demo_sent 2 900 10)] (Some [1]) 10 9 DefaultParams = Inr 900"
    by (simp add: ComputeEffectiveBalance_def ComputeDripAllowance_def sumReceived_def sumCredits_def Let_def demo_sent_def bytes_Equal_def)
qed

lemma demo_strict: "EvaluatePolicy demo_env (Some empty_store) (Some [1]) POLICY_STRICT (Some demo_vouched) [Some (demo_sent 2 900 10)] =
    Inr (True, ''approved: policy strict'')"
proof -
  have "HasForkEvidence demo_engine (Some [1]) empty_store = Inr False"
    by (simp add: HasForkEvidence_def demo_engine_def empty_store_def)
  moreover have "distinctClusters (cp_Witnesses demo_vouched) = 3"
    by (simp add: distinctClusters_def demo_vouched_def demo_witness_def)
  moreover have "freshWitnessCount (cp_Witnesses demo_vouched) [Some (demo_sent 2 900 10)] (Some [1]) = 5"
    by (simp add: freshWitnessCount_def recentPeers_def demo_sent_def bytes_Equal_def demo_vouched_def demo_witness_def)
  moreover have "WindowSize DefaultParams = 50" by (simp add: DefaultParams_def)
  moreover have "cp_Confidence demo_vouched = CONFIDENCE_HIGH" "length (cp_Witnesses demo_vouched) = 5" "cp_Timestamp demo_vouched = 10"
    by (simp_all add: demo_vouched_def)
  ultimately show ?thesis
    by (simp add: EvaluatePolicy_True evaluateStrict_True policy_defs demo_env_def demo_credit VerifyChainSegment_def)
qed

theorem policy_tiers_nested_witness:
  "\<not> (\<exists>why. EvaluatePolicy demo_env (Some (empty_store\<lparr>fork_evidence := [\<lparr>kr_device_pubkey = Some [1], kr_record_a = Some [],
      kr_record_b = Some [], kr_reporter_pubkey = Some [], kr_reporter_sig = Some [], kr_detected_at = 0\<rparr>]\<rparr>))
      (Some [1]) POLICY_NONE None [] = Inr (True, why)) \<and>
   (\<exists>why. EvaluatePolicy demo_env (Some empty_store) (Some [1]) POLICY_LIGHT (Some demo_vouched) [Some (demo_sent 2 900 10)] = Inr (True, why)) \<and>
   (\<exists>why. EvaluatePolicy demo_env (Some empty_store) (Some [1]) POLICY_NONE (Some demo_vouched) [Some (demo_sent 2 900 10)] = Inr (True, why))"
  (is "\<not> (\<exists>why. EvaluatePolicy _ (Some ?s) _ _ _ _ = _) \<and> _")
proof -
  have "HasForkEvidence (pe_engine demo_env) (Some [1]) ?s = Inr True"
    by (simp add: HasForkEvidence_def demo_env_def demo_engine_def)
  with policy_tiers_nested [of demo_env "Some [1]" ?s] demo_strict show ?thesis by blast
qed

text \<open>
  A transfer request is in its window exactly when its timestamp is positive, at most 30
  seconds ahead of the clock, and not older than the maximum age (five minutes when none is given).
\<close>

theorem request_window_iff:
  assumes "0 \<le> sint now" and "sint now < 2 ^ 62"
  shows "ValidateTransferRequestWindow (Some q) now maxAge = Inr () \<longleftrightarrow>
    0 < sint (tr_Timestamp q) \<and> sint (tr_Timestamp q) \<le> sint now + 30 \<and>
    sint now - sint (tr_Timestamp q) \<le> (if sint maxAge \<le> 0 then 300 else sint maxAge)"
proof -
  have "sint (30 :: int64) = 30" by simp
  hence f: "sint (now + 30) = sint now + 30" using assms by (subst sint_plus64) simp_all
  have "sint (now - tr_Timestamp q) = sint now - sint (tr_Timestamp q)" if "0 < sint (tr_Timestamp q)"
  proof -
    have "now - tr_Timestamp q = word_of_int (sint now - sint (tr_Timestamp q))" by simp
    thus ?thesis using assms that sint_int64 [of "tr_Timestamp q"] sint_int64_of_int [of "sint now - sint (tr_Timestamp q)"] by simp
  qed
  with f show ?thesis
    by (auto simp: ValidateTransferRequestWindow_def Let_def DefaultTransferRequestTTLSeconds_def not_le not_less)
qed

theorem request_window_iff_witness:
  "ValidateTransferRequestWindow (Some \<lparr>tr_RequesterPubkey = None, tr_FileHash = None, tr_ChunkIndices = [], tr_Nonce = None,
     tr_Timestamp = 1000, tr_Signature = None\<rparr>) 1300 0 = Inr () \<and>
   ValidateTransferRequestWindow (Some \<lparr>tr_RequesterPubkey = None, tr_FileHash = None, tr_ChunkIndices = [], tr_Nonce = None,
     tr_Timestamp = 1000, tr_Signature = None\<rparr>) 1301 0 \<noteq> Inr ()"
  using request_window_iff [of 1300 "\<lparr>tr_RequesterPubkey = None, tr_FileHash = None, tr_ChunkIndices = [], tr_Nonce = None,
      tr_Timestamp = 1000, tr_Signature = None\<rparr>" 0]
    request_window_iff [of 1301 "\<lparr>tr_RequesterPubkey = None, tr_FileHash = None, tr_ChunkIndices = [], tr_Nonce = None,
      tr_Timestamp = 1000, tr_Signature = None\<rparr>" 0]
  by simp

text \<open>The negotiated policy is the stricter of the two, whichever side computes it.\<close>

lemma NegotiatePolicy_max: "sint (NegotiatePolicy a b) = max (sint a) (sint b)"
  by (simp add: NegotiatePolicy_def max_def)

lemma NegotiatePolicy_commute: "NegotiatePolicy a b = NegotiatePolicy b a"
  by (auto simp: NegotiatePolicy_def not_less intro: signed_word_eqI antisym)

lemma ProcessHandshake_BuildHandshake:
  assumes "sid \<noteq> []" "bs (di_Pubkey d) \<noteq> []" "isKnownPolicy p"
  shows "ProcessHandshake (Some (BuildHandshake (Some d) p sid)) = Inr (Some (bs (di_Pubkey d)), p)"
  using assms by (simp add: ProcessHandshake_def BuildHandshake_def string_bytes_def clone_def)

lemma DecodeHandshake_EncodeHandshake:
  assumes "EncodeHandshakeEnvelope pl (Some m) = Inr data"
    and "\<And>e p. marshal_Envelope pl e = Inr p \<Longrightarrow> length p < 2 ^ 32 \<and> unmarshal_Envelope pl p = Inr e"
  shows "DecodeHandshakeEnvelope pl data = Inr m"
proof -
  from assms(1) obtain p where p: "marshal_Envelope pl (envelope (Envelope_Handshake (Some m))) = Inr p"
    "unat (of_nat (length p) :: uint32) \<le> MaxMessageSize" "data = frame p"
    by (auto simp: EncodeHandshakeEnvelope_def EncodeEnvelope_eq_Inr)
  with assms(2) [OF p(1)] show ?thesis
    by (simp add: DecodeHandshakeEnvelope_def DecodeEnvelope_frame unat_small_length)
qed

end
