(* ===== verification/Session.thy ===== *)
theory Session
  imports Policy Batch
begin

text \<open>
  The transfer session of \<open>transfer/engine.go\<close>: its states, the handlers of each state and
  the loop that runs them.

  What the session talks to are interfaces (\<open>transfer/interfaces.go\<close>): transport, chain
  appender, balance checker, signer and file storage.  They are parameters that work on one
  state \<open>'w\<close> of the outside world, so a call to \<open>Recv\<close> may also let other goroutines store chunks
  or cancel the context.  A call that blocks for ever gives \<open>None\<close>.
\<close>

section \<open>States\<close>

type_synonym TransferState = string

definition StateIdle :: TransferState where "StateIdle = ''IDLE''"
definition StateHandshake :: TransferState where "StateHandshake = ''HANDSHAKE''"
definition StateVerifying :: TransferState where "StateVerifying = ''VERIFYING''"
definition StateTransferring :: TransferState where "StateTransferring = ''TRANSFERRING''"
definition StateCoSigning :: TransferState where "StateCoSigning = ''CO_SIGNING''"
definition StateGossiping :: TransferState where "StateGossiping = ''GOSSIPING''"
definition StateComplete :: TransferState where "StateComplete = ''COMPLETE''"
definition StateRejected :: TransferState where "StateRejected = ''REJECTED''"
definition StateFailed :: TransferState where "StateFailed = ''FAILED''"

lemmas state_defs = StateIdle_def StateHandshake_def StateVerifying_def StateTransferring_def StateCoSigning_def
  StateGossiping_def StateComplete_def StateRejected_def StateFailed_def

definition maxVerificationPayloadBytes :: nat where
  "maxVerificationPayloadBytes = 512 * 1024"

type_synonym SessionDirection = string

definition DirectionOutbound :: SessionDirection where "DirectionOutbound = ''OUTBOUND''"
definition DirectionInbound :: SessionDirection where "DirectionInbound = ''INBOUND''"

definition isValidTransition :: "TransferState \<Rightarrow> TransferState \<Rightarrow> bool" where
  "isValidTransition current nxt =
     (if current = StateIdle then nxt = StateHandshake
      else if current = StateHandshake then nxt = StateVerifying \<or> nxt = StateRejected \<or> nxt = StateFailed
      else if current = StateVerifying then nxt = StateTransferring \<or> nxt = StateRejected \<or> nxt = StateFailed
      else if current = StateTransferring
      then nxt = StateTransferring \<or> nxt = StateCoSigning \<or> nxt = StateComplete \<or> nxt = StateFailed
      else if current = StateCoSigning then nxt = StateGossiping \<or> nxt = StateFailed
      else if current = StateGossiping then nxt = StateComplete \<or> nxt = StateFailed
      else False)"

section \<open>The session object\<close>

text \<open>The methods of \<open>Transport\<close> that the session calls; \<open>TryRecv\<close> returns the envelope and \<open>ok\<close>.\<close>

record 'w Transport =
  tp_Send :: "Envelope option \<Rightarrow> 'w \<Rightarrow> unit res \<times> 'w"
  tp_Recv :: "'w \<Rightarrow> (Envelope option res \<times> 'w) option"
  tp_TryRecv :: "'w \<Rightarrow> Envelope option \<times> bool \<times> 'w"
  tp_PutBack :: "Envelope option \<Rightarrow> 'w \<Rightarrow> 'w"

record 'w TransferSession =
  ss_ID :: string
  ss_PeerID :: string
  ss_Direction :: SessionDirection
  ss_FileHash :: slice
  ss_State :: TransferState
  ss_transport :: "'w Transport option"
  ss_chain :: "(ShareRecord \<Rightarrow> 'w \<Rightarrow> unit res \<times> 'w) option"
  ss_balance :: "(ShareRecord option list \<Rightarrow> slice \<Rightarrow> int64 \<Rightarrow> 'w \<Rightarrow> int64 res) option"
  ss_signer :: "(byte list \<Rightarrow> slice res) option"
  ss_storage :: "'w FileStorage option"
  ss_policyStore :: "('w \<Rightarrow> Store) option"
  ss_localPubKey :: slice
  ss_pendingRequest :: "TransferRequest option"
  ss_outboundChunkRequestSent :: bool
  ss_err :: "go_error option"

text \<open>What the handlers use besides: the libraries, the clock and the context of the run.\<close>

record 'w session_env =
  se_crypto :: crypto_prims
  se_proto :: proto_lib
  se_policy :: "'w \<Rightarrow> policy_env"
  se_ctx_Err :: "'w \<Rightarrow> go_error option"

definition NewSession ::
  "string \<Rightarrow> SessionDirection \<Rightarrow> slice \<Rightarrow> 'w Transport option \<Rightarrow> (ShareRecord \<Rightarrow> 'w \<Rightarrow> unit res \<times> 'w) option \<Rightarrow>
   (ShareRecord option list \<Rightarrow> slice \<Rightarrow> int64 \<Rightarrow> 'w \<Rightarrow> int64 res) option \<Rightarrow> (byte list \<Rightarrow> slice res) option \<Rightarrow> 'w TransferSession" where
  "NewSession peerID direction fileHash transport chain balance signer =
     \<lparr>ss_ID = peerID, ss_PeerID = peerID, ss_Direction = direction, ss_FileHash = clone fileHash, ss_State = StateIdle,
      ss_transport = transport, ss_chain = chain, ss_balance = balance, ss_signer = signer, ss_storage = None,
      ss_policyStore = None, ss_localPubKey = None, ss_pendingRequest = None, ss_outboundChunkRequestSent = False,
      ss_err = None\<rparr>"

definition SetLocalPubKey :: "slice \<Rightarrow> 'w TransferSession \<Rightarrow> 'w TransferSession" where
  "SetLocalPubKey pubKey s = s\<lparr>ss_localPubKey := clone pubKey\<rparr>"

definition SetFileStorage :: "'w FileStorage option \<Rightarrow> 'w TransferSession \<Rightarrow> 'w TransferSession" where
  "SetFileStorage storage s = s\<lparr>ss_storage := storage\<rparr>"

definition SetPendingRequest :: "TransferRequest option \<Rightarrow> 'w TransferSession \<Rightarrow> 'w TransferSession" where
  "SetPendingRequest req s = s\<lparr>ss_pendingRequest := req\<rparr>"

definition SetPolicyStore :: "('w \<Rightarrow> Store) option \<Rightarrow> 'w TransferSession \<Rightarrow> 'w TransferSession" where
  "SetPolicyStore store s = s\<lparr>ss_policyStore := store\<rparr>"

definition RebindPeer :: "string \<Rightarrow> 'w TransferSession \<Rightarrow> 'w TransferSession" where
  "RebindPeer newPeerID s = s\<lparr>ss_PeerID := newPeerID\<rparr>"

definition TransitionTo :: "TransferState \<Rightarrow> ('w TransferSession, unit) op" where
  "TransitionTo nxt s =
     (if \<not> isValidTransition (ss_State s) nxt
      then (fail (''invalid state transition: '' @ ss_State s @ '' -> '' @ nxt), s)
      else (Inr (), s\<lparr>ss_State := nxt\<rparr>))"

definition setErr :: "go_error \<Rightarrow> 'w TransferSession \<Rightarrow> 'w TransferSession" where
  "setErr e s = s\<lparr>ss_err := Some e\<rparr>"

definition getErr :: "'w TransferSession \<Rightarrow> unit res" where
  "getErr s = (case ss_err s of None \<Rightarrow> Inr () | Some e \<Rightarrow> Inl (Err e))"

section \<open>Handlers\<close>

text \<open>
  A handler returns a state and an error; \<open>Next\<close> has no error.  The handlers see the session and
  the world, and \<open>None\<close> means that the handler never returns.
\<close>

datatype handler_result = Next TransferState | Stop TransferState go_error | Panicked string

type_synonym 'w handled = "(handler_result \<times> 'w TransferSession \<times> 'w) option"

definition stop :: "TransferState \<Rightarrow> string \<Rightarrow> 'w TransferSession \<Rightarrow> 'w \<Rightarrow> 'w handled" where
  "stop st m s w = Some (Stop st (Errorf m), s, w)"

text \<open>\<open>if err != nil { return st, fmt.Errorf("m: %w", err) }\<close>\<close>

definition or_stop :: "TransferState \<Rightarrow> string \<Rightarrow> 'a res \<Rightarrow> 'w TransferSession \<Rightarrow> 'w \<Rightarrow> ('a \<Rightarrow> 'w handled) \<Rightarrow> 'w handled" where
  "or_stop st m r s w k =
     (case r of Inl (Err e) \<Rightarrow> Some (Stop st (Wrapf m e), s, w)
      | Inl (Panic p) \<Rightarrow> Some (Panicked p, s, w)
      | Inr x \<Rightarrow> k x)"

definition recv_or_stop ::
  "string \<Rightarrow> 'w Transport \<Rightarrow> 'w TransferSession \<Rightarrow> 'w \<Rightarrow> (Envelope option \<Rightarrow> 'w \<Rightarrow> 'w handled) \<Rightarrow> 'w handled" where
  "recv_or_stop m t s w k =
     (case tp_Recv t w of None \<Rightarrow> None | Some (r, w') \<Rightarrow> or_stop StateFailed m r s w' (\<lambda>env. k env w'))"

definition send_or_stop ::
  "string \<Rightarrow> 'w Transport option \<Rightarrow> Envelope_Payload \<Rightarrow> 'w TransferSession \<Rightarrow> 'w \<Rightarrow> ('w \<Rightarrow> 'w handled) \<Rightarrow> 'w handled" where
  "send_or_stop m transport p s w k =
     (case transport of None \<Rightarrow> k w
      | Some t \<Rightarrow> (let (r, w') = tp_Send t (Some (envelope p)) w in or_stop StateFailed m r s w' (\<lambda>_. k w')))"

definition handleHandshake :: "'w session_env \<Rightarrow> 'w TransferSession \<Rightarrow> 'w \<Rightarrow> 'w handled" where
  "handleHandshake en s w = Some (Next StateVerifying, s, w)"

text \<open>The records the policy sees: those of the handshake, or stored ones when it has none.\<close>

definition recordsForPolicy :: "'w session_env \<Rightarrow> 'w TransferSession \<Rightarrow> HandshakeMsg \<Rightarrow> slice \<Rightarrow> 'w \<Rightarrow> ShareRecord option list res" where
  "recordsForPolicy en s handshake peerPub w =
     (let records = hs_RecordsSinceCheckpoint handshake in
      case ss_policyStore s of
        None \<Rightarrow> Inr records
      | Some store \<Rightarrow>
          if length records = 0
          then (case GetRecordsByDevice (pe_engine (se_policy en w)) peerPub
                    (getp 0 cp_RecordIndex (hs_LatestCheckpoint handshake)) 200 (store w) of
                  Inr fetched \<Rightarrow> Inr (map Some fetched)
                | Inl (Err _) \<Rightarrow> Inr records
                | Inl (Panic p) \<Rightarrow> Inl (Panic p))
          else Inr records)"

text \<open>The second half of \<open>handleVerifying\<close>: whether an accepted handshake leads on to the transfer.\<close>

definition admitPeer :: "'w session_env \<Rightarrow> 'w TransferSession \<Rightarrow> HandshakeMsg \<Rightarrow> slice \<Rightarrow> ServicePolicy \<Rightarrow> 'w \<Rightarrow> 'w handled" where
  "admitPeer en s handshake peerPub peerPolicy w =
     (if hs_LatestCheckpoint handshake = None \<and> length (hs_RecordsSinceCheckpoint handshake) = 0
      then (case ss_balance s of
              None \<Rightarrow> stop StateRejected ''new-device verify requires balance checker'' s w
            | Some effectiveBalance \<Rightarrow>
                (case effectiveBalance [] peerPub 0 w of
                   Inl (Err e) \<Rightarrow> Some (Stop StateRejected e, s, w)
                 | Inl (Panic p) \<Rightarrow> Some (Panicked p, s, w)
                 | Inr b \<Rightarrow> if sint b > 0 then Some (Next StateTransferring, s, w)
                            else Some (Next StateTransferring, s, w)))
      else
        (case res_bind (recordsForPolicy en s handshake peerPub w) (\<lambda>records.
                EvaluatePolicy (se_policy en w) (map_option (\<lambda>store. store w) (ss_policyStore s)) peerPub peerPolicy
                  (hs_LatestCheckpoint handshake) records) of
           Inl (Panic p) \<Rightarrow> Some (Panicked p, s, w)
         | Inl (Err e) \<Rightarrow> Some (Stop StateRejected e, s, w)
         | Inr (approved, reason) \<Rightarrow>
             if approved then Some (Next StateTransferring, s, w)
             else stop StateRejected (''policy rejected: '' @ reason) s w))"

definition handleVerifying :: "'w session_env \<Rightarrow> 'w TransferSession \<Rightarrow> 'w \<Rightarrow> 'w handled" where
  "handleVerifying en s w =
     (case ss_transport s of
        None \<Rightarrow> stop StateFailed ''verifying requires transport'' s w
      | Some t \<Rightarrow>
     recv_or_stop ''failed to receive verification payload: '' t s w (\<lambda>env w.
     case env of
       None \<Rightarrow> stop StateFailed ''received nil verification envelope'' s w
     | Some _ \<Rightarrow>
     case GetHandshake env of
       None \<Rightarrow> stop StateFailed ''verification envelope missing handshake payload'' s w
     | Some handshake \<Rightarrow>
     if size_Handshake (se_proto en) handshake > maxVerificationPayloadBytes
     then stop StateRejected (''verification payload too large: '' @ itoa (size_Handshake (se_proto en) handshake)
            @ '' > '' @ itoa maxVerificationPayloadBytes) s w
     else or_stop StateRejected ''invalid handshake payload: '' (ProcessHandshake (Some handshake)) s w (\<lambda>(peerPub, peerPolicy).
     admitPeer en s handshake peerPub peerPolicy w)))"

text \<open>The loop that writes the chunks of a received batch: no hash is compared here.\<close>

fun storeChunks :: "'w FileStorage \<Rightarrow> slice \<Rightarrow> ChunkData option list \<Rightarrow> ('w, unit) op" where
  "storeChunks st fileHash [] w = (Inr (), w)"
| "storeChunks st fileHash (ch # rest) w =
     (case fs_WriteChunk st fileHash (getp 0 cd_ChunkIndex ch) (getp None cd_Data ch) w of
        (Inl e, w') \<Rightarrow> (Inl e, w')
      | (Inr _, w') \<Rightarrow> storeChunks st fileHash rest w')"

text \<open>The inner loop: take queued chunk batches until the queue is empty or holds something else.\<close>

definition drainStep :: "'w Transport \<Rightarrow> 'w FileStorage \<Rightarrow> 'w \<Rightarrow> ('w + unit res \<times> 'w) option" where
  "drainStep t st w =
     (let (env, ok, w) = tp_TryRecv t w in
      if \<not> ok then Some (Inr (Inr (), w))
      else (case env of
              None \<Rightarrow> Some (Inl w)
            | Some _ \<Rightarrow>
                (case GetChunkBatch env of
                   Some batch \<Rightarrow>
                     (case storeChunks st (cb_FileHash batch) (cb_Chunks batch) w of
                        (Inl e, w) \<Rightarrow> Some (Inr (Inl e, w))
                      | (Inr _, w) \<Rightarrow> Some (Inl w))
                 | None \<Rightarrow> Some (Inr (Inr (), tp_PutBack t env w)))))"

definition drainBatches :: "'w Transport \<Rightarrow> 'w FileStorage \<Rightarrow> 'w \<Rightarrow> (unit res \<times> 'w) option" where
  "drainBatches t st w = for_ever (drainStep t st) w"

text \<open>The outer loop: wait until no requested chunk is missing.\<close>

definition waitStep ::
  "'w Transport option \<Rightarrow> 'w FileStorage \<Rightarrow> TransferRequest \<Rightarrow> 'w \<Rightarrow> ('w + handler_result \<times> 'w) option" where
  "waitStep transport st req w =
     (case MissingChunkIndices (Some st) (tr_FileHash req) (tr_ChunkIndices req) w of
        Inl (Err e) \<Rightarrow> Some (Inr (Stop StateFailed (Wrapf ''resume chunk check failed: '' e), w))
      | Inl (Panic p) \<Rightarrow> Some (Inr (Panicked p, w))
      | Inr missing \<Rightarrow>
     (case transport of
        None \<Rightarrow>
          Some (Inr (if length missing = 0 then Panicked ''nil pointer dereference''
                     else Stop StateFailed (Errorf ''transfer requires transport while waiting for chunks''), w))
      | Some t \<Rightarrow>
          if length missing = 0
          then Option.bind (drainBatches t st w) (\<lambda>(r, w).
            Some (Inr (case r of
                Inl (Err e) \<Rightarrow> Stop StateFailed (Wrapf ''store received chunk: '' e)
              | Inl (Panic p) \<Rightarrow> Panicked p
              | Inr _ \<Rightarrow> Next StateComplete, w)))
          else Option.bind (tp_Recv t w) (\<lambda>(r, w).
            case r of
              Inl (Err e) \<Rightarrow> Some (Inr (Stop StateFailed (Wrapf ''waiting for chunk delivery: '' e), w))
            | Inl (Panic p) \<Rightarrow> Some (Inr (Panicked p, w))
            | Inr None \<Rightarrow> Some (Inr (Stop StateFailed (Errorf ''transport returned nil envelope while waiting for chunks''), w))
            | Inr (Some e) \<Rightarrow>
                (case GetChunkBatch (Some e) of
                   None \<Rightarrow> Some (Inl w)
                 | Some batch \<Rightarrow>
                     (case storeChunks st (cb_FileHash batch) (cb_Chunks batch) w of
                        (Inl (Err e), w) \<Rightarrow> Some (Inr (Stop StateFailed (Wrapf ''store received chunk: '' e), w))
                      | (Inl (Panic p), w) \<Rightarrow> Some (Inr (Panicked p, w))
                      | (Inr _, w) \<Rightarrow> Some (Inl w))))))"

definition waitForChunks ::
  "'w Transport option \<Rightarrow> 'w FileStorage \<Rightarrow> TransferRequest \<Rightarrow> 'w \<Rightarrow> (handler_result \<times> 'w) option" where
  "waitForChunks transport st req w = for_ever (waitStep transport st req) w"

text \<open>The three parts of \<open>handleTransferring\<close>: the sender, the first and the later visits of the requester.\<close>

definition serveChunks :: "'w FileStorage \<Rightarrow> TransferRequest \<Rightarrow> uint32 list \<Rightarrow> 'w TransferSession \<Rightarrow> 'w \<Rightarrow> 'w handled" where
  "serveChunks st req missing s w =
     (if length missing > 0
      then stop StateFailed (''sender missing '' @ itoa (length missing) @ '' requested chunks locally'') s w
      else if length (tr_ChunkIndices req) > 0
      then let indices = (if length (tr_ChunkIndices req) > MaxChunksPerBatch
                          then take MaxChunksPerBatch (tr_ChunkIndices req) else tr_ChunkIndices req) in
           or_stop StateFailed ''build chunk batch: ''
             (BuildBatch (Some st) (tr_FileHash req) indices (int (length indices)) w) s w (\<lambda>batch.
           send_or_stop ''send chunk batch: '' (ss_transport s) (Envelope_ChunkBatch (Some batch)) s w (\<lambda>w.
           Some (Next StateComplete, s, w)))
      else Some (Next StateComplete, s, w))"

definition requestChunks :: "TransferRequest \<Rightarrow> uint32 list \<Rightarrow> 'w TransferSession \<Rightarrow> 'w \<Rightarrow> 'w handled" where
  "requestChunks req missing s w =
     (let req = req\<lparr>tr_ChunkIndices := missing\<rparr>; s = s\<lparr>ss_pendingRequest := Some req\<rparr> in
      or_stop StateFailed ''sign transfer request failed: ''
        (case ss_signer s of
           None \<Rightarrow> Inr req
         | Some sign \<Rightarrow> res_bind (sign (TransferRequestSignableBytes req)) (\<lambda>sig. Inr (req\<lparr>tr_Signature := sig\<rparr>))) s w (\<lambda>req.
      let s = s\<lparr>ss_pendingRequest := Some req\<rparr> in
      send_or_stop ''send transfer request failed: '' (ss_transport s) (Envelope_TransferRequest (Some req)) s w (\<lambda>w.
      Some (Next StateTransferring, s\<lparr>ss_outboundChunkRequestSent := True\<rparr>, w))))"

definition handleTransferring :: "'w session_env \<Rightarrow> 'w TransferSession \<Rightarrow> 'w \<Rightarrow> 'w handled" where
  "handleTransferring en s w =
     (case ss_pendingRequest s of
        None \<Rightarrow> Some (Next StateCoSigning, s, w)
      | Some req \<Rightarrow>
     (case ss_storage s of
        None \<Rightarrow> Some (Next StateCoSigning, s, w)
      | Some st \<Rightarrow>
     or_stop StateFailed ''resume chunk check failed: ''
       (MissingChunkIndices (Some st) (tr_FileHash req) (tr_ChunkIndices req) w) s w (\<lambda>missing.
     if ss_Direction s = DirectionInbound then serveChunks st req missing s w
     else if length missing = 0 then Some (Next StateComplete, s, w)
     else if \<not> ss_outboundChunkRequestSent s then requestChunks req missing s w
     else Option.bind (waitForChunks (ss_transport s) st req w) (\<lambda>(r, w). Some (r, s, w)))))"

definition coSignRequestHash :: "'w session_env \<Rightarrow> 'w TransferSession \<Rightarrow> ShareRecord \<Rightarrow> bool res" where
  "coSignRequestHash en s record =
     (case ss_pendingRequest s of
        None \<Rightarrow> Inr True
      | Some req \<Rightarrow>
          res_bind (wrap_err ''marshal pending request failed: '' (marshal_TransferRequest (se_proto en) req)) (\<lambda>reqBytes.
          Inr (bytes_Equal (sr_RequestHash record) (Some (Hash (se_crypto en) reqBytes)))))"

text \<open>The end of \<open>handleCoSigning\<close>: validate and append.\<close>

definition appendFinal ::
  "'w session_env \<Rightarrow> (ShareRecord \<Rightarrow> 'w \<Rightarrow> unit res \<times> 'w) \<Rightarrow> ShareRecord \<Rightarrow> 'w TransferSession \<Rightarrow> 'w \<Rightarrow> 'w handled" where
  "appendFinal en appendRecord record s w =
     or_stop StateFailed ''share record validation failed: '' (ValidateShareRecord (se_crypto en) record) s w (\<lambda>_.
     let (r, w) = appendRecord record w in
     or_stop StateFailed ''append record failed: '' r s w (\<lambda>_. Some (Next StateGossiping, s, w)))"

text \<open>After the locally signed record was sent: the other side's copy is awaited when a signature is missing.\<close>

definition finishCoSign ::
  "'w session_env \<Rightarrow> 'w Transport \<Rightarrow> (ShareRecord \<Rightarrow> 'w \<Rightarrow> unit res \<times> 'w) \<Rightarrow> ShareRecord \<Rightarrow> 'w TransferSession \<Rightarrow> 'w \<Rightarrow> 'w handled" where
  "finishCoSign en t appendRecord record s w =
     (if length (bs (sr_SenderSig record)) = 0 \<or> length (bs (sr_ReceiverSig record)) = 0
      then recv_or_stop ''receive final co-signed record failed: '' t s w (\<lambda>finalEnv w.
        case GetShareRecord finalEnv of
          None \<Rightarrow> stop StateFailed ''final co-signed envelope missing share record'' s w
        | Some record \<Rightarrow> appendFinal en appendRecord record s w)
      else appendFinal en appendRecord record s w)"

text \<open>The part of \<open>handleCoSigning\<close> that starts with a received record.\<close>

definition coSignRecord ::
  "'w session_env \<Rightarrow> 'w Transport \<Rightarrow> (byte list \<Rightarrow> slice res) \<Rightarrow> (ShareRecord \<Rightarrow> 'w \<Rightarrow> unit res \<times> 'w) \<Rightarrow>
   ShareRecord \<Rightarrow> 'w TransferSession \<Rightarrow> 'w \<Rightarrow> 'w handled" where
  "coSignRecord en t sign appendRecord record s w =
     (if length (bs (sr_RequestHash record)) = 0 then stop StateRejected ''share record missing request hash'' s w
      else if length (bs (ss_FileHash s)) > 0 \<and> \<not> bytes_Equal (sr_FileHash record) (ss_FileHash s)
      then stop StateRejected ''share record file hash mismatch'' s w
      else case coSignRequestHash en s record of
        Inl (Panic p) \<Rightarrow> Some (Panicked p, s, w)
      | Inl (Err e) \<Rightarrow> Some (Stop StateFailed e, s, w)
      | Inr matches \<Rightarrow>
          if \<not> matches then stop StateRejected ''share record request hash does not match pending request'' s w
          else or_stop StateFailed ''sign share record failed: '' (sign (SignableBytes record)) s w (\<lambda>localSig.
            let record = (if ss_Direction s = DirectionInbound then AttachSenderSig record localSig
                          else AttachReceiverSig (se_crypto en) record localSig) in
            send_or_stop ''send co-signed record failed: '' (Some t) (Envelope_ShareRecord (Some record)) s w (\<lambda>w.
            finishCoSign en t appendRecord record s w)))"

definition handleCoSigning :: "'w session_env \<Rightarrow> 'w TransferSession \<Rightarrow> 'w \<Rightarrow> 'w handled" where
  "handleCoSigning en s w =
     (case ss_transport s of
        None \<Rightarrow> stop StateFailed ''co-signing requires transport'' s w
      | Some t \<Rightarrow>
     (case ss_signer s of
        None \<Rightarrow> stop StateFailed ''co-signing requires signer'' s w
      | Some sign \<Rightarrow>
     (case ss_chain s of
        None \<Rightarrow> stop StateFailed ''co-signing requires chain appender'' s w
      | Some appendRecord \<Rightarrow>
     recv_or_stop ''failed to receive co-sign record: '' t s w (\<lambda>env w.
     case GetShareRecord env of
       None \<Rightarrow> stop StateFailed ''co-sign envelope missing share record'' s w
     | Some record \<Rightarrow> coSignRecord en t sign appendRecord record s w))))"

definition handleGossiping :: "'w session_env \<Rightarrow> 'w TransferSession \<Rightarrow> 'w \<Rightarrow> 'w handled" where
  "handleGossiping en s w = Some (Next StateComplete, s, w)"

section \<open>The session loop\<close>

text \<open>The handler that the loop's switch picks for a state.\<close>

definition handlerFor ::
  "TransferState \<Rightarrow> ('w session_env \<Rightarrow> 'w TransferSession \<Rightarrow> 'w \<Rightarrow> 'w handled) option" where
  "handlerFor current =
     (if current = StateHandshake then Some handleHandshake
      else if current = StateVerifying then Some handleVerifying
      else if current = StateTransferring then Some handleTransferring
      else if current = StateCoSigning then Some handleCoSigning
      else if current = StateGossiping then Some handleGossiping
      else None)"

type_synonym 'w ran = "unit res \<times> 'w TransferSession \<times> 'w"

text \<open>\<open>s.setErr(err); _ = s.TransitionTo(StateFailed); return err\<close>\<close>

definition failWith :: "go_error \<Rightarrow> 'w TransferSession \<Rightarrow> 'w \<Rightarrow> 'w ran" where
  "failWith e s w = (Inl (Err e), snd (TransitionTo StateFailed (setErr e s)), w)"

text \<open>\<open>if err := s.TransitionTo(next); err != nil { s.setErr(err); return err }\<close>\<close>

definition transitionOrReturn :: "TransferState \<Rightarrow> 'w TransferSession \<Rightarrow> 'w \<Rightarrow> 'w TransferSession + 'w ran" where
  "transitionOrReturn nxt s w =
     (case TransitionTo nxt s of
        (Inr _, s') \<Rightarrow> Inl s'
      | (Inl (Err e), s') \<Rightarrow> Inr (Inl (Err e), setErr e s', w)
      | (Inl (Panic p), s') \<Rightarrow> Inr (Inl (Panic p), s', w))"

text \<open>One round of the loop of \<open>RunSession\<close>.\<close>

definition sessionStep ::
  "'w session_env \<Rightarrow> 'w TransferSession \<times> 'w \<Rightarrow> ('w TransferSession \<times> 'w + 'w ran) option" where
  "sessionStep en = (\<lambda>(s, w).
     (case se_ctx_Err en w of
        Some e \<Rightarrow> Some (Inr (Inl (Err e), setErr e s, w))
      | None \<Rightarrow>
     (case handlerFor (ss_State s) of
        Some handler \<Rightarrow>
          Option.bind (handler en s w) (\<lambda>(r, s, w).
          Some (case r of
            Stop _ e \<Rightarrow> Inr (failWith e s w)
          | Panicked p \<Rightarrow> Inr (Inl (Panic p), s, w)
          | Next nxt \<Rightarrow> (case transitionOrReturn nxt s w of Inl s \<Rightarrow> Inl (s, w) | Inr out \<Rightarrow> Inr out)))
      | None \<Rightarrow>
          if ss_State s = StateComplete \<or> ss_State s = StateRejected \<or> ss_State s = StateFailed
          then Some (Inr (getErr s, s, w))
          else Some (Inr (failWith (Errorf (''unhandled session state: '' @ ss_State s)) s w)))))"

text \<open>The transitions before the loop: a session with a pending request starts at the transfer.\<close>

definition openingStates :: "'w TransferSession \<Rightarrow> TransferState list" where
  "openingStates s =
     (if ss_pendingRequest s \<noteq> None then [StateHandshake, StateVerifying, StateTransferring] else [StateHandshake])"

fun openSession :: "TransferState list \<Rightarrow> 'w TransferSession \<Rightarrow> 'w \<Rightarrow> 'w TransferSession + 'w ran" where
  "openSession [] s w = Inl s"
| "openSession (nxt # rest) s w =
     (case transitionOrReturn nxt s w of Inl s' \<Rightarrow> openSession rest s' w | Inr out \<Rightarrow> Inr out)"

definition RunSession :: "'w session_env \<Rightarrow> 'w TransferSession \<Rightarrow> 'w \<Rightarrow> 'w ran option" where
  "RunSession en s w =
     (let s = s\<lparr>ss_err := None\<rparr> in
      case openSession (openingStates s) s w of
        Inr out \<Rightarrow> Some out
      | Inl s \<Rightarrow> for_ever (sessionStep en) (s, w))"

end
