(* ===== verification/Session_Props.thy ===== *)
theory Session_Props
  imports Session
begin

text \<open>
  Properties of the transfer session: its state machine, what a run that returns has done, and
  which runs return.
\<close>

section \<open>The state machine\<close>

text \<open>
  A machine whose states have a phase that never goes back.  Only the looping states can be
  entered twice, and nothing follows a terminal state.
\<close>

locale phased_machine =
  fixes trans :: "'q \<Rightarrow> 'q \<Rightarrow> bool"
    and phase :: "'q \<Rightarrow> nat"
    and looping :: "'q \<Rightarrow> bool"
    and terminal :: "'q \<Rightarrow> bool"
  assumes phase_step: "trans p q \<Longrightarrow> phase p < phase q \<or> looping p \<and> p = q"
    and terminal_stuck: "terminal p \<Longrightarrow> \<not> trans p q"
begin

lemma phase_mono: "trans\<^sup>*\<^sup>* p q \<Longrightarrow> phase p \<le> phase q"
  by (induction rule: rtranclp_induct) (auto dest!: phase_step)

lemma no_return: "trans\<^sup>*\<^sup>* p q \<Longrightarrow> trans\<^sup>*\<^sup>* q p \<Longrightarrow> p = q"
proof (induction rule: converse_rtranclp_induct)
  case (step p r)
  have "phase r \<le> phase q" "phase q \<le> phase p"
    using step.hyps(2) step.prems phase_mono by blast+
  with phase_step [OF step.hyps(1)] have "r = p" by auto
  with step show ?case by simp
qed simp

lemma terminal_final: "terminal p \<Longrightarrow> trans\<^sup>*\<^sup>* p q \<Longrightarrow> q = p"
  by (erule converse_rtranclpE) (auto dest: terminal_stuck)

end

definition statePhase :: "TransferState \<Rightarrow> nat" where
  "statePhase q =
     (if q = StateIdle then 0 else if q = StateHandshake then 1 else if q = StateVerifying then 2
      else if q = StateTransferring then 3 else if q = StateCoSigning then 4 else if q = StateGossiping then 5 else 6)"

definition terminalState :: "TransferState \<Rightarrow> bool" where
  "terminalState q \<longleftrightarrow> q = StateComplete \<or> q = StateRejected \<or> q = StateFailed"

lemma state_distinct:
  "distinct [StateIdle, StateHandshake, StateVerifying, StateTransferring, StateCoSigning, StateGossiping,
     StateComplete, StateRejected, StateFailed]"
  by (simp add: state_defs)

lemma state_neq [simp]:
  "p \<in> {StateIdle, StateHandshake, StateVerifying, StateTransferring, StateCoSigning, StateGossiping} \<Longrightarrow> \<not> terminalState p"
  by (auto simp: terminalState_def state_defs)

interpretation sm: phased_machine isValidTransition statePhase "\<lambda>q. q = StateTransferring" terminalState
  by unfold_locales
    (auto simp: isValidTransition_def statePhase_def terminalState_def state_defs split: if_splits)


section \<open>Handlers\<close>

lemma or_stop_eq_Next [handled_Next]:
  "or_stop st m r s w k = Some (Next nx, s', w') \<longleftrightarrow> (\<exists>x. r = Inr x \<and> k x = Some (Next nx, s', w'))"
  by (auto simp: or_stop_def split: sum.split failure.split)

lemma recv_or_stop_eq_Next [handled_Next]:
  "recv_or_stop m t s w k = Some (Next nx, s', w') \<longleftrightarrow>
   (\<exists>env w1. tp_Recv t w = Some (Inr env, w1) \<and> k env w1 = Some (Next nx, s', w'))"
  by (auto simp: recv_or_stop_def or_stop_eq_Next split: option.split prod.split)

lemma send_or_stop_eq_Next [handled_Next]:
  "send_or_stop m tr p s w k = Some (Next nx, s', w') \<longleftrightarrow>
   (case tr of None \<Rightarrow> k w = Some (Next nx, s', w')
    | Some t \<Rightarrow> (\<exists>u w1. tp_Send t (Some (envelope p)) w = (Inr u, w1) \<and> k w1 = Some (Next nx, s', w')))"
  by (auto simp: send_or_stop_def or_stop_eq_Next split: option.split prod.split)

lemma stop_neq_Next [simp]: "stop st m s w \<noteq> Some (Next nx, s', w')"
  by (simp add: stop_def)

text \<open>An invariant of the outside world that every call of the session keeps.\<close>

definition world_keeps :: "('w \<Rightarrow> bool) \<Rightarrow> 'w Transport \<Rightarrow> 'w FileStorage \<Rightarrow> bool" where
  "world_keeps I t st \<longleftrightarrow>
     (\<forall>w. I w \<longrightarrow> (\<forall>e. I (snd (tp_Send t e w))) \<and> (\<forall>r w'. tp_Recv t w = Some (r, w') \<longrightarrow> I w') \<and>
       I (snd (snd (tp_TryRecv t w))) \<and> (\<forall>e. I (tp_PutBack t e w)) \<and>
       (\<forall>fh i d. I (snd (fs_WriteChunk st fh i d w))))"

lemma world_keepsD:
  assumes "world_keeps I t st" "I w"
  shows "tp_Send t e w = (r, w') \<Longrightarrow> I w'" "tp_Recv t w = Some (q, w') \<Longrightarrow> I w'"
    "tp_TryRecv t w = (e, ok, w') \<Longrightarrow> I w'" "I (tp_PutBack t e w)"
    "fs_WriteChunk st fh i d w = (r, w') \<Longrightarrow> I w'"
  using assms unfolding world_keeps_def by (metis snd_conv)+

lemma storeChunks_keeps:
  assumes "world_keeps I t st" "I w" "storeChunks st fh chs w = (r, w')"
  shows "I w'"
  using assms(2,3)
proof (induction chs arbitrary: w)
  case (Cons ch rest)
  then show ?case
    by (cases "fs_WriteChunk st fh (getp 0 cd_ChunkIndex ch) (getp None cd_Data ch) w")
      (auto dest: world_keepsD(5) [OF assms(1)] split: sum.splits)
qed simp

lemma drainStep_keeps:
  assumes K: "world_keeps I t st" and I: "I w"
  shows "drainStep t st w = Some (Inl w') \<Longrightarrow> I w'" "drainStep t st w = Some (Inr (r, w')) \<Longrightarrow> I w'"
proof -
  obtain env ok w1 where recv: "tp_TryRecv t w = (env, ok, w1)" by (cases "tp_TryRecv t w") auto
  hence I1: "I w1" using world_keepsD(3) [OF K I] by blast
  note keeps = I1 world_keepsD(4) [OF K I1] storeChunks_keeps [OF K I1]
  show "drainStep t st w = Some (Inl w') \<Longrightarrow> I w'"
    using recv keeps by (auto simp: drainStep_def split: if_splits option.splits prod.splits sum.splits)
  show "drainStep t st w = Some (Inr (r, w')) \<Longrightarrow> I w'"
    using recv keeps by (auto simp: drainStep_def split: if_splits option.splits prod.splits sum.splits)
qed

lemma drainBatches_keeps:
  assumes K: "world_keeps I t st" and I: "I w" and "drainBatches t st w = Some (r, w')"
  shows "I w'"
proof -
  from assms(3) have "for_ever (drainStep t st) w = Some (r, w')" by (simp add: drainBatches_def)
  hence "(\<lambda>x. I (snd x)) (r, w')"
  proof (rule for_ever_inv [where I = I and Q = "\<lambda>x. I (snd x)"])
    fix w x assume "I w" "drainStep t st w = Some (Inr x)"
    thus "I (snd x)" using drainStep_keeps(2) [OF K] by (cases x) auto
  qed (use I drainStep_keeps(1) [OF K] in auto)
  thus ?thesis by simp
qed

text \<open>What the outer loop leaves behind: a normal end means that nothing was missing before the last drain.\<close>

lemma waitStep_Inl:
  assumes K: "world_keeps I t st" and I: "I w" and step: "waitStep (Some t) st req w = Some (Inl w')"
  shows "I w'"
proof (cases "tp_Recv t w")
  case None
  with step show ?thesis
    by (auto simp: waitStep_def bind_eq_Some_conv split: sum.splits failure.splits if_splits)
next
  case (Some x)
  then obtain r w1 where recv: "tp_Recv t w = Some (r, w1)" by (cases x) auto
  have "I w1" using recv world_keepsD(2) [OF K I] by blast
  with step recv storeChunks_keeps [OF K] show ?thesis
    by (auto simp: waitStep_def bind_eq_Some_conv split: sum.splits failure.splits if_splits option.splits prod.splits)
qed

lemma waitStep_Next:
  assumes "waitStep tr st req w = Some (Inr (Next nx, w'))"
  shows "nx = StateComplete \<and> MissingChunkIndices (Some st) (tr_FileHash req) (tr_ChunkIndices req) w = Inr [] \<and>
    (\<exists>t. tr = Some t \<and> drainBatches t st w = Some (Inr (), w'))"
proof (cases tr)
  case None
  with assms show ?thesis by (auto simp: waitStep_def split: sum.splits failure.splits if_splits)
next
  case (Some t)
  with assms show ?thesis
    by (cases "tp_Recv t w"; cases "drainBatches t st w")
      (auto simp: waitStep_def split: sum.splits failure.splits if_splits option.splits prod.splits)
qed

lemma waitForChunks_Next:
  assumes "waitForChunks tr st req w = Some (Next nx, w')"
  shows "nx = StateComplete"
proof -
  from assms have "for_ever (waitStep tr st req) w = Some (Next nx, w')" by (simp add: waitForChunks_def)
  from for_ever_inv [where I = "\<lambda>_. True" and Q = "\<lambda>x. \<forall>nx. fst x = Next nx \<longrightarrow> nx = StateComplete", OF this]
  show ?thesis using waitStep_Next by fastforce
qed

lemma waitStep_Inr:
  assumes K: "world_keeps I t st" and I: "I w" and step: "waitStep (Some t) st req w = Some (Inr (r, w'))"
  shows "I w'"
proof -
  have drained: "I v" if "drainBatches t st w = Some (x, v)" for x v
    using drainBatches_keeps [OF K I that] .
  show ?thesis
  proof (cases "tp_Recv t w")
    case None
    with step I drained show ?thesis
      by (cases "drainBatches t st w")
        (auto simp: waitStep_def split: sum.splits failure.splits if_splits)
  next
    case (Some x)
    then obtain q w1 where recv: "tp_Recv t w = Some (q, w1)" by (cases x) auto
    have "I w1" using recv world_keepsD(2) [OF K I] by blast
    with step recv I drained storeChunks_keeps [OF K] show ?thesis
      by (cases "drainBatches t st w")
        (auto simp: waitStep_def split: sum.splits failure.splits if_splits option.splits prod.splits)
  qed
qed

lemma waitForChunks_keeps:
  assumes K: "world_keeps I t st" and I: "I w" and run: "waitForChunks (Some t) st req w = Some (r, w')"
  shows "I w'"
proof -
  from run have "for_ever (waitStep (Some t) st req) w = Some (r, w')" by (simp add: waitForChunks_def)
  hence "(\<lambda>x. I (snd x)) (r, w')"
  proof (rule for_ever_inv [where I = I and Q = "\<lambda>x. I (snd x)"])
    fix w x assume "I w" "waitStep (Some t) st req w = Some (Inr x)"
    thus "I (snd x)" using waitStep_Inr [OF K] by (cases x) auto
  qed (use I waitStep_Inl [OF K] in auto)
  thus ?thesis by simp
qed

lemma waitForChunks_complete:
  assumes K: "world_keeps I t st" and I: "I w"
    and run: "waitForChunks (Some t) st req w = Some (Next nx, w')"
  shows "\<exists>w1. I w1 \<and> MissingChunkIndices (Some st) (tr_FileHash req) (tr_ChunkIndices req) w1 = Inr [] \<and>
    drainBatches t st w1 = Some (Inr (), w')"
proof -
  let ?Q = "\<lambda>x. (\<exists>nx. fst x = Next nx) \<longrightarrow>
      (\<exists>w1. I w1 \<and> MissingChunkIndices (Some st) (tr_FileHash req) (tr_ChunkIndices req) w1 = Inr [] \<and>
        drainBatches t st w1 = Some (Inr (), snd x))"
  from run have "for_ever (waitStep (Some t) st req) w = Some (Next nx, w')" by (simp add: waitForChunks_def)
  hence "?Q (Next nx, w')"
  proof (rule for_ever_inv [where I = I and Q = ?Q])
    fix w x assume "I w" "waitStep (Some t) st req w = Some (Inr x)"
    thus "?Q x" using waitStep_Next [of "Some t" st req w] by (cases x) auto
  qed (use I waitStep_Inl [OF K] in auto)
  thus ?thesis by auto
qed

text \<open>What a handler can ask for next, and what it leaves of the session.\<close>

definition activeStates :: "TransferState list" where
  "activeStates = [StateHandshake, StateVerifying, StateTransferring, StateCoSigning, StateGossiping]"

lemma handlerFor_Some: "handlerFor q = Some h \<Longrightarrow> q \<in> set activeStates"
  by (auto simp: handlerFor_def activeStates_def split: if_splits)

lemma appendFinal_Next:
  "appendFinal en app record s w = Some (Next nx, s', w') \<longleftrightarrow>
   nx = StateGossiping \<and> s' = s \<and> ValidateShareRecord (se_crypto en) record = Inr () \<and> app record w = (Inr (), w')"
  by (auto simp: appendFinal_def handled_Next split: prod.splits)

lemma finishCoSign_Next:
  assumes "finishCoSign en t app record s w = Some (Next nx, s', w')"
  shows "nx = StateGossiping \<and> s' = s \<and> (\<exists>final w1. ValidateShareRecord (se_crypto en) final = Inr () \<and> app final w1 = (Inr (), w') \<and>
     (final = record \<and> w1 = w \<or> (\<exists>env. tp_Recv t w = Some (Inr env, w1) \<and> GetShareRecord env = Some final)))"
proof (cases "length (bs (sr_SenderSig record)) = 0 \<or> length (bs (sr_ReceiverSig record)) = 0")
  case False
  with assms show ?thesis by (auto simp: finishCoSign_def appendFinal_Next)
next
  case True
  with assms obtain env w1 where "tp_Recv t w = Some (Inr env, w1)"
    "(case GetShareRecord env of None \<Rightarrow> stop StateFailed ''final co-signed envelope missing share record'' s w1
      | Some record \<Rightarrow> appendFinal en app record s w1) = Some (Next nx, s', w')"
    by (auto simp: finishCoSign_def handled_Next)
  thus ?thesis by (cases "GetShareRecord env") (auto simp: appendFinal_Next)
qed

lemma coSignRecord_Next:
  assumes "coSignRecord en t sign app record s w = Some (Next nx, s', w')"
  shows "bs (sr_RequestHash record) \<noteq> [] \<and> (bs (ss_FileHash s) = [] \<or> bytes_Equal (sr_FileHash record) (ss_FileHash s)) \<and>
     coSignRequestHash en s record = Inr True \<and>
     (\<exists>sig w1. sign (SignableBytes record) = Inr sig \<and>
        (let record = (if ss_Direction s = DirectionInbound then AttachSenderSig record sig else AttachReceiverSig (se_crypto en) record sig)
         in tp_Send t (Some (envelope (Envelope_ShareRecord (Some record)))) w = (Inr (), w1) \<and>
            finishCoSign en t app record s w1 = Some (Next nx, s', w')))"
  using assms unfolding coSignRecord_def Let_def
  by (auto simp: handled_Next stop_def split: if_splits sum.splits failure.splits)

lemma handleCoSigning_Next:
  assumes "handleCoSigning en s w = Some (Next nx, s', w')"
  shows "nx = StateGossiping \<and> s' = s \<and>
    (\<exists>app final w1. ss_chain s = Some app \<and> ValidateShareRecord (se_crypto en) final = Inr () \<and> app final w1 = (Inr (), w'))"
proof -
  from assms obtain t sign app where d: "ss_transport s = Some t" "ss_signer s = Some sign" "ss_chain s = Some app"
    by (auto simp: handleCoSigning_def stop_def split: option.splits)
  with assms obtain env w1 where "(case GetShareRecord env of None \<Rightarrow> stop StateFailed ''co-sign envelope missing share record'' s w1
      | Some record \<Rightarrow> coSignRecord en t sign app record s w1) = Some (Next nx, s', w')"
    by (auto simp: handleCoSigning_def handled_Next)
  then obtain rec where "coSignRecord en t sign app rec s w1 = Some (Next nx, s', w')"
    by (auto split: option.splits)
  from coSignRecord_Next [OF this] d(3) show ?thesis
    by (auto simp: Let_def dest!: finishCoSign_Next)
qed

text \<open>
  What a handler may do: it names a state of \<open>S\<close> next, or an error, and changes nothing of the
  session but the pending request and the flag of the request sent.
\<close>

definition frames :: "'w TransferSession \<Rightarrow> 'w TransferSession \<Rightarrow> bool" where
  "frames s s' \<longleftrightarrow> (\<exists>p b. s' = s\<lparr>ss_pendingRequest := p, ss_outboundChunkRequestSent := b\<rparr> \<and>
     (p = None \<longleftrightarrow> ss_pendingRequest s = None))"

lemma frames_refl [simp]: "frames s s"
  unfolding frames_def
  by (rule exI [of _ "ss_pendingRequest s"], rule exI [of _ "ss_outboundChunkRequestSent s"]) simp

lemma frames_fields:
  assumes "frames s s'"
  shows "ss_State s' = ss_State s \<and> ss_err s' = ss_err s \<and> ss_chain s' = ss_chain s \<and> ss_storage s' = ss_storage s \<and>
    ss_transport s' = ss_transport s \<and> ss_Direction s' = ss_Direction s \<and>
    (ss_pendingRequest s' = None \<longleftrightarrow> ss_pendingRequest s = None)"
  using assms by (auto simp: frames_def)

definition framed :: "TransferState set \<Rightarrow> 'w TransferSession \<Rightarrow> 'w handled \<Rightarrow> bool" where
  "framed S s h \<longleftrightarrow> (\<forall>r s' w'. h = Some (r, s', w') \<longrightarrow> frames s s' \<and> (\<forall>nx. r = Next nx \<longrightarrow> nx \<in> S))"

lemma framed_update:
  assumes "p = None \<longleftrightarrow> ss_pendingRequest s = None"
  shows "framed S (s\<lparr>ss_pendingRequest := p\<rparr>) h = framed S s h"
  using assms by (simp add: framed_def frames_def)

lemma framed_same [simp]:
  "framed S s (Some (Stop st e, s, w))" "framed S s (Some (Panicked m, s, w))" "framed S s None" "framed S s (stop st m s w)"
  "framed S s (Some (Next nx, s, w)) \<longleftrightarrow> nx \<in> S"
  by (auto simp: framed_def stop_def)

lemma framed_sent [simp]:
  assumes "p = None \<longleftrightarrow> ss_pendingRequest s = None"
  shows "framed S s (Some (Next nx, s\<lparr>ss_pendingRequest := p, ss_outboundChunkRequestSent := b\<rparr>, w)) \<longleftrightarrow> nx \<in> S"
  using assms by (auto simp: framed_def frames_def)

lemma framed_or_stop [intro!]: "(\<And>x. r = Inr x \<Longrightarrow> framed S s (k x)) \<Longrightarrow> framed S s (or_stop st m r s w k)"
  by (auto simp: or_stop_def split: sum.split failure.split)

lemma framed_recv [intro!]: "(\<And>env w. framed S s (k env w)) \<Longrightarrow> framed S s (recv_or_stop m t s w k)"
  by (auto simp: recv_or_stop_def split: option.split)

lemma framed_send [intro!]: "(\<And>w. framed S s (k w)) \<Longrightarrow> framed S s (send_or_stop m tr p s w k)"
  by (auto simp: send_or_stop_def split: option.split prod.split)

lemma framed_admitPeer: "framed {StateTransferring} s (admitPeer en s h pub pol w)"
  unfolding admitPeer_def by (auto split: option.split sum.split failure.split)

lemma framed_handleVerifying: "framed {StateTransferring} s (handleVerifying en s w)"
  unfolding handleVerifying_def by (auto simp: framed_admitPeer split: option.split)

lemma framed_serveChunks: "framed {StateComplete} s (serveChunks st req missing s w)"
  unfolding serveChunks_def Let_def by auto

lemma framed_requestChunks:
  assumes "ss_pendingRequest s \<noteq> None"
  shows "framed {StateTransferring} s (requestChunks req missing s w)"
proof -
  let ?t = "s\<lparr>ss_pendingRequest := Some (req\<lparr>tr_ChunkIndices := missing\<rparr>)\<rparr>"
  have "framed {StateTransferring} (?t\<lparr>ss_pendingRequest := Some req\<rparr>)
      (send_or_stop m tr p (?t\<lparr>ss_pendingRequest := Some req\<rparr>) w
         (\<lambda>w. Some (Next StateTransferring, ?t\<lparr>ss_pendingRequest := Some req, ss_outboundChunkRequestSent := True\<rparr>, w)))"
    for m tr p req
    by (intro framed_send) (simp add: framed_def frames_def, blast)
  hence "framed {StateTransferring} ?t (requestChunks req missing s w)"
    unfolding requestChunks_def Let_def by (intro framed_or_stop) (simp add: framed_def frames_def)
  with assms show ?thesis by (simp add: framed_update)
qed

lemma framed_handleTransferring:
  "framed (if ss_pendingRequest s = None \<or> ss_storage s = None then {StateCoSigning} else {StateTransferring, StateComplete}) s
     (handleTransferring en s w)"
proof (cases "ss_pendingRequest s = None \<or> ss_storage s = None")
  case True
  thus ?thesis by (auto simp: handleTransferring_def split: option.split)
next
  case False
  then obtain req st where d: "ss_pendingRequest s = Some req" "ss_storage s = Some st" by auto
  have mono: "framed T s h \<Longrightarrow> T \<subseteq> S \<Longrightarrow> framed S s h" for S T h unfolding framed_def by blast
  have "framed {StateTransferring, StateComplete} s (Option.bind (waitForChunks (ss_transport s) st req w) (\<lambda>(r, w). Some (r, s, w)))"
    unfolding framed_def by (auto simp: bind_eq_Some_conv dest: waitForChunks_Next)
  thus ?thesis
    using mono [OF framed_serveChunks] mono [OF framed_requestChunks]
    by (simp add: handleTransferring_def d framed_or_stop)
qed

lemma framed_appendFinal: "framed {StateGossiping} s (appendFinal en app record s w)"
  unfolding appendFinal_def by (auto split: prod.split)

lemma framed_finishCoSign: "framed {StateGossiping} s (finishCoSign en t app record s w)"
  unfolding finishCoSign_def by (auto simp: framed_appendFinal split: option.split)

lemma framed_coSignRecord: "framed {StateGossiping} s (coSignRecord en t sign app record s w)"
  unfolding coSignRecord_def Let_def by (auto simp: framed_finishCoSign split: sum.split failure.split)

lemma framed_handleCoSigning: "framed {StateGossiping} s (handleCoSigning en s w)"
  unfolding handleCoSigning_def by (auto simp: framed_coSignRecord split: option.split)

text \<open>The state after the current one, as the handlers choose it.\<close>

definition successors :: "'w TransferSession \<Rightarrow> TransferState set" where
  "successors s =
     (if ss_State s = StateHandshake then {StateVerifying}
      else if ss_State s = StateVerifying then {StateTransferring}
      else if ss_State s = StateTransferring
      then (if ss_pendingRequest s = None \<or> ss_storage s = None then {StateCoSigning} else {StateTransferring, StateComplete})
      else if ss_State s = StateCoSigning then {StateGossiping} else {StateComplete})"

lemma framed_handler: "handlerFor (ss_State s) = Some h \<Longrightarrow> framed (successors s) s (h en s w)"
  using framed_handleVerifying [of s en w] framed_handleTransferring [of s en w] framed_handleCoSigning [of s en w]
  by (auto simp: handlerFor_def handleHandshake_def handleGossiping_def successors_def split: if_splits)


section \<open>The session loop\<close>

lemma successors_valid:
  assumes "ss_State s \<in> set activeStates" "nx \<in> successors s"
  shows "isValidTransition (ss_State s) nx \<and> (nx \<in> set activeStates \<or> nx = StateComplete)"
  using assms by (auto simp: activeStates_def successors_def isValidTransition_def state_defs split: if_splits)

lemma active_can_fail: "q \<in> set activeStates \<Longrightarrow> isValidTransition q StateFailed"
  by (auto simp: activeStates_def isValidTransition_def state_defs)

lemma transitionOrReturn_valid:
  "isValidTransition (ss_State s) nx \<Longrightarrow> transitionOrReturn nx s w = Inl (s\<lparr>ss_State := nx\<rparr>)"
  by (simp add: transitionOrReturn_def TransitionTo_def)

text \<open>A round that goes on: the handler's choice is always a legal transition.\<close>

lemma sessionStep_Inl:
  fixes s :: "'w TransferSession"
  assumes "sessionStep en (s, w) = Some (Inl x)"
  obtains h nx s1 w1 where "handlerFor (ss_State s) = Some h" "h en s w = Some (Next nx, s1, w1)"
    "nx \<in> successors s" "isValidTransition (ss_State s) nx" "nx \<in> set activeStates \<or> nx = StateComplete"
    "frames s s1" "x = (s1\<lparr>ss_State := nx\<rparr>, w1)"
proof -
  from assms have "se_ctx_Err en w = None" by (auto simp: sessionStep_def split: option.splits)
  with assms obtain h where h: "handlerFor (ss_State s) = Some (h :: 'w session_env \<Rightarrow> 'w TransferSession \<Rightarrow> 'w \<Rightarrow> 'w handled)"
    by (auto simp: sessionStep_def split: option.splits if_splits)
  with assms \<open>se_ctx_Err en w = None\<close> obtain r s1 w1 where n': "h en s w = Some (r, s1, w1)"
    by (auto simp: sessionStep_def bind_eq_Some_conv)
  with assms \<open>se_ctx_Err en w = None\<close> h obtain nx where "r = Next nx"
    and x: "(case transitionOrReturn nx s1 w1 of Inl s \<Rightarrow> Inl (s, w1) | Inr out \<Rightarrow> Inr out) = Inl x"
    by (cases r) (auto simp: sessionStep_def)
  with n' have n: "h en s w = Some (Next nx, s1, w1)" by simp
  have f: "nx \<in> successors s" "frames s s1"
    using framed_handler [OF h, of en w] n unfolding framed_def by auto
  hence same: "ss_State s1 = ss_State s" by (auto dest: frames_fields)
  note v = successors_valid [OF handlerFor_Some [OF h] f(1)]
  from x v same have "x = (s1\<lparr>ss_State := nx\<rparr>, w1)" by (simp add: transitionOrReturn_valid)
  with that h n f v show thesis by blast
qed

text \<open>A round that leaves the loop.\<close>

lemma sessionStep_Inr:
  fixes s :: "'w TransferSession"
  assumes "sessionStep en (s, w) = Some (Inr out)" "ss_State s \<in> set activeStates \<or> ss_State s = StateComplete"
  shows "(\<exists>e. se_ctx_Err en w = Some e \<and> out = (Inl (Err e), setErr e s, w)) \<or>
    (ss_State s = StateComplete \<and> out = (getErr s, s, w)) \<or>
    (\<exists>h r s1 w1. handlerFor (ss_State s) = Some h \<and> h en s w = Some (r, s1, w1) \<and>
       frames s s1 \<and>
       ((\<exists>st e. r = Stop st e \<and> out = (Inl (Err e), (setErr e s1)\<lparr>ss_State := StateFailed\<rparr>, w1)) \<or>
        (\<exists>m. r = Panicked m \<and> out = (Inl (Panic m), s1, w1))))"
proof (cases "se_ctx_Err en w")
  case (Some e)
  with assms(1) show ?thesis by (simp add: sessionStep_def)
next
  case None
  show ?thesis
  proof (cases "handlerFor (ss_State s) :: ('w session_env \<Rightarrow> 'w TransferSession \<Rightarrow> 'w \<Rightarrow> 'w handled) option")
    case None': None
    hence "ss_State s \<notin> set activeStates" by (auto simp: handlerFor_def activeStates_def split: if_splits)
    with assms(2) have "ss_State s = StateComplete" by auto
    with None None' assms(1) show ?thesis by (simp add: sessionStep_def)
  next
    case (Some h)
    note act = handlerFor_Some [OF Some]
    from assms(1) None Some obtain r s1 w1 where h: "h en s w = Some (r, s1, w1)"
      by (auto simp: sessionStep_def bind_eq_Some_conv)
    from framed_handler [OF Some, of en w] h have f: "frames s s1"
      and nx: "\<And>nx. r = Next nx \<Longrightarrow> nx \<in> successors s"
      unfolding framed_def by auto
    hence same: "ss_State s1 = ss_State s" by (auto dest: frames_fields)
    have "r \<noteq> Next nx" for nx
      using assms(1) None Some h same nx successors_valid [OF act] by (auto simp: sessionStep_def transitionOrReturn_valid)
    with assms(1) None Some h f same active_can_fail [OF act] show ?thesis
      by (cases r) (auto simp: sessionStep_def failWith_def TransitionTo_def setErr_def)
  qed
qed

text \<open>Opening an idle session never fails; a session in any other state is refused.\<close>

lemma openSession_idle:
  assumes "ss_State s = StateIdle"
  shows "openSession (openingStates s) s w =
    Inl (s\<lparr>ss_State := if ss_pendingRequest s \<noteq> None then StateTransferring else StateHandshake\<rparr>)"
  using assms by (simp add: openingStates_def transitionOrReturn_def TransitionTo_def isValidTransition_def state_defs)

lemma RunSession_idle:
  assumes "ss_State s = StateIdle"
  shows "RunSession en s w = for_ever (sessionStep en)
    (s\<lparr>ss_err := None, ss_State := if ss_pendingRequest s \<noteq> None then StateTransferring else StateHandshake\<rparr>, w)"
  using assms by (simp add: RunSession_def openSession_idle)

lemma RunSession_not_idle:
  assumes "ss_State s \<noteq> StateIdle"
  shows "RunSession en s w =
    (let e = Errorf (''invalid state transition: '' @ ss_State s @ '' -> '' @ StateHandshake)
     in Some (Inl (Err e), s\<lparr>ss_err := Some e\<rparr>, w))"
proof -
  have "\<not> isValidTransition (ss_State s) StateHandshake"
    using assms by (auto simp: isValidTransition_def state_defs)
  thus ?thesis
    by (simp add: RunSession_def openingStates_def transitionOrReturn_def TransitionTo_def fail_def setErr_def Let_def)
qed

text \<open>The common shape of the proofs about a run: an invariant of the loop and what follows from it at the exits.\<close>

definition running :: "'w TransferSession \<Rightarrow> bool" where
  "running s \<longleftrightarrow> ss_err s = None \<and> (ss_State s \<in> set activeStates \<or> ss_State s = StateComplete)"

lemma RunSession_inv:
  assumes run: "RunSession en s w = Some out" and idle: "ss_State s = StateIdle"
    and init: "I (s\<lparr>ss_err := None, ss_State := if ss_pendingRequest s \<noteq> None then StateTransferring else StateHandshake\<rparr>) w"
    and step: "\<And>s w h nx s1 w1. I s w \<Longrightarrow> running s \<Longrightarrow> handlerFor (ss_State s) = Some h \<Longrightarrow> h en s w = Some (Next nx, s1, w1) \<Longrightarrow>
      nx \<in> successors s \<Longrightarrow> frames s s1 \<Longrightarrow> I (s1\<lparr>ss_State := nx\<rparr>) w1"
    and exit: "\<And>s w out. I s w \<Longrightarrow> running s \<Longrightarrow> sessionStep en (s, w) = Some (Inr out) \<Longrightarrow> Q out"
  shows "Q out"
proof -
  let ?I = "\<lambda>(s, w). I s w \<and> running s"
  from run idle have "for_ever (sessionStep en)
      (s\<lparr>ss_err := None, ss_State := if ss_pendingRequest s \<noteq> None then StateTransferring else StateHandshake\<rparr>, w) = Some out"
    by (simp add: RunSession_idle)
  thus ?thesis
  proof (rule for_ever_inv [where I = ?I and Q = Q])
    show "?I (s\<lparr>ss_err := None, ss_State := if ss_pendingRequest s \<noteq> None then StateTransferring else StateHandshake\<rparr>, w)"
      using init by (simp add: running_def activeStates_def)
  next
    fix x y assume I: "?I x" and st: "sessionStep en x = Some (Inl y)"
    obtain s w where x: "x = (s, w)" by (cases x)
    from st [unfolded x] show "?I y"
    proof (rule sessionStep_Inl)
      fix h nx s1 w1
      assume *: "handlerFor (ss_State s) = Some h" "h en s w = Some (Next nx, s1, w1)" "nx \<in> successors s"
        "nx \<in> set activeStates \<or> nx = StateComplete"
        "frames s s1" "y = (s1\<lparr>ss_State := nx\<rparr>, w1)"
      from * step [OF _ _ *(1-3) *(5)] I show "?I y" unfolding x running_def by (auto dest: frames_fields)
    qed
  next
    fix x out assume "?I x" "sessionStep en x = Some (Inr out)"
    thus "Q out" using exit [of "fst x" "snd x" out] by (cases x) simp
  qed
qed

text \<open>The rounds of a run go from state to state along legal transitions, and the last one leaves the loop.\<close>

lemma session_rounds:
  assumes "rounds (sessionStep en) x xs out" and "running (fst x)"
  shows "successively isValidTransition (map (ss_State \<circ> fst) xs) \<and> hd xs = x \<and> running (fst (last xs)) \<and>
    sessionStep en (last xs) = Some (Inr out)"
  using assms
proof (induction rule: rounds.induct)
  case (again x y xs out)
  obtain s w where x: "x = (s, w)" by (cases x)
  have "isValidTransition (ss_State s) (ss_State (fst y)) \<and> running (fst y)"
    using again.hyps(1) [unfolded x]
    by (rule sessionStep_Inl) (use again.prems x in \<open>auto simp: running_def dest: frames_fields\<close>)
  with again rounds_start [OF again.hyps(2)] x show ?case by auto
qed simp

text \<open>How the last round leaves: complete, failed, cancelled, or by a panic.\<close>

lemma session_exit:
  fixes s :: "'w TransferSession"
  assumes "sessionStep en (s, w) = Some (Inr (r, s', w'))" and "running s"
  shows "(r = Inr () \<and> ss_State s' = StateComplete \<and> ss_err s' = None \<and> ss_State s' = ss_State s) \<or>
    (\<exists>e. r = Inl (Err e) \<and> ss_State s' = StateFailed \<and> ss_err s' = Some e \<and> isValidTransition (ss_State s) StateFailed) \<or>
    (\<exists>e. r = Inl (Err e) \<and> se_ctx_Err en w' = Some e \<and> ss_err s' = Some e \<and> ss_State s' = ss_State s) \<or>
    (\<exists>m. r = Inl (Panic m) \<and> ss_err s' = None \<and> ss_State s' = ss_State s)"
proof -
  from assms(2) have st: "ss_err s = None" "ss_State s \<in> set activeStates \<or> ss_State s = StateComplete" by (simp_all add: running_def)
  from sessionStep_Inr [OF assms(1) st(2)] show ?thesis
  proof (elim disjE exE conjE)
    fix h :: "'w session_env \<Rightarrow> 'w TransferSession \<Rightarrow> 'w \<Rightarrow> 'w handled" and q s1 w1 x e
    assume "handlerFor (ss_State s) = Some h" and "frames s s1"
    with st(1) active_can_fail [OF handlerFor_Some] have f: "isValidTransition (ss_State s) StateFailed" "ss_State s1 = ss_State s" "ss_err s1 = None"
      by (auto dest: frames_fields)
    show ?thesis if "(r, s', w') = (Inl (Err e), (setErr e s1)\<lparr>ss_State := StateFailed\<rparr>, w1)"
      using that f by (simp add: setErr_def)
  next
    fix h :: "'w session_env \<Rightarrow> 'w TransferSession \<Rightarrow> 'w \<Rightarrow> 'w handled" and q s1 w1 m
    assume "frames s s1" and "(r, s', w') = (Inl (Panic m), s1, w1)"
    with st(1) show ?thesis by (auto dest: frames_fields)
  qed (use st in \<open>auto simp: getErr_def setErr_def\<close>)
qed

text \<open>
  C7. How a session runs and ends.  A session that is not idle is refused: the error names the illegal
  transition, and neither the state nor the world changes.  An idle session goes, from the transitions
  that open it over the rounds of its loop to its end, along legal transitions only.  It ends \<open>COMPLETE\<close> without
  an error; or \<open>FAILED\<close> with the error recorded; or where it was when the context was cancelled, with
  that error recorded; or with a panic, where it was and without a recorded error.  It is never \<open>REJECTED\<close>, although
  the handlers ask for it.
\<close>

theorem session_outcome:
  assumes "RunSession en s w = Some (r, s', w')"
  shows "if ss_State s \<noteq> StateIdle
    then r = Inl (Err (Errorf (''invalid state transition: '' @ ss_State s @ '' -> '' @ StateHandshake))) \<and>
      s' = s\<lparr>ss_err := Some (Errorf (''invalid state transition: '' @ ss_State s @ '' -> '' @ StateHandshake))\<rparr> \<and> w' = w
    else \<exists>xs q. rounds (sessionStep en) (s\<lparr>ss_err := None, ss_State := last (openingStates s)\<rparr>, w) xs (r, s', w') \<and>
      q = ss_State (fst (last xs)) \<and>
      successively isValidTransition (StateIdle # butlast (openingStates s) @ map (ss_State \<circ> fst) xs
        @ (if ss_State s' = q then [] else [ss_State s'])) \<and>
      (r = Inr () \<and> ss_State s' = StateComplete \<and> ss_err s' = None \<or>
       (\<exists>e. r = Inl (Err e) \<and> ss_State s' = StateFailed \<and> ss_err s' = Some e) \<or>
       (\<exists>e. r = Inl (Err e) \<and> se_ctx_Err en w' = Some e \<and> ss_err s' = Some e \<and> ss_State s' = q) \<or>
       (\<exists>m. r = Inl (Panic m) \<and> ss_err s' = None \<and> ss_State s' = q)) \<and>
      ss_State s' \<noteq> StateRejected"
proof (cases "ss_State s = StateIdle")
  case False
  with assms show ?thesis by (simp add: RunSession_not_idle Let_def)
next
  case True
  let ?s = "s\<lparr>ss_err := None, ss_State := last (openingStates s)\<rparr>"
  have "?s = s\<lparr>ss_err := None, ss_State := if ss_pendingRequest s \<noteq> None then StateTransferring else StateHandshake\<rparr>"
    by (simp add: openingStates_def)
  with assms True obtain xs where xs: "rounds (sessionStep en) (?s, w) xs (r, s', w')"
    by (auto simp: RunSession_idle for_ever_rounds simp del: openingStates_def)
  have run: "running ?s" by (simp add: running_def activeStates_def openingStates_def)
  note path = session_rounds [OF xs, simplified fst_conv, OF run]
  obtain t v where last: "last xs = (t, v)" by (cases "last xs")
  from rounds_start [OF xs] obtain ts where ts: "xs = (?s, w) # ts" ..
  have exit: "sessionStep en (t, v) = Some (Inr (r, s', w'))" "running t" using path last by auto
  have rej: "ss_State t \<noteq> StateRejected" "StateRejected \<noteq> StateComplete" "StateRejected \<noteq> StateFailed"
    using exit(2) by (auto simp: running_def activeStates_def state_defs)
  have "isValidTransition StateIdle StateHandshake" "isValidTransition StateHandshake StateVerifying" "isValidTransition StateVerifying StateTransferring"
    by (simp_all add: isValidTransition_def state_defs)
  hence "successively isValidTransition (StateIdle # butlast (openingStates s) @ map (ss_State \<circ> fst) xs)"
    using path ts by (simp add: openingStates_def split: if_splits)
  moreover have "ss_State s' = ss_State t \<or> isValidTransition (ss_State t) (ss_State s')"
    using session_exit [OF exit] by auto
  moreover have "last (StateIdle # butlast (openingStates s) @ map (ss_State \<circ> fst) xs) = ss_State t"
  proof -
    have "xs \<noteq> []" using ts by simp
    with last last_map [OF this, of "ss_State \<circ> fst"] show ?thesis by (simp add: last_append)
  qed
  ultimately have "successively isValidTransition ((StateIdle # butlast (openingStates s) @ map (ss_State \<circ> fst) xs)
      @ (if ss_State s' = ss_State t then [] else [ss_State s']))"
    unfolding successively_append_iff by auto
  with True xs session_exit [OF exit] rej last show ?thesis by (auto intro!: exI [of _ xs])
qed

text \<open>A session that serves one chunk over a transport that collects what is sent.\<close>

definition demo_transport :: "Envelope option list Transport" where
  "demo_transport = \<lparr>tp_Send = (\<lambda>e w. (Inr (), w @ [e])), tp_Recv = (\<lambda>w. None),
     tp_TryRecv = (\<lambda>w. (None, False, w)), tp_PutBack = (\<lambda>e w. w)\<rparr>"

definition demo_storage :: "Envelope option list FileStorage" where
  "demo_storage = \<lparr>fs_ReadChunk = (\<lambda>fh i w. Inr (Some [7])), fs_WriteChunk = (\<lambda>fh i d w. (Inr (), w)), fs_HasChunk = (\<lambda>fh i w. Inr True)\<rparr>"

definition demo_request :: TransferRequest where
  "demo_request = \<lparr>tr_RequesterPubkey = Some [1], tr_FileHash = Some [2], tr_ChunkIndices = [5], tr_Nonce = None,
     tr_Timestamp = 1, tr_Signature = None\<rparr>"

definition demo_session :: "Envelope option list TransferSession" where
  "demo_session = SetPendingRequest (Some demo_request) (SetFileStorage (Some demo_storage)
     (NewSession ''peer'' DirectionInbound (Some [2]) (Some demo_transport) None None None))"

definition demo_session_env :: "'w session_env" where
  "demo_session_env = \<lparr>se_crypto = demo_crypto, se_proto = demo_proto, se_policy = (\<lambda>_. demo_env), se_ctx_Err = (\<lambda>_. None)\<rparr>"

definition demo_batch :: ChunkBatch where
  "demo_batch = \<lparr>cb_FileHash = Some [2], cb_Chunks = [Some \<lparr>cd_ChunkIndex = 5, cd_Data = Some [7]\<rparr>]\<rparr>"

lemmas demo_session_defs = demo_session_def demo_request_def demo_storage_def demo_transport_def demo_batch_def
  demo_session_env_def NewSession_def SetPendingRequest_def SetFileStorage_def

lemma demo_run:
  "RunSession demo_session_env demo_session [] =
   Some (Inr (), demo_session\<lparr>ss_State := StateComplete\<rparr>, [Some (envelope (Envelope_ChunkBatch (Some demo_batch)))])"
proof -
  let ?s = "demo_session\<lparr>ss_State := StateTransferring\<rparr>"
  have step: "sessionStep demo_session_env (?s, []) =
      Some (Inl (?s\<lparr>ss_State := StateComplete\<rparr>, [Some (envelope (Envelope_ChunkBatch (Some demo_batch)))]))"
    by (simp add: demo_session_defs sessionStep_def handlerFor_def handleTransferring_def MissingChunkIndices_def
        or_stop_def serveChunks_def MaxChunksPerBatch_def BuildBatch_def clone_def send_or_stop_def
        transitionOrReturn_def TransitionTo_def isValidTransition_def DirectionInbound_def state_defs)
  have last: "sessionStep demo_session_env (?s\<lparr>ss_State := StateComplete\<rparr>, x) = Some (Inr (Inr (), ?s\<lparr>ss_State := StateComplete\<rparr>, x))" for x
    by (simp add: demo_session_defs sessionStep_def handlerFor_def getErr_def state_defs)
  have "RunSession demo_session_env demo_session [] = for_ever (sessionStep demo_session_env) (?s, [])"
    by (subst RunSession_idle) (simp_all add: demo_session_defs)
  also have "\<dots> = Some (Inr (), ?s\<lparr>ss_State := StateComplete\<rparr>, [Some (envelope (Envelope_ChunkBatch (Some demo_batch)))])"
    using for_ever_unfold(2) [of "sessionStep demo_session_env", OF step]
      for_ever_unfold(3) [of "sessionStep demo_session_env", OF last] by simp
  finally show ?thesis by simp
qed

theorem session_outcome_witness:
  "\<exists>xs. rounds (sessionStep demo_session_env) (demo_session\<lparr>ss_State := StateTransferring\<rparr>, []) xs
      (Inr (), demo_session\<lparr>ss_State := StateComplete\<rparr>, [Some (envelope (Envelope_ChunkBatch (Some demo_batch)))]) \<and>
    successively isValidTransition ([StateIdle, StateHandshake, StateVerifying] @ map (ss_State \<circ> fst) xs)"
proof -
  have "ss_State demo_session = StateIdle" "openingStates demo_session = [StateHandshake, StateVerifying, StateTransferring]"
    "demo_session\<lparr>ss_err := None\<rparr> = demo_session"
    by (simp_all add: demo_session_defs openingStates_def)
  with session_outcome [OF demo_run] obtain xs zs where
    "rounds (sessionStep demo_session_env) (demo_session\<lparr>ss_State := StateTransferring\<rparr>, []) xs
      (Inr (), demo_session\<lparr>ss_State := StateComplete\<rparr>, [Some (envelope (Envelope_ChunkBatch (Some demo_batch)))])"
    "successively isValidTransition (([StateIdle, StateHandshake, StateVerifying] @ map (ss_State \<circ> fst) xs) @ zs)"
    by (auto simp del: successively.simps)
  thus ?thesis unfolding successively_append_iff [of _ _ zs] by blast
qed

text \<open>Without a pending request or without file storage the way to \<open>COMPLETE\<close> is through co-signing.\<close>

lemma RunSession_cosigned:
  assumes "ss_State s = StateIdle" and "ss_pendingRequest s = None \<or> ss_storage s = None"
    and "RunSession en s w = Some (r, s', w')" and "r = Inr () \<or> ss_State s' = StateComplete"
  shows "\<exists>appendRecord rec w1. ss_chain s = Some appendRecord \<and> ValidateShareRecord (se_crypto en) rec = Inr () \<and>
    appendRecord rec w1 = (Inr (), w')"
proof -
  let ?done = "\<lambda>w. \<exists>app rec w1. ss_chain s = Some app \<and> ValidateShareRecord (se_crypto en) rec = Inr () \<and> app rec w1 = (Inr (), w)"
  let ?I = "\<lambda>t w. ss_chain t = ss_chain s \<and> (ss_pendingRequest t = None \<or> ss_storage t = None) \<and>
    (ss_State t = StateGossiping \<or> ss_State t = StateComplete \<longrightarrow> ?done w)"
  let ?Q = "\<lambda>(r :: unit res, t :: 'a TransferSession, w). r = Inr () \<or> ss_State t = StateComplete \<longrightarrow> ?done w"
  have "?Q (r, s', w')"
    using assms(3,1)
  proof (rule RunSession_inv [where I = ?I and Q = ?Q])
    show "?I (s\<lparr>ss_err := None, ss_State := if ss_pendingRequest s \<noteq> None then StateTransferring else StateHandshake\<rparr>) w"
      using assms(2) by (simp add: state_defs)
  next
    fix t :: "'a TransferSession" and w h nx s1 w1
    assume I: "?I t w" and h: "handlerFor (ss_State t) = Some h" "h en t w = Some (Next nx, s1, w1)"
      and nx: "nx \<in> successors t" and fr: "frames t s1"
    have "?done w1" if "nx = StateGossiping \<or> nx = StateComplete"
    proof (cases "ss_State t = StateCoSigning")
      case True
      with h have "handleCoSigning en t w = Some (Next nx, s1, w1)" by (simp add: handlerFor_def state_defs)
      with handleCoSigning_Next I show ?thesis by metis
    next
      case False
      with that nx h(1) I have "ss_State t = StateGossiping"
        by (auto simp: successors_def handlerFor_def state_defs split: if_splits)
      with h I show ?thesis by (auto simp: handlerFor_def handleGossiping_def state_defs)
    qed
    with I frames_fields [OF fr] show "?I (s1\<lparr>ss_State := nx\<rparr>) w1" by simp
  next
    fix t :: "'a TransferSession" and w out
    assume "?I t w" and r: "running t" and ex: "sessionStep en (t, w) = Some (Inr out)"
    moreover have "StateComplete \<notin> set activeStates" "StateFailed \<noteq> StateComplete" by (simp_all add: activeStates_def state_defs)
    ultimately show "?Q out" using sessionStep_Inr [OF ex] by (auto simp: running_def setErr_def dest: frames_fields handlerFor_Some)
  qed
  with assms(4) show ?thesis by blast
qed

text \<open>
  C6. A session without a pending request or without file storage completes only after it appended
  a record that validates: both parties signed it and its id is the hash of its contents.
\<close>

theorem completed_session_cosigned:
  assumes "ss_State s = StateIdle" and "ss_pendingRequest s = None \<or> ss_storage s = None"
    and "RunSession en s w = Some (Inr (), s', w')"
  shows "\<exists>appendRecord rec w1. ss_chain s = Some appendRecord \<and> ValidateShareRecord (se_crypto en) rec = Inr () \<and>
    appendRecord rec w1 = (Inr (), w')"
  using RunSession_cosigned [OF assms] by simp

text \<open>A requester's session: a first handshake, then a draft the sender has signed.\<close>

definition queue_transport :: "Envelope option list Transport" where
  "queue_transport = \<lparr>tp_Send = (\<lambda>e w. (Inr (), w)), tp_Recv = (\<lambda>w. case w of [] \<Rightarrow> None | e # q \<Rightarrow> Some (Inr e, q)),
     tp_TryRecv = (\<lambda>w. case w of [] \<Rightarrow> (None, False, w) | e # q \<Rightarrow> (e, True, q)), tp_PutBack = (\<lambda>e w. e # w)\<rparr>"

definition demo_handshake :: HandshakeMsg where
  "demo_handshake = \<lparr>hs_SessionId = Some [1], hs_EphemeralPubkey = None, hs_IdentityPubkey = Some [9], hs_Policy = POLICY_NONE,
     hs_LatestCheckpoint = None, hs_RecordsSinceCheckpoint = []\<rparr>"

definition demo_half_signed :: ShareRecord where
  "demo_half_signed = AttachSenderSig demo_draft (Some (demo_pub 1 @ SignableBytes demo_draft))"

definition demo_receiver :: "Envelope option list TransferSession" where
  "demo_receiver = NewSession ''peer'' DirectionOutbound None (Some queue_transport) (Some (\<lambda>r w. (Inr (), w)))
     (Some (\<lambda>rs pub t w. Inr 0)) (Some (Sign demo_crypto (Some (demo_priv 2))))"

definition demo_inbox :: "Envelope option list" where
  "demo_inbox = [Some (envelope (Envelope_Handshake (Some demo_handshake))),
     Some (envelope (Envelope_ShareRecord (Some demo_half_signed)))]"

lemma demo_cosigned_valid:
  "ValidateShareRecord demo_crypto (AttachReceiverSig demo_crypto demo_half_signed (Some (demo_pub 2 @ SignableBytes demo_draft))) = Inr ()"
  unfolding demo_half_signed_def
  by (rule Attach_validates) (simp_all add: Verify_def PublicKeySize_def demo_crypto_def demo_pub_def, simp_all add: demo_draft_def demo_pub_def)

lemma demo_ctx [simp]: "se_ctx_Err demo_session_env w = None"
  by (simp add: demo_session_env_def)

lemmas demo_receiver_defs = demo_receiver_def NewSession_def queue_transport_def demo_session_env_def
lemmas session_step_defs = sessionStep_def handlerFor_def transitionOrReturn_def TransitionTo_def isValidTransition_def

lemma demo_cosign_step:
  "handleCoSigning demo_session_env (demo_receiver\<lparr>ss_State := StateCoSigning\<rparr>) [Some (envelope (Envelope_ShareRecord (Some demo_half_signed)))] =
   Some (Next StateGossiping, demo_receiver\<lparr>ss_State := StateCoSigning\<rparr>, [])"
proof -
  have sign: "Sign demo_crypto (Some (demo_priv 2)) (SignableBytes demo_half_signed) = Inr (Some (demo_pub 2 @ SignableBytes demo_draft))"
    by (simp add: Sign_eq_Inr demo_half_signed_def demo_crypto_def demo_priv_def demo_pub_def)
  have sigs: "bs (sr_SenderSig (AttachReceiverSig demo_crypto demo_half_signed x)) \<noteq> []"
    "bs (sr_ReceiverSig (AttachReceiverSig demo_crypto demo_half_signed (Some (demo_pub 2 @ y)))) \<noteq> []" for x y
    by (simp_all add: AttachReceiverSig_def demo_half_signed_def AttachSenderSig_def demo_pub_def Let_def)
  have rh: "bs (sr_RequestHash demo_half_signed) \<noteq> []"
    by (simp add: demo_half_signed_def AttachSenderSig_def demo_draft_def)
  show ?thesis
    using rh sigs demo_cosigned_valid
    by (simp add: handleCoSigning_def recv_or_stop_def or_stop_def coSignRecord_def coSignRequestHash_def sign send_or_stop_def
        finishCoSign_def appendFinal_def demo_receiver_defs clone_def DirectionOutbound_def DirectionInbound_def)
qed

lemma demo_cosign_run:
  "RunSession demo_session_env demo_receiver demo_inbox = Some (Inr (), demo_receiver\<lparr>ss_State := StateComplete\<rparr>, [])"
proof -
  let ?s = "\<lambda>q. demo_receiver\<lparr>ss_State := q\<rparr>"
  let ?step = "sessionStep demo_session_env"
  have 1: "?step (?s StateHandshake, demo_inbox) = Some (Inl (?s StateVerifying, demo_inbox))"
    by (simp add: session_step_defs handleHandshake_def demo_receiver_defs state_defs)
  have 2: "?step (?s StateVerifying, demo_inbox) = Some (Inl (?s StateTransferring, tl demo_inbox))"
    by (simp add: session_step_defs handleVerifying_def recv_or_stop_def or_stop_def demo_inbox_def ProcessHandshake_def
        demo_handshake_def isKnownPolicy_def maxVerificationPayloadBytes_def demo_proto_def admitPeer_def demo_receiver_defs state_defs)
  have 3: "?step (?s StateTransferring, tl demo_inbox) = Some (Inl (?s StateCoSigning, tl demo_inbox))"
    by (simp add: session_step_defs handleTransferring_def demo_receiver_defs state_defs)
  have 4: "?step (?s StateCoSigning, tl demo_inbox) = Some (Inl (?s StateGossiping, []))"
    using demo_cosign_step
    by (simp add: session_step_defs demo_inbox_def state_defs)
  have 5: "?step (?s StateGossiping, []) = Some (Inl (?s StateComplete, []))"
    by (simp add: session_step_defs handleGossiping_def demo_receiver_defs state_defs)
  have 6: "?step (?s StateComplete, []) = Some (Inr (Inr (), ?s StateComplete, []))"
    by (simp add: session_step_defs getErr_def demo_receiver_defs state_defs)
  note run = for_ever_unfold [of ?step]
  have "for_ever ?step (?s StateHandshake, demo_inbox) = Some (Inr (), ?s StateComplete, [])"
    by (simp only: run(2) [OF 1] run(2) [OF 2] run(2) [OF 3] run(2) [OF 4] run(2) [OF 5] run(3) [OF 6])
  thus ?thesis by (subst RunSession_idle) (simp_all add: demo_receiver_defs)
qed

theorem completed_session_cosigned_witness:
  "\<exists>appendRecord rec w1. ss_chain demo_receiver = Some appendRecord \<and> ValidateShareRecord demo_crypto rec = Inr () \<and>
     appendRecord rec w1 = (Inr (), [])"
proof -
  have "ss_State demo_receiver = StateIdle" "ss_pendingRequest demo_receiver = None \<or> ss_storage demo_receiver = None"
    by (simp_all add: demo_receiver_defs)
  from completed_session_cosigned [OF this demo_cosign_run] show ?thesis by (simp add: demo_session_env_def)
qed

end
