(* ===== verification/Session_Live.thy ===== *)
theory Session_Live
  imports Session_Props
begin

text \<open>
  What the two roles of a transfer achieve, whom a session admits, and that sessions return on a
  transport that cannot deliver for ever.
\<close>

section \<open>The sender\<close>

lemma chunk_indices:
  "list_all2 (\<lambda>i c. \<exists>d. P i d \<and> c = Some \<lparr>cd_ChunkIndex = i, cd_Data = d\<rparr>) idxs cs \<Longrightarrow>
   map (map_option cd_ChunkIndex) cs = map Some idxs"
  by (induction rule: list_all2_induct) auto

text \<open>The run of a session that serves a request whose chunks are all stored.\<close>

lemma sender_run:
  assumes "ss_State s = StateIdle" and "ss_Direction s = DirectionInbound"
    and "ss_pendingRequest s = Some req" and "ss_storage s = Some st" and "ss_transport s = Some t"
    and "tr_ChunkIndices req \<noteq> []"
    and "MissingChunkIndices (Some st) (tr_FileHash req) (tr_ChunkIndices req) w = Inr []"
    and "BuildBatch (Some st) (tr_FileHash req) (take 64 (tr_ChunkIndices req)) (int (length (take 64 (tr_ChunkIndices req)))) w = Inr batch"
    and "tp_Send t (Some (envelope (Envelope_ChunkBatch (Some batch)))) w = (Inr (), w')"
    and "\<And>w. se_ctx_Err en w = None"
  shows "RunSession en s w = Some (Inr (), s\<lparr>ss_err := None, ss_State := StateComplete\<rparr>, w') \<and>
    map (map_option cd_ChunkIndex) (cb_Chunks batch) = map Some (take 64 (tr_ChunkIndices req))"
proof
  let ?s = "s\<lparr>ss_err := None, ss_State := StateTransferring\<rparr>"
  have idx: "(if length (tr_ChunkIndices req) > MaxChunksPerBatch then take MaxChunksPerBatch (tr_ChunkIndices req) else tr_ChunkIndices req) =
      take 64 (tr_ChunkIndices req)"
    by (simp add: MaxChunksPerBatch_def)
  have "serveChunks st req [] ?s w = Some (Next StateComplete, ?s, w')"
    using assms(5,6,8,9) by (simp only: serveChunks_def idx Let_def) (simp add: or_stop_def send_or_stop_def)
  hence h: "handleTransferring en ?s w = Some (Next StateComplete, ?s, w')"
    using assms(2,3,4,7) by (simp add: handleTransferring_def or_stop_def)
  have 1: "sessionStep en (?s, w) = Some (Inl (s\<lparr>ss_err := None, ss_State := StateComplete\<rparr>, w'))"
    using h assms(10) by (simp add: session_step_defs state_defs)
  have 2: "sessionStep en (s\<lparr>ss_err := None, ss_State := StateComplete\<rparr>, w') = Some (Inr (Inr (), s\<lparr>ss_err := None, ss_State := StateComplete\<rparr>, w'))"
    using assms(10) by (simp add: session_step_defs getErr_def state_defs)
  note run = for_ever_unfold [of "sessionStep en"]
  have "RunSession en s w = for_ever (sessionStep en) (?s, w)"
    using assms(1,3) by (simp add: RunSession_idle)
  thus "RunSession en s w = Some (Inr (), s\<lparr>ss_err := None, ss_State := StateComplete\<rparr>, w')"
    by (simp only: run(2) [OF 1] run(3) [OF 2])
  show "map (map_option cd_ChunkIndex) (cb_Chunks batch) = map Some (take 64 (tr_ChunkIndices req))"
    using assms(8) chunk_indices [where P = "\<lambda>i d. fs_ReadChunk st (tr_FileHash req) i w = Inr d"]
    by (simp add: BuildBatch_eq_Inr)
qed

text \<open>
  A session that serves a request whose chunks are all stored sends one batch with the first 64
  requested chunks, in the order of the request, and completes: it never waits for the peer, no
  record is co-signed, and chunks after the 64th are not sent.
\<close>

theorem sender_session_run:
  assumes "ss_State s = StateIdle" and "ss_Direction s = DirectionInbound"
    and "ss_pendingRequest s = Some req" and "ss_storage s = Some st" and "ss_transport s = Some t"
    and "tr_ChunkIndices req \<noteq> []"
    and "MissingChunkIndices (Some st) (tr_FileHash req) (tr_ChunkIndices req) w = Inr []"
    and "BuildBatch (Some st) (tr_FileHash req) (take 64 (tr_ChunkIndices req)) (int (length (take 64 (tr_ChunkIndices req)))) w = Inr batch"
    and "tp_Send t (Some (envelope (Envelope_ChunkBatch (Some batch)))) w = (Inr (), w')"
    and "\<And>w. se_ctx_Err en w = None"
  shows "RunSession en s w = Some (Inr (), s\<lparr>ss_err := None, ss_State := StateComplete\<rparr>, w') \<and>
    map (map_option cd_ChunkIndex) (cb_Chunks batch) = map Some (take 64 (tr_ChunkIndices req))"
  using sender_run [OF assms] .

theorem sender_session_run_witness:
  "RunSession demo_session_env demo_session [] =
   Some (Inr (), demo_session\<lparr>ss_err := None, ss_State := StateComplete\<rparr>, [Some (envelope (Envelope_ChunkBatch (Some demo_batch)))])"
proof -
  have "RunSession demo_session_env demo_session [] =
     Some (Inr (), demo_session\<lparr>ss_err := None, ss_State := StateComplete\<rparr>, [Some (envelope (Envelope_ChunkBatch (Some demo_batch)))]) \<and>
     map (map_option cd_ChunkIndex) (cb_Chunks demo_batch) = map Some (take 64 (tr_ChunkIndices demo_request))"
    by (rule sender_session_run [where st = demo_storage and t = demo_transport])
      (simp_all add: demo_session_defs MissingChunkIndices_def BuildBatch_def MaxChunksPerBatch_def clone_def)
  thus ?thesis ..
qed

section \<open>The requester\<close>

definition has_chunk :: "'w FileStorage \<Rightarrow> slice \<Rightarrow> uint32 \<Rightarrow> 'w \<Rightarrow> bool" where
  "has_chunk st fh i w \<longleftrightarrow> fs_HasChunk st fh i w = Inr True"

lemma MissingChunkIndices_Inr:
  "MissingChunkIndices (Some st) fh idxs w = Inr ms \<Longrightarrow> i \<in> set idxs \<Longrightarrow> i \<in> set ms \<or> has_chunk st fh i w"
  by (auto simp: MissingChunkIndices_def missingLoop_eq_Inr has_chunk_def split: if_splits)

lemma requestChunks_Next:
  assumes "requestChunks req missing s w = Some (Next nx, s', w')" "ss_transport s = Some t"
  shows "\<exists>req' e. ss_pendingRequest s' = Some req' \<and> tr_FileHash req' = tr_FileHash req \<and> tr_ChunkIndices req' = missing \<and>
    nx = StateTransferring \<and> (\<exists>r. tp_Send t e w = (r, w'))"
  using assms
  by (fastforce simp: requestChunks_def Let_def handled_Next res_bind_eq_Inr split: option.splits)

lemma handleTransferring_requester:
  assumes step: "handleTransferring en s w = Some (Next nx, s', w')"
    and req: "ss_pendingRequest s = Some req" "ss_storage s = Some st" "ss_transport s = Some t"
    and out: "ss_Direction s \<noteq> DirectionInbound"
    and keeps: "\<And>i. world_keeps (has_chunk st (tr_FileHash req) i) t st"
    and got: "\<forall>i\<in>A. i \<in> set (tr_ChunkIndices req) \<or> has_chunk st (tr_FileHash req) i w"
  shows "(nx = StateTransferring \<or> nx = StateComplete) \<and>
    (\<exists>req'. ss_pendingRequest s' = Some req' \<and> tr_FileHash req' = tr_FileHash req \<and>
      (\<forall>i\<in>A. nx = StateTransferring \<and> i \<in> set (tr_ChunkIndices req') \<or> has_chunk st (tr_FileHash req) i w'))"
proof -
  from step req obtain missing where m: "MissingChunkIndices (Some st) (tr_FileHash req) (tr_ChunkIndices req) w = Inr missing"
    by (auto simp: handleTransferring_def or_stop_eq_Next)
  note inM = MissingChunkIndices_Inr [OF m]
  have A: "i \<in> set missing \<or> has_chunk st (tr_FileHash req) i w" if "i \<in> A" for i
    using got that inM by blast
  consider (fin) "missing = []" | (ask) "missing \<noteq> []" "\<not> ss_outboundChunkRequestSent s" | (wait) "missing \<noteq> []" "ss_outboundChunkRequestSent s"
    by blast
  thus ?thesis
  proof cases
    case fin
    with step req m out A show ?thesis by (auto simp: handleTransferring_def or_stop_eq_Next)
  next
    case ask
    with step req m out have "requestChunks req missing s w = Some (Next nx, s', w')"
      by (simp add: handleTransferring_def or_stop_eq_Next)
    from requestChunks_Next [OF this req(3)] A world_keepsD(1) [OF keeps] show ?thesis by fastforce
  next
    case wait
    with step req m out have wf: "waitForChunks (Some t) st req w = Some (Next nx, w')" and s': "s' = s"
      by (auto simp: handleTransferring_def or_stop_eq_Next bind_eq_Some_conv)
    have "has_chunk st (tr_FileHash req) i w'" if "i \<in> A" for i
    proof -
      let ?I = "\<lambda>w. i \<in> set (tr_ChunkIndices req) \<or> has_chunk st (tr_FileHash req) i w"
      have K: "world_keeps ?I t st" using keeps [of i] unfolding world_keeps_def by blast
      from waitForChunks_complete [OF K _ wf] got that obtain w1 where w1: "?I w1"
        "MissingChunkIndices (Some st) (tr_FileHash req) (tr_ChunkIndices req) w1 = Inr []" "drainBatches t st w1 = Some (Inr (), w')"
        by blast
      with MissingChunkIndices_Inr [OF w1(2)] have "has_chunk st (tr_FileHash req) i w1" by auto
      with drainBatches_keeps [OF keeps _ w1(3)] show ?thesis by blast
    qed
    with waitForChunks_Next [OF wf] s' req show ?thesis by auto
  qed
qed

text \<open>
  C14. A requesting session that completes has every chunk that was asked for, on a storage and a
  transport where a chunk that is present stays present.  (That the bytes are the right ones is not
  checked on this path.)
\<close>

theorem requester_complete_has_chunks:
  assumes idle: "ss_State s = StateIdle" and dir: "ss_Direction s = DirectionOutbound"
    and req: "ss_pendingRequest s = Some req" and st: "ss_storage s = Some st" and t: "ss_transport s = Some t"
    and keeps: "\<And>i. world_keeps (has_chunk st (tr_FileHash req) i) t st"
    and run: "RunSession en s w = Some (Inr (), s', w')"
  shows "\<forall>i\<in>set (tr_ChunkIndices req). has_chunk st (tr_FileHash req) i w'"
proof -
  let ?A = "set (tr_ChunkIndices req)"
  let ?all = "\<lambda>w. \<forall>i\<in>?A. has_chunk st (tr_FileHash req) i w"
  let ?I = "\<lambda>u w. ss_Direction u = DirectionOutbound \<and> ss_storage u = Some st \<and> ss_transport u = Some t \<and>
    (ss_State u = StateTransferring \<and> (\<exists>q. ss_pendingRequest u = Some q \<and> tr_FileHash q = tr_FileHash req \<and>
        (\<forall>i\<in>?A. i \<in> set (tr_ChunkIndices q) \<or> has_chunk st (tr_FileHash req) i w)) \<or>
     ss_State u = StateComplete \<and> ?all w)"
  let ?Q = "\<lambda>(r :: unit res, u :: 'a TransferSession, w). r = Inr () \<longrightarrow> ?all w"
  have "?Q (Inr (), s', w')"
    using run idle
  proof (rule RunSession_inv [where I = ?I and Q = ?Q])
    show "?I (s\<lparr>ss_err := None, ss_State := if ss_pendingRequest s \<noteq> None then StateTransferring else StateHandshake\<rparr>) w"
      using dir req st t by simp
  next
    fix u :: "'a TransferSession" and w h nx s1 w1
    assume I: "?I u w" and h: "handlerFor (ss_State u) = Some h" "h en u w = Some (Next nx, s1, w1)" and fr: "frames u s1"
    from I h(1) have tr: "ss_State u = StateTransferring" by (auto simp: handlerFor_def state_defs)
    with I obtain q where q: "ss_pendingRequest u = Some q" "tr_FileHash q = tr_FileHash req"
      "\<forall>i\<in>?A. i \<in> set (tr_ChunkIndices q) \<or> has_chunk st (tr_FileHash q) i w" by (auto simp: state_defs)
    from tr h have "handleTransferring en u w = Some (Next nx, s1, w1)" by (simp add: handlerFor_def state_defs)
    moreover have "ss_storage u = Some st" "ss_transport u = Some t" "ss_Direction u \<noteq> DirectionInbound"
      using I by (auto simp: DirectionOutbound_def DirectionInbound_def)
    moreover have "world_keeps (has_chunk st (tr_FileHash q) i) t st" for i using keeps q(2) by simp
    ultimately have "(nx = StateTransferring \<or> nx = StateComplete) \<and>
      (\<exists>q'. ss_pendingRequest s1 = Some q' \<and> tr_FileHash q' = tr_FileHash q \<and>
        (\<forall>i\<in>?A. nx = StateTransferring \<and> i \<in> set (tr_ChunkIndices q') \<or> has_chunk st (tr_FileHash q) i w1))"
      using q by (intro handleTransferring_requester [where t = t and st = st]) auto
    with I q(2) frames_fields [OF fr] show "?I (s1\<lparr>ss_State := nx\<rparr>) w1" by auto
  next
    fix u :: "'a TransferSession" and w out
    assume I: "?I u w" and ex: "sessionStep en (u, w) = Some (Inr out)"
    hence "ss_State u \<in> set activeStates \<or> ss_State u = StateComplete" by (auto simp: activeStates_def)
    from sessionStep_Inr [OF ex this] I show "?Q out" by (auto simp: state_defs)
  qed
  thus ?thesis by simp
qed

text \<open>A requester whose storage starts empty and whose transport holds the batch with the chunk.\<close>

type_synonym demo_world = "Envelope option list \<times> uint32 list"

definition box_transport :: "demo_world Transport" where
  "box_transport = \<lparr>tp_Send = (\<lambda>e w. (Inr (), w)), tp_Recv = (\<lambda>(q, f). case q of [] \<Rightarrow> None | e # q \<Rightarrow> Some (Inr e, q, f)),
     tp_TryRecv = (\<lambda>(q, f). case q of [] \<Rightarrow> (None, False, q, f) | e # q \<Rightarrow> (e, True, q, f)), tp_PutBack = (\<lambda>e (q, f). (e # q, f))\<rparr>"

definition box_storage :: "demo_world FileStorage" where
  "box_storage = \<lparr>fs_ReadChunk = (\<lambda>fh i w. Inr (Some [7])), fs_WriteChunk = (\<lambda>fh i d (q, f). (Inr (), q, i # f)),
     fs_HasChunk = (\<lambda>fh i (q, f). Inr (i \<in> set f))\<rparr>"

definition demo_requester :: "demo_world TransferSession" where
  "demo_requester = SetPendingRequest (Some demo_request) (SetFileStorage (Some box_storage)
     (NewSession ''peer'' DirectionOutbound (Some [2]) (Some box_transport) None None None))"

lemmas demo_requester_defs = demo_requester_def NewSession_def SetPendingRequest_def SetFileStorage_def box_storage_def
  box_transport_def demo_request_def

lemma box_keeps: "world_keeps (has_chunk box_storage fh i) box_transport box_storage"
  by (auto simp: world_keeps_def has_chunk_def box_storage_def box_transport_def split: list.split)

lemma demo_wait:
  "waitForChunks (Some box_transport) box_storage demo_request ([Some (envelope (Envelope_ChunkBatch (Some demo_batch)))], []) =
   Some (Next StateComplete, [], [5])"
proof -
  let ?step = "waitStep (Some box_transport) box_storage demo_request"
  have 1: "?step ([Some (envelope (Envelope_ChunkBatch (Some demo_batch)))], []) = Some (Inl ([], [5]))"
    by (simp add: waitStep_def MissingChunkIndices_def demo_requester_defs demo_batch_def)
  have d: "drainBatches box_transport box_storage ([], [5]) = Some (Inr (), [], [5])"
    unfolding drainBatches_def by (rule for_ever_unfold(3)) (simp add: drainStep_def box_transport_def)
  have 2: "?step ([], [5]) = Some (Inr (Next StateComplete, [], [5]))"
    using d by (simp add: waitStep_def MissingChunkIndices_def) (simp add: box_storage_def demo_request_def)
  show ?thesis
    unfolding waitForChunks_def by (simp only: for_ever_unfold(2) [of ?step, OF 1] for_ever_unfold(3) [of ?step, OF 2])
qed

lemma demo_request_run:
  "\<exists>s'. RunSession demo_session_env demo_requester ([Some (envelope (Envelope_ChunkBatch (Some demo_batch)))], []) = Some (Inr (), s', [], [5])"
proof -
  let ?step = "sessionStep demo_session_env" and ?w = "([Some (envelope (Envelope_ChunkBatch (Some demo_batch)))], []) :: demo_world"
  let ?s = "demo_requester\<lparr>ss_State := StateTransferring\<rparr>"
  have 1: "?step (?s, ?w) = Some (Inl (?s\<lparr>ss_outboundChunkRequestSent := True\<rparr>, ?w))"
    by (simp add: session_step_defs handleTransferring_def MissingChunkIndices_def or_stop_def requestChunks_def send_or_stop_def
        DirectionOutbound_def DirectionInbound_def demo_requester_defs state_defs)
  have m: "MissingChunkIndices (Some box_storage) (tr_FileHash demo_request) (tr_ChunkIndices demo_request) ?w = Inr [5]"
    by (simp add: MissingChunkIndices_def demo_requester_defs)
  have 2: "?step (?s\<lparr>ss_outboundChunkRequestSent := True\<rparr>, ?w) =
      Some (Inl (?s\<lparr>ss_outboundChunkRequestSent := True, ss_State := StateComplete\<rparr>, [], [5]))"
    using demo_wait m
    by (simp add: session_step_defs handleTransferring_def or_stop_def DirectionOutbound_def DirectionInbound_def state_defs
        demo_requester_def NewSession_def SetPendingRequest_def SetFileStorage_def)
  have 3: "?step (?s\<lparr>ss_outboundChunkRequestSent := True, ss_State := StateComplete\<rparr>, [], [5]) =
      Some (Inr (Inr (), ?s\<lparr>ss_outboundChunkRequestSent := True, ss_State := StateComplete\<rparr>, [], [5]))"
    by (simp add: session_step_defs getErr_def state_defs demo_requester_defs)
  note run = for_ever_unfold [of ?step]
  have "RunSession demo_session_env demo_requester ?w = for_ever ?step (?s, ?w)"
    by (subst RunSession_idle) (simp_all add: demo_requester_defs)
  thus ?thesis by (simp only: run(2) [OF 1] run(2) [OF 2] run(3) [OF 3]) blast
qed

theorem requester_complete_has_chunks_witness:
  "has_chunk box_storage (tr_FileHash demo_request) 5 ([], [5])"
proof -
  obtain s' where "RunSession demo_session_env demo_requester ([Some (envelope (Envelope_ChunkBatch (Some demo_batch)))], []) = Some (Inr (), s', [], [5])"
    using demo_request_run by blast
  hence "\<forall>i\<in>set (tr_ChunkIndices demo_request). has_chunk box_storage (tr_FileHash demo_request) i ([], [5])"
    by (rule requester_complete_has_chunks [where t = box_transport, rotated -1])
      (simp_all add: box_keeps demo_requester_def NewSession_def SetPendingRequest_def SetFileStorage_def)
  thus ?thesis by (simp add: demo_request_def)
qed

section \<open>Admission\<close>

lemma admitPeer_Next:
  "admitPeer en s h pub pol w = Some (Next nx, s', w') \<longleftrightarrow> nx = StateTransferring \<and> s' = s \<and> w' = w \<and>
   (if hs_LatestCheckpoint h = None \<and> hs_RecordsSinceCheckpoint h = []
    then \<exists>bal b. ss_balance s = Some bal \<and> bal [] pub 0 w = Inr b
    else \<exists>rs why. recordsForPolicy en s h pub w = Inr rs \<and>
      EvaluatePolicy (se_policy en w) (map_option (\<lambda>store. store w) (ss_policyStore s)) pub pol (hs_LatestCheckpoint h) rs = Inr (True, why))"
proof (cases "hs_LatestCheckpoint h = None \<and> hs_RecordsSinceCheckpoint h = []")
  case True
  then show ?thesis by (auto simp: admitPeer_def stop_def split: option.splits sum.splits failure.splits)
next
  case False
  let ?r = "res_bind (recordsForPolicy en s h pub w) (\<lambda>rs.
      EvaluatePolicy (se_policy en w) (map_option (\<lambda>store. store w) (ss_policyStore s)) pub pol (hs_LatestCheckpoint h) rs)"
  have "admitPeer en s h pub pol w = Some (Next nx, s', w') \<longleftrightarrow> nx = StateTransferring \<and> s' = s \<and> w' = w \<and> (\<exists>why. ?r = Inr (True, why))"
    using False by (auto simp: admitPeer_def stop_def split: sum.splits failure.splits if_splits)
  with False show ?thesis by (auto simp: res_bind_eq_Inr)
qed

lemma or_stop_pair_Next:
  "or_stop st m r s w (\<lambda>(x, y). k x y) = Some (Next nx, s', w') \<longleftrightarrow> (\<exists>x y. r = Inr (x, y) \<and> k x y = Some (Next nx, s', w'))"
  by (auto simp: or_stop_eq_Next)

text \<open>
  C15. Whom the verification admits to the transfer: a peer whose handshake is small enough and has a
  session id, an identity key and a known policy, and which either presents neither a checkpoint nor
  records (then its fork evidence and its balance do not matter), or is approved by the policy that
  it chose itself.
\<close>

theorem verifying_admits_iff:
  "handleVerifying en s w = Some (Next nx, s', w') \<longleftrightarrow> nx = StateTransferring \<and> s' = s \<and>
   (\<exists>t env h pub. ss_transport s = Some t \<and> tp_Recv t w = Some (Inr (Some env), w') \<and> GetHandshake (Some env) = Some h \<and>
      size_Handshake (se_proto en) h \<le> maxVerificationPayloadBytes \<and>
      bs (hs_SessionId h) \<noteq> [] \<and> bs (hs_IdentityPubkey h) \<noteq> [] \<and> pub = Some (bs (hs_IdentityPubkey h)) \<and> isKnownPolicy (hs_Policy h) \<and>
      (if hs_LatestCheckpoint h = None \<and> hs_RecordsSinceCheckpoint h = []
       then \<exists>bal b. ss_balance s = Some bal \<and> bal [] pub 0 w' = Inr b
       else \<exists>rs why. recordsForPolicy en s h pub w' = Inr rs \<and>
         EvaluatePolicy (se_policy en w') (map_option (\<lambda>store. store w') (ss_policyStore s)) pub (hs_Policy h)
           (hs_LatestCheckpoint h) rs = Inr (True, why)))"
proof -
  have hand: "ProcessHandshake (Some h) = Inr (pub, pol) \<longleftrightarrow> bs (hs_SessionId h) \<noteq> [] \<and> bs (hs_IdentityPubkey h) \<noteq> [] \<and>
      isKnownPolicy (hs_Policy h) \<and> pub = Some (bs (hs_IdentityPubkey h)) \<and> pol = hs_Policy h" for h pub pol
    by (auto simp: ProcessHandshake_def clone_def)
  define adm where "adm h pub w' \<longleftrightarrow> (if hs_LatestCheckpoint h = None \<and> hs_RecordsSinceCheckpoint h = []
       then \<exists>bal b. ss_balance s = Some bal \<and> bal [] pub 0 w' = Inr b
       else \<exists>rs why. recordsForPolicy en s h pub w' = Inr rs \<and>
         EvaluatePolicy (se_policy en w') (map_option (\<lambda>store. store w') (ss_policyStore s)) pub (hs_Policy h)
           (hs_LatestCheckpoint h) rs = Inr (True, why))" for h pub w'
  have admit: "admitPeer en s h pub (hs_Policy h) w1 = Some (Next nx, s', w') \<longleftrightarrow> nx = StateTransferring \<and> s' = s \<and> w' = w1 \<and> adm h pub w1" for h pub w1
    by (simp add: admitPeer_Next adm_def)
  let ?k = "\<lambda>env w. case env of None \<Rightarrow> stop StateFailed ''received nil verification envelope'' s w
     | Some _ \<Rightarrow> (case GetHandshake env of None \<Rightarrow> stop StateFailed ''verification envelope missing handshake payload'' s w
     | Some handshake \<Rightarrow>
       if size_Handshake (se_proto en) handshake > maxVerificationPayloadBytes
       then stop StateRejected (''verification payload too large: '' @ itoa (size_Handshake (se_proto en) handshake)
              @ '' > '' @ itoa maxVerificationPayloadBytes) s w
       else or_stop StateRejected ''invalid handshake payload: '' (ProcessHandshake (Some handshake)) s w (\<lambda>(peerPub, peerPolicy).
         admitPeer en s handshake peerPub peerPolicy w))"
  have k: "?k env w1 = Some (Next nx, s', w') \<longleftrightarrow> (\<exists>e h. env = Some e \<and> GetHandshake env = Some h \<and>
      size_Handshake (se_proto en) h \<le> maxVerificationPayloadBytes \<and> bs (hs_SessionId h) \<noteq> [] \<and> bs (hs_IdentityPubkey h) \<noteq> [] \<and>
      isKnownPolicy (hs_Policy h) \<and> admitPeer en s h (Some (bs (hs_IdentityPubkey h))) (hs_Policy h) w1 = Some (Next nx, s', w'))" for env w1
    by (cases env; cases "GetHandshake env") (auto simp: or_stop_pair_Next hand)
  show ?thesis
  proof (cases "ss_transport s")
    case None
    then show ?thesis by (simp add: handleVerifying_def)
  next
    case (Some t)
    have "handleVerifying en s w = Some (Next nx, s', w') \<longleftrightarrow> (\<exists>env w1. tp_Recv t w = Some (Inr env, w1) \<and> ?k env w1 = Some (Next nx, s', w'))"
      using Some by (simp add: handleVerifying_def recv_or_stop_eq_Next)
    with Some show ?thesis unfolding k admit adm_def [symmetric] by auto
  qed
qed

section \<open>World invariants\<close>

text \<open>
  What holds of the outside world and is kept by the transport, the file storage and, for records
  that validate, the chain appender of a session is kept by its whole run.
\<close>

definition parts_keep :: "crypto_prims \<Rightarrow> ('w \<Rightarrow> bool) \<Rightarrow> 'w TransferSession \<Rightarrow> bool" where
  "parts_keep cr I s \<longleftrightarrow>
     (\<forall>t w. ss_transport s = Some t \<longrightarrow> I w \<longrightarrow>
        (\<forall>e. I (snd (tp_Send t e w))) \<and> (\<forall>r w'. tp_Recv t w = Some (r, w') \<longrightarrow> I w') \<and>
        I (snd (snd (tp_TryRecv t w))) \<and> (\<forall>e. I (tp_PutBack t e w))) \<and>
     (\<forall>app w rec. ss_chain s = Some app \<longrightarrow> ValidateShareRecord cr rec = Inr () \<longrightarrow> I w \<longrightarrow> I (snd (app rec w))) \<and>
     (\<forall>st w fh i d. ss_storage s = Some st \<longrightarrow> I w \<longrightarrow> I (snd (fs_WriteChunk st fh i d w)))"

definition ends_in :: "('w \<Rightarrow> bool) \<Rightarrow> 'w handled \<Rightarrow> bool" where
  "ends_in I h \<longleftrightarrow> (\<forall>r s w. h = Some (r, s, w) \<longrightarrow> I w)"

lemma ends_in_simps [simp]: "ends_in I (Some (r, s, w)) \<longleftrightarrow> I w" "ends_in I None" "ends_in I (stop st m s w) \<longleftrightarrow> I w"
  by (auto simp: ends_in_def stop_def)

lemma ends_in_or_stop [intro!]: "I w \<Longrightarrow> (\<And>x. r = Inr x \<Longrightarrow> ends_in I (k x)) \<Longrightarrow> ends_in I (or_stop st m r s w k)"
  by (auto simp: or_stop_def split: sum.split failure.split)

lemma ends_in_recv:
  "parts_keep cr I s \<Longrightarrow> ss_transport s = Some t \<Longrightarrow> I w \<Longrightarrow> (\<And>env w. I w \<Longrightarrow> ends_in I (k env w)) \<Longrightarrow> ends_in I (recv_or_stop m t u w k)"
  unfolding recv_or_stop_def parts_keep_def by (auto split: option.split)

lemma ends_in_send:
  assumes "parts_keep cr I s" "I w" "\<And>w. I w \<Longrightarrow> ends_in I (k w)"
  shows "ends_in I (send_or_stop m (ss_transport s) p u w k)"
proof (cases "ss_transport s")
  case None
  with assms show ?thesis by (simp add: send_or_stop_def)
next
  case (Some t)
  obtain r w' where sent: "tp_Send t (Some (envelope p)) w = (r, w')" by (cases "tp_Send t (Some (envelope p)) w")
  with assms(1,2) Some have "I w'" unfolding parts_keep_def by (metis snd_conv)
  with assms(3) Some sent show ?thesis by (auto simp: send_or_stop_def)
qed

lemma parts_keep_world: "parts_keep cr I s \<Longrightarrow> ss_transport s = Some t \<Longrightarrow> ss_storage s = Some st \<Longrightarrow> world_keeps I t st"
  unfolding parts_keep_def world_keeps_def by blast

lemma ends_in_transferring:
  assumes K: "parts_keep cr I s" and I: "I w"
  shows "ends_in I (handleTransferring en s w)"
proof -
  have serve: "ends_in I (serveChunks st req m s w)" for st req m
    unfolding serveChunks_def Let_def using I by (auto intro!: ends_in_send [OF K])
  have request: "ends_in I (requestChunks req m s w)" for req m
  proof -
    have "ends_in I (send_or_stop msg (ss_transport s) p u w (\<lambda>w. Some (r, u', w)))" for msg p u u' r
      using I by (intro ends_in_send [OF K]) auto
    with I show ?thesis unfolding requestChunks_def Let_def by (intro ends_in_or_stop) simp_all
  qed
  have wait: "ends_in I (Option.bind (waitForChunks (ss_transport s) st req w) (\<lambda>(r, w). Some (r, s, w)))"
    if "ss_storage s = Some st" for st req
  proof (cases "ss_transport s")
    case None
    have "\<exists>x. waitStep None st req w = Some (Inr (x, w))"
      unfolding waitStep_def by (simp split: sum.split failure.split)
    then obtain x where "waitStep None st req w = Some (Inr (x, w))" by blast
    with None I show ?thesis by (simp add: waitForChunks_def for_ever_unfold(3) [of "waitStep None st req"])
  next
    case (Some t)
    with waitForChunks_keeps [OF parts_keep_world [OF K Some that] I] show ?thesis
      by (auto simp: ends_in_def bind_eq_Some_conv)
  qed
  show ?thesis unfolding handleTransferring_def using I serve request wait by (auto split: option.split)
qed

lemma ends_in_appendFinal:
  assumes "parts_keep (se_crypto en) I s" "ss_chain s = Some app" "I w"
  shows "ends_in I (appendFinal en app rec s w)"
proof -
  obtain r w' where ran: "app rec w = (r, w')" by (cases "app rec w")
  have "I w'" if "ValidateShareRecord (se_crypto en) rec = Inr ()"
    using assms that ran unfolding parts_keep_def by (metis snd_conv)
  with ran assms(3) show ?thesis by (auto simp: appendFinal_def)
qed

lemma ends_in_cosigning:
  assumes K: "parts_keep (se_crypto en) I s" and I: "I w"
  shows "ends_in I (handleCoSigning en s w)"
proof -
  have "ends_in I (coSignRecord en t sign app rec s v)" if d: "ss_transport s = Some t" "ss_chain s = Some app" and v: "I v" for t sign app rec v
  proof -
    have "ends_in I (finishCoSign en t app rec s u)" if "I u" for rec u
      unfolding finishCoSign_def using that
      by (auto intro!: ends_in_recv [OF K d(1)] ends_in_appendFinal [OF K d(2)] split: option.split)
    with v have "ends_in I (send_or_stop m (ss_transport s) p s v (\<lambda>w. finishCoSign en t app rec s w))" for m p rec
      by (intro ends_in_send [OF K]) auto
    with v show ?thesis unfolding coSignRecord_def Let_def d by (auto split: sum.split failure.split)
  qed
  with I show ?thesis unfolding handleCoSigning_def
    by (auto intro!: ends_in_recv [OF K] split: option.split)
qed

lemma ends_in_verifying:
  assumes K: "parts_keep (se_crypto en) I s" and I: "I w"
  shows "ends_in I (handleVerifying en s w)"
proof -
  have "ends_in I (admitPeer en s h pub pol v)" if "I v" for h pub pol v
    unfolding admitPeer_def using that by (auto split: option.split sum.split failure.split)
  with I show ?thesis unfolding handleVerifying_def
    by (auto intro!: ends_in_recv [OF K] split: option.split)
qed

lemma parts_keep_update [simp]:
  "parts_keep cr I (s\<lparr>ss_State := q\<rparr>) = parts_keep cr I s" "parts_keep cr I (setErr e s) = parts_keep cr I s"
  "parts_keep cr I (SetPendingRequest req s) = parts_keep cr I s"
  by (simp_all add: parts_keep_def setErr_def SetPendingRequest_def)

lemma parts_keep_frames: "parts_keep cr I s \<Longrightarrow> frames s s' \<Longrightarrow> parts_keep cr I s'"
  by (auto simp: parts_keep_def frames_def)

lemma handler_keeps:
  assumes "handlerFor (ss_State s) = Some h" "parts_keep (se_crypto en) I s" "I w"
  shows "ends_in I (h en s w)"
  using assms ends_in_verifying [OF assms(2,3)] ends_in_transferring [OF assms(2,3)] ends_in_cosigning [OF assms(2,3)]
  by (auto simp: handlerFor_def handleHandshake_def handleGossiping_def split: if_splits)

lemma RunSession_keeps:
  assumes K: "parts_keep (se_crypto en) I s" and I: "I w" and run: "RunSession en s w = Some (r, s', w')"
  shows "I w' \<and> parts_keep (se_crypto en) I s'"
proof (cases "ss_State s = StateIdle")
  case False
  with run I K show ?thesis by (auto simp: RunSession_not_idle Let_def parts_keep_def)
next
  case True
  let ?Q = "\<lambda>(r :: unit res, u :: 'a TransferSession, w). I w \<and> parts_keep (se_crypto en) I u"
  have "?Q (r, s', w')"
    using run True
  proof (rule RunSession_inv [where I = "\<lambda>u v. parts_keep (se_crypto en) I u \<and> I v" and Q = ?Q])
    show "parts_keep (se_crypto en) I (s\<lparr>ss_err := None, ss_State := if ss_pendingRequest s \<noteq> None then StateTransferring else StateHandshake\<rparr>) \<and> I w"
      using K I by (simp add: parts_keep_def)
  next
    fix u :: "'a TransferSession" and v h nx s1 w1
    assume "parts_keep (se_crypto en) I u \<and> I v" "handlerFor (ss_State u) = Some h" "h en u v = Some (Next nx, s1, w1)" "frames u s1"
    with handler_keeps [of u h en I v] show "parts_keep (se_crypto en) I (s1\<lparr>ss_State := nx\<rparr>) \<and> I w1"
      by (auto simp: ends_in_def intro: parts_keep_frames)
  next
    fix u :: "'a TransferSession" and v out
    assume "parts_keep (se_crypto en) I u \<and> I v" "running u" and ex: "sessionStep en (u, v) = Some (Inr out)"
    with sessionStep_Inr [OF ex] handler_keeps [of u _ en I v] show "?Q out"
      by (auto simp: running_def ends_in_def dest: parts_keep_frames)
  qed
  thus ?thesis by simp
qed

section \<open>Sessions return\<close>

text \<open>
  A session whose transport hands out a finite supply and whose \<open>Recv\<close> does not block returns.
\<close>

definition returns :: "'a option \<Rightarrow> bool" where
  "returns h \<longleftrightarrow> h \<noteq> None"

lemma returns_simps [simp]: "returns (Some x)" "\<not> returns None" "returns (stop st m s w)"
  by (simp_all add: returns_def stop_def)

lemma returns_or_stop [intro!]: "(\<And>x. returns (k x)) \<Longrightarrow> returns (or_stop st m r s w k)"
  by (auto simp: or_stop_def split: sum.split failure.split)

lemma returns_send [intro!]: "(\<And>w. returns (k w)) \<Longrightarrow> returns (send_or_stop m tr p s w k)"
  by (auto simp: send_or_stop_def split: option.split prod.split)

lemma returns_admitPeer [simp]: "returns (admitPeer en s h pub pol w)"
  by (auto simp: admitPeer_def split: option.split sum.split failure.split)

lemma returns_serveChunks [simp]: "returns (serveChunks st req missing s w)"
  unfolding serveChunks_def Let_def by auto

lemma returns_requestChunks [simp]: "returns (requestChunks req missing s w)"
  unfolding requestChunks_def Let_def by auto

lemma returns_appendFinal [simp]: "returns (appendFinal en app record s w)"
  unfolding appendFinal_def by (auto split: prod.split)

text \<open>
  The interface to the transport: every envelope that is taken makes the supply smaller, and storing
  a chunk does not add to it.  \<open>awake I\<close> says that \<open>Recv\<close> does not block in the worlds of \<open>I\<close>.
\<close>

definition awake :: "'w Transport \<Rightarrow> ('w \<Rightarrow> bool) \<Rightarrow> bool" where
  "awake t I \<longleftrightarrow> (\<forall>w. I w \<longrightarrow> tp_Recv t w \<noteq> None)"

locale finite_supply =
  fixes t :: "'w Transport"
    and st :: "'w FileStorage"
    and pending :: "'w \<Rightarrow> nat"
  assumes recv_takes: "tp_Recv t w = Some (Inr env, w') \<Longrightarrow> pending w' < pending w"
    and try_takes: "tp_TryRecv t w = (env, True, w') \<Longrightarrow> pending w' < pending w"
    and write_keeps: "fs_WriteChunk st fh i d w = (r, w') \<Longrightarrow> pending w' \<le> pending w"
begin

lemma storeChunks_pending: "storeChunks st fh chs w = (r, w') \<Longrightarrow> pending w' \<le> pending w"
proof (induction chs arbitrary: w)
  case (Cons ch rest)
  then show ?case
    by (cases "fs_WriteChunk st fh (getp 0 cd_ChunkIndex ch) (getp None cd_Data ch) w")
      (auto split: sum.splits dest: write_keeps order_trans)
qed simp

lemma drain_returns: "\<exists>out. drainBatches t st w = Some out"
  unfolding drainBatches_def
proof (rule for_ever_returns [where I = "\<lambda>_. True" and f = pending])
  fix w w'
  show "drainStep t st w \<noteq> None"
    by (auto simp: drainStep_def Let_def split: prod.split option.split sum.split)
  obtain env ok w1 where r: "tp_TryRecv t w = (env, ok, w1)" by (cases "tp_TryRecv t w") auto
  assume "drainStep t st w = Some (Inl w')"
  with r try_takes [of w env w1] show "True \<and> pending w' < pending w"
    by (auto simp: drainStep_def split: if_splits option.splits prod.splits sum.splits dest!: storeChunks_pending)
qed simp

lemma wait_returns:
  assumes K: "world_keeps I t st" and live: "awake t I" and I: "I w"
  shows "\<exists>out. waitForChunks (Some t) st req w = Some out"
  unfolding waitForChunks_def
proof (rule for_ever_returns [where I = I and f = pending])
  fix w w' assume I: "I w"
  obtain out where d: "drainBatches t st w = Some out" using drain_returns by blast
  obtain r w1 where r: "tp_Recv t w = Some (r, w1)" using live I by (auto simp: awake_def)
  show "waitStep (Some t) st req w \<noteq> None"
    using d r by (auto simp: waitStep_def split: sum.split failure.split prod.split option.split)
  assume step: "waitStep (Some t) st req w = Some (Inl w')"
  with d r recv_takes [of w _ w1] have "pending w' < pending w"
    by (auto simp: waitStep_def split: sum.splits failure.splits prod.splits option.splits if_splits dest!: storeChunks_pending)
  with waitStep_Inl [OF K I step] show "I w' \<and> pending w' < pending w" by blast
qed (rule I)

end

lemma returns_recv:
  assumes "parts_keep cr I s" "ss_transport s = Some t" "awake t I" "I w" "\<And>env w. I w \<Longrightarrow> returns (k env w)"
  shows "returns (recv_or_stop m t u w k)"
proof -
  obtain r w1 where r: "tp_Recv t w = Some (r, w1)" using assms(3,4) by (auto simp: awake_def)
  with assms(1,2,4) have "I w1" by (auto simp: parts_keep_def)
  with assms(5) r show ?thesis by (auto simp: recv_or_stop_def)
qed

lemma returns_send_kept:
  assumes "parts_keep cr I s" "I w" "\<And>w. I w \<Longrightarrow> returns (k w)"
  shows "returns (send_or_stop m (ss_transport s) p u w k)"
proof (cases "ss_transport s")
  case (Some t)
  obtain r w' where sent: "tp_Send t (Some (envelope p)) w = (r, w')" by (cases "tp_Send t (Some (envelope p)) w")
  with assms(1,2) Some have "I w'" unfolding parts_keep_def by (metis snd_conv)
  with assms(3) Some sent show ?thesis by (auto simp: send_or_stop_def)
qed (use assms(2,3) in \<open>simp add: send_or_stop_def\<close>)

context finite_supply
begin

text \<open>What a handler needs: a session on this transport and storage, in a world of the invariant.\<close>

definition ready :: "('w \<Rightarrow> bool) \<Rightarrow> 'w TransferSession \<Rightarrow> 'w \<Rightarrow> bool" where
  "ready I s w \<longleftrightarrow> ss_transport s = Some t \<and> (ss_storage s = None \<or> ss_storage s = Some st) \<and> awake t I \<and> I w"

lemma returns_handleVerifying: "ready I s w \<Longrightarrow> parts_keep cr I s \<Longrightarrow> returns (handleVerifying en s w)"
  unfolding handleVerifying_def ready_def by (auto intro!: returns_recv split: option.split)

lemma returns_handleTransferring:
  assumes "ready I s w" and K: "parts_keep cr I s"
  shows "returns (handleTransferring en s w)"
proof -
  from assms(1) have d: "ss_transport s = Some t" "ss_storage s = None \<or> ss_storage s = Some st" "awake t I" "I w"
    by (auto simp: ready_def)
  have "returns (Option.bind (waitForChunks (ss_transport s) st req w) (\<lambda>(r, w). Some (r, s, w)))" if "ss_storage s = Some st" for req
    using wait_returns [OF parts_keep_world [OF K d(1) that] d(3,4), of req] d(1) by auto
  with d(2) show ?thesis unfolding handleTransferring_def by (auto split: option.split)
qed

lemma returns_handleCoSigning:
  assumes "ready I s w" and K: "parts_keep cr I s"
  shows "returns (handleCoSigning en s w)"
proof -
  from assms(1) have d: "ss_transport s = Some t" "awake t I" "I w" by (auto simp: ready_def)
  have "returns (coSignRecord en t sign app rec s v)" if v: "I v" for sign app rec v
  proof -
    have "returns (finishCoSign en t app rec s u)" if "I u" for rec u
      unfolding finishCoSign_def using that by (auto intro!: returns_recv [OF K d(1,2)] split: option.split)
    with v have "returns (send_or_stop m (ss_transport s) p s v (\<lambda>w. finishCoSign en t app rec s w))" for m p rec
      by (intro returns_send_kept [OF K]) auto
    with v show ?thesis unfolding coSignRecord_def Let_def d(1)
      by (auto split: sum.split failure.split simp del: ex_simps del: returns_send)
  qed
  with d show ?thesis unfolding handleCoSigning_def by (auto intro!: returns_recv [OF K d(1,2)] split: option.split)
qed

end

lemma handleTransferring_again:
  assumes "handleTransferring en s w = Some (Next StateTransferring, s', w')"
  shows "\<not> ss_outboundChunkRequestSent s \<and> ss_outboundChunkRequestSent s'"
proof -
  from assms obtain req st where d: "ss_pendingRequest s = Some req" "ss_storage s = Some st"
    by (auto simp: handleTransferring_def state_defs split: option.splits)
  have serve: "serveChunks st req m s w \<noteq> Some (Next StateTransferring, s', w')" for m
    using framed_serveChunks [of s st req m w] by (auto simp: framed_def state_defs)
  have wait: "waitForChunks tr st req w \<noteq> Some (Next StateTransferring, x)" for tr x
    using waitForChunks_Next [of tr st req w StateTransferring x] by (auto simp: state_defs)
  from assms d serve wait have "\<not> ss_outboundChunkRequestSent s \<and> (\<exists>m. requestChunks req m s w = Some (Next StateTransferring, s', w'))"
    by (auto simp: handleTransferring_def or_stop_eq_Next bind_eq_Some_conv state_defs split: if_splits)
  thus ?thesis by (auto simp: requestChunks_def Let_def handled_Next split: option.splits)
qed

lemma successors_phase:
  "ss_State s \<in> set activeStates \<Longrightarrow> nx \<in> successors s \<Longrightarrow> ss_State s \<noteq> StateTransferring \<or> nx \<noteq> StateTransferring \<Longrightarrow>
   statePhase (ss_State s) < statePhase nx"
  using successors_valid [of s nx] sm.phase_step [of "ss_State s" nx] by auto

text \<open>The number of rounds left is bounded by the phase, plus one while the request has not been sent.\<close>

definition roundsLeft :: "'w TransferSession \<Rightarrow> nat" where
  "roundsLeft s = 2 * (6 - statePhase (ss_State s)) + (if ss_outboundChunkRequestSent s then 0 else 1)"

lemma statePhase_le: "statePhase q \<le> 6"
  by (simp add: statePhase_def)

lemma roundsLeft_decreases:
  assumes h: "handlerFor (ss_State s) = Some h" "h en s w = Some (Next nx, s1, w1)" "nx \<in> successors s"
  shows "roundsLeft (s1\<lparr>ss_State := nx\<rparr>) < roundsLeft s"
proof (cases "ss_State s = StateTransferring \<and> nx = StateTransferring")
  case True
  with h(1,2) have "handleTransferring en s w = Some (Next StateTransferring, s1, w1)" by (simp add: handlerFor_def state_defs)
  from handleTransferring_again [OF this] True show ?thesis by (simp add: roundsLeft_def)
next
  case False
  with successors_phase [OF handlerFor_Some [OF h(1)] h(3)] have "statePhase (ss_State s) < statePhase nx" by blast
  with statePhase_le [of nx] have "6 - statePhase nx < 6 - statePhase (ss_State s)" by simp
  thus ?thesis unfolding roundsLeft_def by (simp; linarith)
qed

context finite_supply
begin

lemma session_step_returns:
  assumes "ready I s w" and "parts_keep cr I s"
  shows "sessionStep en (s, w) \<noteq> None"
proof -
  have "handler en s w \<noteq> None" if "handlerFor (ss_State s) = Some handler" for handler
    using that returns_handleVerifying [OF assms, of en] returns_handleTransferring [OF assms, of en]
      returns_handleCoSigning [OF assms, of en]
    by (auto simp: handlerFor_def handleHandshake_def handleGossiping_def returns_def split: if_splits)
  thus ?thesis by (fastforce simp: sessionStep_def split: option.split)
qed

lemma run_returns:
  assumes ready: "ready I s w" and K: "parts_keep (se_crypto en) I s"
  shows "\<exists>out. RunSession en s w = Some out"
proof (cases "ss_State s = StateIdle")
  case False
  thus ?thesis by (simp add: RunSession_not_idle Let_def)
next
  case True
  let ?I = "\<lambda>x. ready I (fst x) (snd x) \<and> parts_keep (se_crypto en) I (fst x)"
  let ?s = "s\<lparr>ss_err := None, ss_State := if ss_pendingRequest s \<noteq> None then StateTransferring else StateHandshake\<rparr>"
  have "\<exists>out. for_ever (sessionStep en) (?s, w) = Some out"
  proof (rule for_ever_returns [where I = ?I and f = "\<lambda>x. roundsLeft (fst x)"])
    have "parts_keep (se_crypto en) I ?s" using K unfolding parts_keep_def by simp
    with ready show "?I (?s, w)" by (simp add: ready_def)
  next
    fix x assume "?I x"
    thus "sessionStep en x \<noteq> None" using session_step_returns [of I "fst x" "snd x" "se_crypto en" en] by simp
  next
    fix x y assume I: "?I x" and st: "sessionStep en x = Some (Inl y)"
    obtain u v where x: "x = (u, v)" by (cases x)
    from st [unfolded x] show "?I y \<and> roundsLeft (fst y) < roundsLeft (fst x)"
    proof (rule sessionStep_Inl)
      fix h nx s1 w1
      assume h: "handlerFor (ss_State u) = Some h" "h en u v = Some (Next nx, s1, w1)" "nx \<in> successors u"
        and fr: "frames u s1" and y: "y = (s1\<lparr>ss_State := nx\<rparr>, w1)"
      have "I w1" using handler_keeps [OF h(1), of en I v] h(2) I by (auto simp: x ready_def ends_in_def)
      with roundsLeft_decreases [OF h] I frames_fields [OF fr] parts_keep_frames [OF _ fr] show ?thesis
        by (simp add: x y ready_def)
    qed
  qed
  thus ?thesis using True by (simp add: RunSession_idle)
qed

end

section \<open>Sessions that do not return\<close>

text \<open>
  To say where a session that does not return is blocked, it is compared with the same session on a
  transport that gives up: where \<open>Recv\<close> would block for ever it returns the error \<open>e\<close> at once.
\<close>

definition giveUp :: "go_error \<Rightarrow> 'w Transport \<Rightarrow> 'w Transport" where
  "giveUp e t = t\<lparr>tp_Recv := (\<lambda>w. case tp_Recv t w of None \<Rightarrow> Some (Inl (Err e), w) | Some x \<Rightarrow> Some x)\<rparr>"

definition impatient :: "go_error \<Rightarrow> 'w TransferSession \<Rightarrow> 'w TransferSession" where
  "impatient e s = s\<lparr>ss_transport := map_option (giveUp e) (ss_transport s)\<rparr>"

lemma giveUp_sel [simp]:
  "tp_Send (giveUp e t) = tp_Send t" "tp_TryRecv (giveUp e t) = tp_TryRecv t" "tp_PutBack (giveUp e t) = tp_PutBack t"
  "tp_Recv (giveUp e t) w = (case tp_Recv t w of None \<Rightarrow> Some (Inl (Err e), w) | Some x \<Rightarrow> Some x)"
  by (simp_all add: giveUp_def)

lemma impatient_sel [simp]:
  "ss_transport (impatient e s) = map_option (giveUp e) (ss_transport s)" "ss_State (impatient e s) = ss_State s"
  "ss_err (impatient e s) = ss_err s" "ss_pendingRequest (impatient e s) = ss_pendingRequest s" "ss_storage (impatient e s) = ss_storage s"
  "ss_Direction (impatient e s) = ss_Direction s" "ss_outboundChunkRequestSent (impatient e s) = ss_outboundChunkRequestSent s"
  "ss_signer (impatient e s) = ss_signer s" "ss_chain (impatient e s) = ss_chain s" "ss_balance (impatient e s) = ss_balance s"
  "ss_policyStore (impatient e s) = ss_policyStore s" "ss_FileHash (impatient e s) = ss_FileHash s"
  by (simp_all add: impatient_def)

lemma impatient_update:
  "impatient e (s\<lparr>ss_State := q\<rparr>) = (impatient e s)\<lparr>ss_State := q\<rparr>" "impatient e (s\<lparr>ss_err := x\<rparr>) = (impatient e s)\<lparr>ss_err := x\<rparr>"
  "impatient e (s\<lparr>ss_pendingRequest := p\<rparr>) = (impatient e s)\<lparr>ss_pendingRequest := p\<rparr>"
  "impatient e (s\<lparr>ss_outboundChunkRequestSent := b\<rparr>) = (impatient e s)\<lparr>ss_outboundChunkRequestSent := b\<rparr>"
  by (simp_all add: impatient_def)

text \<open>How the results of a handler compare: the same, or an end by \<open>e\<close> in a world in which \<open>Recv\<close> blocks.\<close>

definition matches :: "go_error \<Rightarrow> 'w Transport \<Rightarrow> 'w handled \<Rightarrow> 'w handled \<Rightarrow> bool" where
  "matches e t h h' \<longleftrightarrow>
     (case h of Some (r, s, w) \<Rightarrow> h' = Some (r, impatient e s, w)
      | None \<Rightarrow> \<exists>st m s w. h' = Some (Stop st (Wrapf m e), s, w) \<and> tp_Recv t w = None)"

lemma matches_same [simp]:
  "matches e t (Some (r, s, w)) (Some (r, impatient e s, w))" "matches e t (stop st m s w) (stop st m (impatient e s) w)"
  by (simp_all add: matches_def stop_def)

lemma matches_or_stop [intro!]:
  "(\<And>x. r = Inr x \<Longrightarrow> matches e t (k x) (k' x)) \<Longrightarrow> matches e t (or_stop st m r s w k) (or_stop st m r (impatient e s) w k')"
  by (auto simp: or_stop_def split: sum.split failure.split)

lemma matches_recv [intro!]:
  assumes "\<And>env w. matches e t (k env w) (k' env w)"
  shows "matches e t (recv_or_stop m t s w k) (recv_or_stop m (giveUp e t) (impatient e s) w k')"
proof (cases "tp_Recv t w")
  case None
  thus ?thesis by (auto simp: recv_or_stop_def or_stop_def matches_def)
next
  case (Some x)
  with assms show ?thesis by (cases x) (auto simp: recv_or_stop_def)
qed

lemma matches_send [intro!]:
  "(\<And>w. matches e t (k w) (k' w)) \<Longrightarrow>
   matches e t (send_or_stop m tr p s w k) (send_or_stop m (map_option (giveUp e) tr) p (impatient e s) w k')"
  by (auto simp: send_or_stop_def split: option.split prod.split)

lemma matches_verifying:
  assumes "ss_transport s = Some t"
  shows "matches e t (handleVerifying en s w) (handleVerifying en (impatient e s) w)"
proof -
  have "recordsForPolicy en (impatient e s) = recordsForPolicy en s" by (simp add: fun_eq_iff recordsForPolicy_def)
  hence "matches e t (admitPeer en s h pub pol v) (admitPeer en (impatient e s) h pub pol v)" for h pub pol v
    by (auto simp: admitPeer_def split: option.split sum.split failure.split)
  thus ?thesis using assms by (auto simp: handleVerifying_def split: option.split)
qed

lemma matches_cosigning:
  assumes "ss_transport s = Some t"
  shows "matches e t (handleCoSigning en s w) (handleCoSigning en (impatient e s) w)"
proof -
  have append: "matches e t (appendFinal en app rec s v) (appendFinal en app rec (impatient e s) v)" for app rec v
    by (auto simp: appendFinal_def split: prod.split)
  have finish: "matches e t (finishCoSign en t app rec s v) (finishCoSign en (giveUp e t) app rec (impatient e s) v)" for app rec v
    by (auto simp: finishCoSign_def append split: option.split)
  have send: "matches e t (send_or_stop m (Some t) p s v k) (send_or_stop m (Some (giveUp e t)) p (impatient e s) v k')"
    if "\<And>v. matches e t (k v) (k' v)" for m p v k k'
    using matches_send [of e t k k' m "Some t" p s v] that by simp
  have "coSignRequestHash en (impatient e s) = coSignRequestHash en s" by (simp add: fun_eq_iff coSignRequestHash_def)
  hence "matches e t (coSignRecord en t sign app rec s v) (coSignRecord en (giveUp e t) sign app rec (impatient e s) v)" for sign app rec v
    unfolding coSignRecord_def Let_def
    by (auto simp: finish intro!: send simp del: giveUp_sel split: sum.split failure.split)
  thus ?thesis using assms by (auto simp: handleCoSigning_def split: option.split)
qed

lemma matches_serve: "matches e t (serveChunks st req missing s w) (serveChunks st req missing (impatient e s) w)"
  unfolding serveChunks_def Let_def by auto

lemma matches_request: "matches e t (requestChunks req missing s w) (requestChunks req missing (impatient e s) w)"
  unfolding requestChunks_def Let_def
  by (auto simp: impatient_update [symmetric] intro!: matches_or_stop matches_send)


lemma giveUp_supply:
  assumes "finite_supply t st pending"
  shows "finite_supply (giveUp e t) st pending"
proof -
  note a = assms [unfolded finite_supply_def]
  show ?thesis unfolding finite_supply_def using a by (auto split: option.split)
qed

context finite_supply
begin

lemma wait_blocks:
  "case waitForChunks (Some t) st req w of
     Some out \<Rightarrow> waitForChunks (Some (giveUp e t)) st req w = Some out
   | None \<Rightarrow> \<exists>m w'. waitForChunks (Some (giveUp e t)) st req w = Some (Stop StateFailed (Wrapf m e), w') \<and> tp_Recv t w' = None"
proof -
  let ?b = "waitStep (Some t) st req" and ?b' = "waitStep (Some (giveUp e t)) st req"
  have drain: "drainBatches (giveUp e t) st v = drainBatches t st v" for v
  proof -
    have "drainStep (giveUp e t) st = drainStep t st" unfolding fun_eq_iff drainStep_def giveUp_sel by (rule allI) (rule refl)
    thus ?thesis by (simp add: drainBatches_def)
  qed
  have same: "?b' v = ?b v" if "?b v \<noteq> None" for v
    using that drain [of v] by (auto simp: waitStep_def split: sum.split failure.split option.split)
  have block: "\<exists>q. ?b' v = Some (Inr q) \<and> (\<exists>m w'. q = (Stop StateFailed (Wrapf m e), w') \<and> tp_Recv t w' = None)" if "?b v = None" for v
    using that drain_returns [of v] by (auto simp: waitStep_def split: sum.splits failure.splits if_splits option.splits prod.splits)
  have "world_keeps (\<lambda>_. True) (giveUp e t) st" "awake (giveUp e t) (\<lambda>_. True)"
    by (auto simp: world_keeps_def awake_def split: option.split)
  from finite_supply.wait_returns [OF giveUp_supply [OF finite_supply_axioms] this, where w = w and req = req]
  obtain out where out: "for_ever ?b' w = Some out" by (auto simp: waitForChunks_def)
  have "(\<exists>r. for_ever ?b w = Some r \<and> out = r) \<or> for_ever ?b w = None \<and> (\<exists>m w'. out = (Stop StateFailed (Wrapf m e), w') \<and> tp_Recv t w' = None)"
    by (rule for_ever_compare [of ?b' "\<lambda>w. w" w out "\<lambda>_. True" ?b "\<lambda>r. r", OF out]) (use same block in auto)
  with out show ?thesis by (auto simp: waitForChunks_def)
qed

lemma matches_transferring:
  assumes "ss_transport s = Some t" and "ss_storage s = None \<or> ss_storage s = Some st"
  shows "matches e t (handleTransferring en s w) (handleTransferring en (impatient e s) w)"
proof -
  have "matches e t (Option.bind (waitForChunks (Some t) st req w) (\<lambda>(r, w). Some (r, s, w)))
      (Option.bind (waitForChunks (Some (giveUp e t)) st req w) (\<lambda>(r, w). Some (r, impatient e s, w)))" for req
    using wait_blocks [where e = e and req = req and w = w] by (auto simp: matches_def split: option.splits)
  thus ?thesis
    using assms matches_serve matches_request by (auto simp: handleTransferring_def split: option.split)
qed

text \<open>The session loop: what a round does, and what the whole run does.\<close>

lemma step_blocks:
  fixes s :: "'w TransferSession"
  assumes "ss_transport s = Some t" and "ss_storage s = None \<or> ss_storage s = Some st"
  shows "case sessionStep en (s, w) of
      Some (Inl (s', w')) \<Rightarrow> sessionStep en (impatient e s, w) = Some (Inl (impatient e s', w'))
    | Some (Inr (r, s', w')) \<Rightarrow> sessionStep en (impatient e s, w) = Some (Inr (r, impatient e s', w'))
    | None \<Rightarrow> \<exists>m s' w'. sessionStep en (impatient e s, w) = Some (Inr (Inl (Err (Wrapf m e)), s', w')) \<and> tp_Recv t w' = None"
proof -
  have m: "matches e t (h en s w) (h en (impatient e s) w)" if "handlerFor (ss_State s) = Some h" for h
    using that matches_verifying [OF assms(1), of e en w] matches_cosigning [OF assms(1), of e en w] matches_transferring [OF assms, of e en w]
    by (auto simp: handlerFor_def handleHandshake_def handleGossiping_def split: if_splits)
  have err: "setErr x (impatient e u) = impatient e (setErr x u)" for x and u :: "'w TransferSession"
    by (simp add: setErr_def impatient_update)
  have tr: "TransitionTo q (impatient e u) = (fst (TransitionTo q u), impatient e (snd (TransitionTo q u)))" for q and u :: "'w TransferSession"
    by (simp add: TransitionTo_def impatient_update)
  show ?thesis
  proof (cases "se_ctx_Err en w")
    case (Some x)
    thus ?thesis by (simp add: sessionStep_def err)
  next
    case ctx: None
    show ?thesis
    proof (cases "handlerFor (ss_State s) :: ('w session_env \<Rightarrow> 'w TransferSession \<Rightarrow> 'w \<Rightarrow> 'w handled) option")
      case None
      with ctx show ?thesis by (simp add: sessionStep_def failWith_def err tr getErr_def)
    next
      case (Some h)
      with ctx m [OF Some] show ?thesis
        by (cases "h en s w")
          (auto simp: sessionStep_def failWith_def err tr matches_def transitionOrReturn_def split: handler_result.split prod.splits sum.splits failure.splits)
    qed
  qed
qed

lemma run_blocks_in_recv:
  assumes d: "ss_transport s = Some t" "ss_storage s = None \<or> ss_storage s = Some st"
  shows "case RunSession en s w of
      Some (r, s', w') \<Rightarrow> RunSession en (impatient e s) w = Some (r, impatient e s', w')
    | None \<Rightarrow> \<exists>m s' w'. RunSession en (impatient e s) w = Some (Inl (Err (Wrapf m e)), s', w') \<and> tp_Recv t w' = None"
proof (cases "ss_State s = StateIdle")
  case False
  thus ?thesis by (simp add: RunSession_not_idle Let_def impatient_update)
next
  case True
  let ?b = "sessionStep en" and ?f = "\<lambda>(s, w). (impatient e s, w)" and ?g = "\<lambda>(r, s, w). (r, impatient e s, w)"
  let ?s = "s\<lparr>ss_err := None, ss_State := if ss_pendingRequest s \<noteq> None then StateTransferring else StateHandshake\<rparr>"
  let ?I = "\<lambda>(s, w :: 'a). ss_transport s = Some t \<and> (ss_storage s = None \<or> ss_storage s = Some st)"
  let ?P = "\<lambda>(r, s' :: 'a TransferSession, w'). (\<exists>m. r = Inl (Err (Wrapf m e))) \<and> tp_Recv t w' = None"
  have run: "RunSession en s w = for_ever ?b (?s, w)" "RunSession en (impatient e s) w = for_ever ?b (?f (?s, w))"
    using True by (simp_all add: RunSession_idle impatient_update)
  have "finite_supply.ready (giveUp e t) st (\<lambda>_. True) (impatient e s) w"
    using d by (auto simp: finite_supply.ready_def [OF giveUp_supply [OF finite_supply_axioms]] awake_def split: option.split)
  from finite_supply.run_returns [OF giveUp_supply [OF finite_supply_axioms] this, of en]
  obtain out where "RunSession en (impatient e s) w = Some out" by (auto simp: parts_keep_def)
  hence out: "for_ever ?b (?f (?s, w)) = Some out" by (simp only: run(2))
  have keeps: "?I y" if "?I x" "?b x = Some (Inl y)" for x y
    using that by (cases x) (auto elim!: sessionStep_Inl dest: frames_fields)
  have "(\<exists>r. for_ever ?b (?s, w) = Some r \<and> out = ?g r) \<or> for_ever ?b (?s, w) = None \<and> ?P out"
  proof (rule for_ever_compare [of ?b ?f "(?s, w)" out ?I ?b ?g ?P, OF out])
    fix x y assume I: "?I x" and "?b x = Some (Inl y)"
    with step_blocks [of "fst x", where en = en and w = "snd x" and e = e] keeps [OF I] show "?b (?f x) = Some (Inl (?f y)) \<and> ?I y" by (auto split: prod.splits)
  next
    fix x r assume "?I x" "?b x = Some (Inr r)"
    with step_blocks [of "fst x", where en = en and w = "snd x" and e = e] show "?b (?f x) = Some (Inr (?g r))" by (auto split: prod.splits)
  next
    fix x assume "?I x" "?b x = None"
    with step_blocks [of "fst x", where en = en and w = "snd x" and e = e] show "\<exists>q. ?b (?f x) = Some (Inr q) \<and> ?P q" by (fastforce split: prod.splits)
  next
    show "?I (?s, w)" using d by simp
  qed
  with out run show ?thesis by (auto split: option.splits prod.splits)
qed

end

end
