(* ===== verification/Cabi_Base.thy ===== *)
theory Cabi_Base
  imports Go_State
begin

text \<open>
  The foundations of the C interface (\<open>cabi/\<close>): the error codes of \<open>error.go\<close>, the table of
  handles of \<open>handles.go\<close>, and the wrappers around the native functions of \<open>callbacks.go\<close>.  The
  native functions themselves are a parameter; they work on a state of their own.
\<close>

type_synonym uintptr = "64 word"

section \<open>Error codes\<close>

definition ML_OK :: int32 where "ML_OK = 0"
definition ML_ERR_INVALID_ARG :: int32 where "ML_ERR_INVALID_ARG = 1"
definition ML_ERR_NOT_FOUND :: int32 where "ML_ERR_NOT_FOUND = 2"
definition ML_ERR_DB :: int32 where "ML_ERR_DB = 3"
definition ML_ERR_CRYPTO :: int32 where "ML_ERR_CRYPTO = 4"
definition ML_ERR_EXISTS :: int32 where "ML_ERR_EXISTS = 5"
definition ML_ERR_OVERFLOW :: int32 where "ML_ERR_OVERFLOW = 6"
definition ML_ERR_INTERNAL :: int32 where "ML_ERR_INTERNAL = 7"

lemmas ML_defs = ML_OK_def ML_ERR_INVALID_ARG_def ML_ERR_NOT_FOUND_def ML_ERR_DB_def ML_ERR_CRYPTO_def
  ML_ERR_EXISTS_def ML_ERR_OVERFLOW_def ML_ERR_INTERNAL_def

definition errorToCode :: "go_error option \<Rightarrow> int32" where
  "errorToCode err =
     (case err of
        None \<Rightarrow> ML_OK
      | Some e \<Rightarrow>
          if errors_Is e ErrNoRows then ML_ERR_NOT_FOUND
          else let msg = Error e in
            if strings_Contains msg ''is required'' \<or> strings_Contains msg ''invalid'' then ML_ERR_INVALID_ARG
            else if strings_Contains msg ''not found'' then ML_ERR_NOT_FOUND
            else if strings_Contains msg ''database'' \<or> strings_Contains msg ''sqlite'' then ML_ERR_DB
            else if strings_Contains msg ''key size'' \<or> strings_Contains msg ''signature'' \<or> strings_Contains msg ''attestation''
            then ML_ERR_CRYPTO
            else if strings_Contains msg ''already exists'' \<or> strings_Contains msg ''UNIQUE constraint'' then ML_ERR_EXISTS
            else if strings_Contains msg ''exceeds max size'' \<or> strings_Contains msg ''overflow'' then ML_ERR_OVERFLOW
            else ML_ERR_INTERNAL)"

definition errMessages :: "int32 \<rightharpoonup> string" where
  "errMessages = [ML_OK \<mapsto> '''', ML_ERR_INVALID_ARG \<mapsto> ''invalid argument'', ML_ERR_NOT_FOUND \<mapsto> ''not found'',
     ML_ERR_DB \<mapsto> ''database error'', ML_ERR_CRYPTO \<mapsto> ''crypto error'', ML_ERR_EXISTS \<mapsto> ''already exists'',
     ML_ERR_OVERFLOW \<mapsto> ''overflow'', ML_ERR_INTERNAL \<mapsto> ''internal error'']"

definition codeToError :: "int32 \<Rightarrow> go_error option" where
  "codeToError code =
     (if code = ML_OK then None
      else case errMessages code of
             None \<Rightarrow> Some (Errorf ''unknown error code'')
           | Some msg \<Rightarrow> Some (Errorf msg))"

section \<open>Handles\<close>

record 'o handleRegistry =
  hr_handles :: "uintptr \<rightharpoonup> 'o"
  hr_next :: uintptr

definition registry :: "'o handleRegistry" where
  "registry = \<lparr>hr_handles = Map.empty, hr_next = 1\<rparr>"

definition RegisterHandle :: "'o \<Rightarrow> 'o handleRegistry \<Rightarrow> uintptr \<times> 'o handleRegistry" where
  "RegisterHandle obj r =
     (let handle = hr_next r in
      (handle, r\<lparr>hr_handles := (hr_handles r)(handle \<mapsto> obj), hr_next := hr_next r + 1\<rparr>))"

definition GetHandle :: "uintptr \<Rightarrow> 'o handleRegistry \<Rightarrow> 'o option" where
  "GetHandle handle r = hr_handles r handle"

definition ReleaseHandle :: "uintptr \<Rightarrow> 'o handleRegistry \<Rightarrow> 'o handleRegistry" where
  "ReleaseHandle handle r = r\<lparr>hr_handles := (hr_handles r)(handle := None)\<rparr>"

section \<open>Native callbacks\<close>

text \<open>
  The function pointers of \<open>MLCallbacks\<close>, nil as \<open>None\<close>.  A function that fills a buffer is given
  by the bytes that it writes to its start and its return code.
\<close>

record 'x NativeCallbacks =
  nc_send :: "(uintptr \<Rightarrow> byte list \<Rightarrow> 'x \<Rightarrow> int32 \<times> 'x) option"
  nc_start_advertising :: "(byte list \<Rightarrow> 'x \<Rightarrow> int32 \<times> 'x) option"
  nc_stop_advertising :: "('x \<Rightarrow> int32 \<times> 'x) option"
  nc_start_scanning :: "('x \<Rightarrow> int32 \<times> 'x) option"
  nc_stop_scanning :: "('x \<Rightarrow> int32 \<times> 'x) option"
  nc_disconnect :: "(uintptr \<Rightarrow> 'x \<Rightarrow> int32 \<times> 'x) option"
  nc_sign_with_secure_key :: "(byte list \<Rightarrow> byte list \<times> int32) option"
  nc_get_public_key :: "('x \<Rightarrow> byte list \<times> int32) option"
  nc_get_attestation :: "('x \<Rightarrow> byte list \<times> int32) option"
  nc_has_secure_element :: "('x \<Rightarrow> bool) option"
  nc_write_chunk :: "(byte list \<Rightarrow> uint32 \<Rightarrow> byte list \<Rightarrow> 'x \<Rightarrow> int32 \<times> 'x) option"
  nc_read_chunk :: "(byte list \<Rightarrow> uint32 \<Rightarrow> 'x \<Rightarrow> byte list \<times> int32) option"
  nc_has_chunk :: "(byte list \<Rightarrow> uint32 \<Rightarrow> 'x \<Rightarrow> bool) option"
  nc_delete_file :: "(byte list \<Rightarrow> 'x \<Rightarrow> int32 \<times> 'x) option"
  nc_available_space :: "('x \<Rightarrow> int64) option"
  nc_notify_transfer_progress :: "(uintptr \<Rightarrow> int32 \<Rightarrow> 'x \<Rightarrow> 'x) option"
  nc_notify_transfer_complete :: "(uintptr \<Rightarrow> byte list \<Rightarrow> 'x \<Rightarrow> 'x) option"
  nc_notify_transfer_failed :: "(uintptr \<Rightarrow> int32 \<Rightarrow> 'x \<Rightarrow> 'x) option"
  nc_notify_peer_verified :: "(uintptr \<Rightarrow> bool \<Rightarrow> 'x \<Rightarrow> 'x) option"
  nc_notify_fork_detected :: "(byte list \<Rightarrow> 'x \<Rightarrow> 'x) option"
  nc_notify_balance_changed :: "(int64 \<Rightarrow> 'x \<Rightarrow> 'x) option"
  nc_notify_gossip_received :: "(uintptr \<Rightarrow> 'x \<Rightarrow> 'x) option"

text \<open>A struct with no function set.\<close>

definition no_callbacks :: "'x NativeCallbacks" where
  "no_callbacks = \<lparr>nc_send = None, nc_start_advertising = None, nc_stop_advertising = None, nc_start_scanning = None,
     nc_stop_scanning = None, nc_disconnect = None, nc_sign_with_secure_key = None, nc_get_public_key = None,
     nc_get_attestation = None, nc_has_secure_element = None, nc_write_chunk = None, nc_read_chunk = None, nc_has_chunk = None,
     nc_delete_file = None, nc_available_space = None, nc_notify_transfer_progress = None, nc_notify_transfer_complete = None,
     nc_notify_transfer_failed = None, nc_notify_peer_verified = None, nc_notify_fork_detected = None,
     nc_notify_balance_changed = None, nc_notify_gossip_received = None\<rparr>"

text \<open>A shim calls its pointer without looking at it: a nil pointer ends the process.\<close>

definition call_shim :: "'f option \<Rightarrow> ('f \<Rightarrow> 'a) \<Rightarrow> 'a res" where
  "call_shim fn call = (case fn of None \<Rightarrow> Inl (Panic ''call of a nil function pointer'') | Some f \<Rightarrow> Inr (call f))"

text \<open>\<open>make([]byte, n)\<close> after native code wrote \<open>out\<close> to its start.\<close>

definition filled :: "nat \<Rightarrow> byte list \<Rightarrow> byte list" where
  "filled n out = take n (out @ replicate n 0)"

definition NativeSend :: "'x NativeCallbacks \<Rightarrow> uintptr \<Rightarrow> byte list \<Rightarrow> 'x \<Rightarrow> int32 \<times> 'x" where
  "NativeSend nc peerID data x =
     (case nc_send nc of None \<Rightarrow> (ML_ERR_INTERNAL, x) | Some f \<Rightarrow> f peerID data x)"

definition StartAdvertising :: "'x NativeCallbacks \<Rightarrow> byte list \<Rightarrow> 'x \<Rightarrow> (int32 \<times> 'x) res" where
  "StartAdvertising nc payload x = call_shim (nc_start_advertising nc) (\<lambda>f. f payload x)"

definition StopAdvertising :: "'x NativeCallbacks \<Rightarrow> 'x \<Rightarrow> (int32 \<times> 'x) res" where
  "StopAdvertising nc x = call_shim (nc_stop_advertising nc) (\<lambda>f. f x)"

definition StartScanning :: "'x NativeCallbacks \<Rightarrow> 'x \<Rightarrow> (int32 \<times> 'x) res" where
  "StartScanning nc x = call_shim (nc_start_scanning nc) (\<lambda>f. f x)"

definition StopScanning :: "'x NativeCallbacks \<Rightarrow> 'x \<Rightarrow> (int32 \<times> 'x) res" where
  "StopScanning nc x = call_shim (nc_stop_scanning nc) (\<lambda>f. f x)"

definition Disconnect :: "'x NativeCallbacks \<Rightarrow> uintptr \<Rightarrow> 'x \<Rightarrow> (int32 \<times> 'x) res" where
  "Disconnect nc peerID x = call_shim (nc_disconnect nc) (\<lambda>f. f peerID x)"

definition SignWithSecureKey :: "'x NativeCallbacks \<Rightarrow> byte list \<Rightarrow> slice \<times> int32" where
  "SignWithSecureKey nc data =
     (case nc_sign_with_secure_key nc of
        None \<Rightarrow> (None, ML_ERR_INTERNAL)
      | Some f \<Rightarrow> let (out, result) = f data in (Some (filled 64 out), result))"

definition GetPublicKey :: "'x NativeCallbacks \<Rightarrow> 'x \<Rightarrow> (slice \<times> int32) res" where
  "GetPublicKey nc x = call_shim (nc_get_public_key nc) (\<lambda>f. let (out, result) = f x in (Some (filled 32 out), result))"

definition GetAttestation :: "'x NativeCallbacks \<Rightarrow> 'x \<Rightarrow> (slice \<times> int32) res" where
  "GetAttestation nc x = call_shim (nc_get_attestation nc) (\<lambda>f. let (out, result) = f x in (Some (filled 4096 out), result))"

definition HasSecureElement :: "'x NativeCallbacks \<Rightarrow> 'x \<Rightarrow> bool" where
  "HasSecureElement nc x = (case nc_has_secure_element nc of None \<Rightarrow> False | Some f \<Rightarrow> f x)"

definition NativeWriteChunk :: "'x NativeCallbacks \<Rightarrow> slice \<Rightarrow> uint32 \<Rightarrow> slice \<Rightarrow> 'x \<Rightarrow> int32 \<times> 'x" where
  "NativeWriteChunk nc fileHash chunkIndex data x =
     (case nc_write_chunk nc of None \<Rightarrow> (ML_ERR_INTERNAL, x) | Some f \<Rightarrow> f (bs fileHash) chunkIndex (bs data) x)"

definition NativeReadChunk :: "'x NativeCallbacks \<Rightarrow> slice \<Rightarrow> uint32 \<Rightarrow> nat \<Rightarrow> 'x \<Rightarrow> (slice \<times> int32) res" where
  "NativeReadChunk nc fileHash chunkIndex bufferSize x =
     (case nc_read_chunk nc of
        None \<Rightarrow> Inr (None, ML_ERR_INTERNAL)
      | Some f \<Rightarrow>
          if bufferSize = 0 then Inl (Panic ''index out of range'')
          else let (out, rc) = f (bs fileHash) chunkIndex x; dataOut = filled bufferSize out in
            if sint rc < 0 then Inr (None, - rc)
            else if rc = 0 then Inr (None, ML_ERR_NOT_FOUND)
            else if unat rc \<le> length dataOut then Inr (Some (take (unat rc) dataOut), ML_OK)
            else Inl (Panic ''slice bounds out of range''))"

definition NativeHasChunk :: "'x NativeCallbacks \<Rightarrow> slice \<Rightarrow> uint32 \<Rightarrow> 'x \<Rightarrow> bool" where
  "NativeHasChunk nc fileHash chunkIndex x =
     (case nc_has_chunk nc of None \<Rightarrow> False | Some f \<Rightarrow> f (bs fileHash) chunkIndex x)"

definition DeleteFile :: "'x NativeCallbacks \<Rightarrow> slice \<Rightarrow> 'x \<Rightarrow> (int32 \<times> 'x) res" where
  "DeleteFile nc fileHash x = call_shim (nc_delete_file nc) (\<lambda>f. f (bs fileHash) x)"

definition AvailableSpace :: "'x NativeCallbacks \<Rightarrow> 'x \<Rightarrow> int64 res" where
  "AvailableSpace nc x = call_shim (nc_available_space nc) (\<lambda>f. f x)"

definition NotifyTransferProgress :: "'x NativeCallbacks \<Rightarrow> uintptr \<Rightarrow> int32 \<Rightarrow> 'x \<Rightarrow> 'x" where
  "NotifyTransferProgress nc peerID percent x =
     (case nc_notify_transfer_progress nc of None \<Rightarrow> x | Some f \<Rightarrow> f peerID percent x)"

definition NotifyTransferComplete :: "'x NativeCallbacks \<Rightarrow> uintptr \<Rightarrow> slice \<Rightarrow> 'x \<Rightarrow> 'x" where
  "NotifyTransferComplete nc peerID fileHash x =
     (case nc_notify_transfer_complete nc of None \<Rightarrow> x | Some f \<Rightarrow> f peerID (bs fileHash) x)"

definition NotifyTransferFailed :: "'x NativeCallbacks \<Rightarrow> uintptr \<Rightarrow> int32 \<Rightarrow> 'x \<Rightarrow> 'x" where
  "NotifyTransferFailed nc peerID errorCode x =
     (case nc_notify_transfer_failed nc of None \<Rightarrow> x | Some f \<Rightarrow> f peerID errorCode x)"

definition NotifyPeerVerified :: "'x NativeCallbacks \<Rightarrow> uintptr \<Rightarrow> bool \<Rightarrow> 'x \<Rightarrow> 'x" where
  "NotifyPeerVerified nc peerID valid x =
     (case nc_notify_peer_verified nc of None \<Rightarrow> x | Some f \<Rightarrow> f peerID valid x)"

definition NotifyForkDetected :: "'x NativeCallbacks \<Rightarrow> slice \<Rightarrow> 'x \<Rightarrow> 'x" where
  "NotifyForkDetected nc devicePubkey x =
     (case nc_notify_fork_detected nc of None \<Rightarrow> x | Some f \<Rightarrow> f (bs devicePubkey) x)"

definition NotifyBalanceChanged :: "'x NativeCallbacks \<Rightarrow> int64 \<Rightarrow> 'x \<Rightarrow> 'x" where
  "NotifyBalanceChanged nc newBalance x =
     (case nc_notify_balance_changed nc of None \<Rightarrow> x | Some f \<Rightarrow> f newBalance x)"

definition NotifyGossipReceived :: "'x NativeCallbacks \<Rightarrow> uintptr \<Rightarrow> 'x \<Rightarrow> 'x" where
  "NotifyGossipReceived nc peerID x =
     (case nc_notify_gossip_received nc of None \<Rightarrow> x | Some f \<Rightarrow> f peerID x)"

section \<open>Properties\<close>

lemma errorToCode_codeToError_known:
  "errorToCode (codeToError 0) = 0" "errorToCode (codeToError 1) = 1" "errorToCode (codeToError 2) = 2"
  "errorToCode (codeToError 3) = 3" "errorToCode (codeToError 4) = 7" "errorToCode (codeToError 5) = 5"
  "errorToCode (codeToError 6) = 6" "errorToCode (codeToError 7) = 7"
  by code_simp+

text \<open>
  The two translations of error codes.  A code that is turned into an error and back comes out as
  itself, except that the code for a failure of the cryptography and every unknown code come out as
  an internal error; only success gives code 0, and every code that leaves is one of the header's.
\<close>

theorem error_code_roundtrip:
  "errorToCode (codeToError c) = (if c \<in> {0, 1, 2, 3, 5, 6} then c else ML_ERR_INTERNAL) \<and>
   (errorToCode err = ML_OK \<longleftrightarrow> err = None) \<and> unat (errorToCode err) \<le> 7"
proof -
  have "codeToError c = Some (Errorf ''unknown error code'')" if "c \<notin> {0, 1, 2, 3, 4, 5, 6, 7}"
    using that by (simp add: codeToError_def errMessages_def ML_defs)
  moreover have "errorToCode (Some (Errorf ''unknown error code'')) = 7" by code_simp
  ultimately have "errorToCode (codeToError c) = (if c \<in> {0, 1, 2, 3, 5, 6} then c else ML_ERR_INTERNAL)"
    using errorToCode_codeToError_known by (cases "c \<in> {0, 1, 2, 3, 4, 5, 6, 7}") (auto simp: ML_ERR_INTERNAL_def)
  moreover have "(errorToCode err = ML_OK \<longleftrightarrow> err = None) \<and> unat (errorToCode err) \<le> 7"
    by (auto simp: errorToCode_def Let_def ML_defs split: option.split)
  ultimately show ?thesis by blast
qed

text \<open>
  Native code that fills a buffer cannot make the wrappers return more than the buffer holds: a
  chunk has between 1 and \<open>bufferSize\<close> bytes, a signature 64, a public key 32.  A return code
  beyond the buffer is a panic and not an error.
\<close>

theorem native_buffers_bounded:
  assumes "0 < bufferSize"
  shows "(NativeReadChunk nc fh i bufferSize x = Inr (d, code) \<longrightarrow>
      (code = ML_OK \<longrightarrow> 0 < length (bs d) \<and> length (bs d) \<le> bufferSize) \<and> (code \<noteq> ML_OK \<longrightarrow> d = None)) \<and>
    (is_panic (NativeReadChunk nc fh i bufferSize x) \<longleftrightarrow>
      (\<exists>f. nc_read_chunk nc = Some f \<and> int bufferSize < sint (snd (f (bs fh) i x)))) \<and>
    (SignWithSecureKey nc m = (Some sig, rc) \<longrightarrow> length sig = 64) \<and>
    (GetPublicKey nc x = Inr (Some pk, rc) \<longrightarrow> length pk = 32)"
proof -
  have filled: "length (filled n out) = n" for n out by (simp add: filled_def)
  hence empty: "filled n out = [] \<longleftrightarrow> n = 0" for n out by (metis length_0_conv)
  have pos: "int n < sint (a :: int32) \<longleftrightarrow> n < unat a" if "0 \<le> sint a" for a n
  proof -
    have "sint a < 2 ^ 31" using sint_lt [of a] by simp
    with that have "uint a = sint a" by (simp add: uint_sint take_bit_int_eq_self)
    thus ?thesis by (metis of_nat_less_iff uint_nat)
  qed
  have nz: "unat a = 0 \<longleftrightarrow> a = 0" for a :: int32 by (simp add: unat_eq_zero)
  have neg: "- a \<noteq> ML_OK" if "sint a < 0" for a :: int32 using that by (auto simp: ML_OK_def)
  have "(NativeReadChunk nc fh i bufferSize x = Inr (d, code) \<longrightarrow>
      (code = ML_OK \<longrightarrow> 0 < length (bs d) \<and> length (bs d) \<le> bufferSize) \<and> (code \<noteq> ML_OK \<longrightarrow> d = None)) \<and>
    (is_panic (NativeReadChunk nc fh i bufferSize x) \<longleftrightarrow>
      (\<exists>f. nc_read_chunk nc = Some f \<and> int bufferSize < sint (snd (f (bs fh) i x))))"
    using assms
    by (auto simp: NativeReadChunk_def Let_def filled empty nz neg pos simp flip: not_less simp: ML_ERR_INTERNAL_def ML_ERR_NOT_FOUND_def ML_OK_def
        split: option.splits prod.splits if_splits)
  moreover have "SignWithSecureKey nc m = (Some sig, rc) \<longrightarrow> length sig = 64"
    by (auto simp: SignWithSecureKey_def filled split: option.splits prod.splits)
  moreover have "GetPublicKey nc x = Inr (Some pk, rc) \<longrightarrow> length pk = 32"
    by (auto simp: GetPublicKey_def call_shim_def filled split: option.splits prod.splits)
  ultimately show ?thesis by blast
qed

theorem native_buffers_bounded_witness:
  "is_panic (NativeReadChunk (no_callbacks\<lparr>nc_read_chunk := Some (\<lambda>h i x. ([1], 5))\<rparr>) (Some [1]) 0 4 ())"
  using native_buffers_bounded [of 4 "no_callbacks\<lparr>nc_read_chunk := Some (\<lambda>h i x. ([1], 5))\<rparr>" "Some [1]" 0 "()"] by simp

text \<open>
  What the wrappers do when the native layer left its functions unset.  Those that the core calls
  report an internal error, say no, or do nothing; advertising, scanning, disconnecting, reading the
  key and the attestation, deleting and asking for space end the process.
\<close>

theorem unset_callbacks:
  "NativeSend no_callbacks p d x = (ML_ERR_INTERNAL, x) \<and> SignWithSecureKey no_callbacks d = (None, ML_ERR_INTERNAL) \<and>
   NativeWriteChunk no_callbacks h i (Some d) x = (ML_ERR_INTERNAL, x) \<and> NativeReadChunk no_callbacks h i n x = Inr (None, ML_ERR_INTERNAL) \<and>
   \<not> NativeHasChunk no_callbacks h i x \<and> \<not> HasSecureElement no_callbacks x \<and>
   NotifyTransferProgress no_callbacks p c x = x \<and> NotifyTransferComplete no_callbacks p h x = x \<and>
   NotifyTransferFailed no_callbacks p c x = x \<and> NotifyPeerVerified no_callbacks p b x = x \<and>
   NotifyForkDetected no_callbacks h x = x \<and> NotifyBalanceChanged no_callbacks bal x = x \<and> NotifyGossipReceived no_callbacks p x = x \<and>
   is_panic (StartAdvertising no_callbacks d x) \<and> is_panic (StopAdvertising no_callbacks x) \<and>
   is_panic (StartScanning no_callbacks x) \<and> is_panic (StopScanning no_callbacks x) \<and> is_panic (Disconnect no_callbacks p x) \<and>
   is_panic (GetPublicKey no_callbacks x) \<and> is_panic (GetAttestation no_callbacks x) \<and>
   is_panic (DeleteFile no_callbacks h x) \<and> is_panic (AvailableSpace no_callbacks x)"
  by (simp add: no_callbacks_def call_shim_def NativeSend_def SignWithSecureKey_def NativeWriteChunk_def NativeReadChunk_def
      NativeHasChunk_def HasSecureElement_def NotifyTransferProgress_def NotifyTransferComplete_def NotifyTransferFailed_def
      NotifyPeerVerified_def NotifyForkDetected_def NotifyBalanceChanged_def NotifyGossipReceived_def StartAdvertising_def
      StopAdvertising_def StartScanning_def StopScanning_def Disconnect_def GetPublicKey_def GetAttestation_def DeleteFile_def AvailableSpace_def)

text \<open>The registry after any calls, with the number of registrations.\<close>

inductive registry_reach :: "nat \<Rightarrow> 'o handleRegistry \<Rightarrow> bool" where
  init: "registry_reach 0 registry"
| register: "registry_reach n r \<Longrightarrow> registry_reach (Suc n) (snd (RegisterHandle obj r))"
| release: "registry_reach n r \<Longrightarrow> registry_reach n (ReleaseHandle h r)"

lemma registry_next:
  "registry_reach n r \<Longrightarrow> n < 2 ^ 64 - 1 \<Longrightarrow> unat (hr_next r) = Suc n \<and> (\<forall>h\<in>dom (hr_handles r). h \<noteq> 0 \<and> h < hr_next r)"
proof (induction rule: registry_reach.induct)
  case (register n r obj)
  hence IH: "unat (hr_next r) = Suc n" "\<forall>h\<in>dom (hr_handles r). h \<noteq> 0 \<and> h < hr_next r" by auto
  have next': "unat (hr_next r + 1) = Suc (Suc n)"
    using IH(1) register.prems by (simp add: unat_word_ariths)
  hence lt: "hr_next r < hr_next r + 1" by (simp add: word_less_nat_alt IH(1))
  moreover have "hr_next r \<noteq> 0" using IH(1) by auto
  ultimately show ?case using next' IH(2) by (auto simp: RegisterHandle_def Let_def split: if_splits dest: order.strict_trans)
qed (auto simp: registry_def ReleaseHandle_def split: if_splits)

text \<open>
  Handles are safe names for objects: while fewer than \<open>2\<^sup>6\<^sup>4 - 1\<close> handles were given out, a new
  handle is not 0 (the nil of C), was never the handle of another object, leads to its object, and
  leaves all others as they were; a released handle leads nowhere.
\<close>

theorem handles_fresh:
  assumes "registry_reach n r" and "n < 2 ^ 64 - 1" and "RegisterHandle obj r = (h, r')"
  shows "h \<noteq> 0 \<and> GetHandle h r = None \<and> GetHandle h r' = Some obj \<and> (\<forall>k. k \<noteq> h \<longrightarrow> GetHandle k r' = GetHandle k r) \<and>
    GetHandle h (ReleaseHandle h r') = None \<and> unat h = Suc n"
  using registry_next [OF assms(1,2)] assms(3)
  by (auto simp: RegisterHandle_def GetHandle_def ReleaseHandle_def Let_def)

theorem handles_fresh_witness: "fst (RegisterHandle ''node'' registry) = 1 \<and> GetHandle 1 (snd (RegisterHandle ''node'' registry)) = Some ''node''"
proof -
  obtain h r where r: "RegisterHandle ''node'' registry = (h, r)" by (cases "RegisterHandle ''node'' registry")
  with handles_fresh [OF registry_reach.init _ r] show ?thesis by (auto simp: RegisterHandle_def registry_def Let_def)
qed

end
