(* ===== verification/Cabi_Transport.thy ===== *)
theory Cabi_Transport
  imports Cabi_Base Codec Session_Live
begin

text \<open>
  The transport of the C interface (\<open>cabi/flow_adapters.go\<close>): a bounded channel and a list of
  envelopes that were put back, with a link to the transport that took over when a connection was
  lost.  The transports are objects of a heap.  What the other goroutines do while a receiver is
  blocked is a list of arrivals; a receiver that waits for ever when it is used up gives \<open>None\<close>.
\<close>

section \<open>The heap of transports\<close>

type_synonym transport_ref = nat

text \<open>The channel is closed exactly when \<open>incomingClosed\<close> is set, in the same critical section.\<close>

record cabiPeerTransport =
  pt_peerID :: uintptr
  pt_incoming :: "Envelope list"
  pt_preRecv :: "Envelope list"
  pt_delegatePeer :: "transport_ref option"
  pt_incomingClosed :: bool

type_synonym transport_heap = "cabiPeerTransport list"

definition incomingCapacity :: nat where
  "incomingCapacity = 32"

definition newCabiPeerTransport :: "uintptr \<Rightarrow> transport_heap \<Rightarrow> transport_ref \<times> transport_heap" where
  "newCabiPeerTransport peerID h =
     (length h, h @ [\<lparr>pt_peerID = peerID, pt_incoming = [], pt_preRecv = [], pt_delegatePeer = None, pt_incomingClosed = False\<rparr>])"

section \<open>Queues\<close>

text \<open>A full channel loses its oldest envelope; a send on a closed channel panics.\<close>

definition enqueueLocked :: "transport_ref \<Rightarrow> Envelope option \<Rightarrow> transport_heap \<Rightarrow> transport_heap res" where
  "enqueueLocked r env h =
     (case env of
        None \<Rightarrow> Inr h
      | Some e \<Rightarrow>
          if length h \<le> r then nil_deref
          else let t = h ! r; q = pt_incoming t in
            if pt_incomingClosed t then Inl (Panic ''send on closed channel'')
            else if length q < incomingCapacity then Inr (h[r := t\<lparr>pt_incoming := q @ [e]\<rparr>])
            else Inr (h[r := t\<lparr>pt_incoming := tl q @ [e]\<rparr>]))"

fun enqueueAll :: "transport_ref \<Rightarrow> Envelope list \<Rightarrow> transport_heap \<Rightarrow> transport_heap res" where
  "enqueueAll r [] h = Inr h"
| "enqueueAll r (e # es) h = res_bind (enqueueLocked r (Some e) h) (enqueueAll r es)"

definition linkDelegate :: "transport_ref option \<Rightarrow> transport_ref option \<Rightarrow> transport_heap \<Rightarrow> transport_heap res" where
  "linkDelegate tp survp h =
     (case (tp, survp) of
        (Some t, Some surv) \<Rightarrow>
          if t = surv then Inr h
          else if length h \<le> t then nil_deref
          else if pt_incomingClosed (h ! t) then Inr h
          else res_bind (enqueueAll surv (pt_preRecv (h ! t)) h) (\<lambda>h.
               res_bind (enqueueAll surv (pt_incoming (h ! t)) (h[t := (h ! t)\<lparr>pt_preRecv := []\<rparr>])) (\<lambda>h.
               Inr (h[t := (h ! t)\<lparr>pt_incoming := [], pt_delegatePeer := Some surv, pt_incomingClosed := True\<rparr>])))
      | _ \<Rightarrow> Inr h)"

lemma seen_shrinks:
  fixes r n :: nat
  assumes "r < n" "r \<notin> set seen"
  shows "card ({..<n} - set (r # seen)) < card ({..<n} - set seen)"
proof -
  have "{..<n} - set (r # seen) = ({..<n} - set seen) - {r}" by auto
  also have "card \<dots> < card ({..<n} - set seen)" using assms by (intro card_Diff1_less) auto
  finally show ?thesis .
qed

function delegateLoop :: "transport_heap \<Rightarrow> transport_ref list \<Rightarrow> transport_ref option \<Rightarrow> transport_ref res" where
  "delegateLoop h seen cur =
     (case cur of
        None \<Rightarrow> fail ''nil transport''
      | Some r \<Rightarrow>
          if length h \<le> r then nil_deref
          else if r \<in> set seen then fail ''cabiPeerTransport: delegate cycle''
          else (case pt_delegatePeer (h ! r) of
                  Some d \<Rightarrow> delegateLoop h (r # seen) (Some d)
                | None \<Rightarrow> Inr r))"
  by pat_completeness auto
termination
proof (relation "measure (\<lambda>(h, seen, cur). card ({..<length h} - set seen))")
  fix h :: transport_heap and seen cur r d
  assume "\<not> length h \<le> r" "r \<notin> set seen"
  hence "card ({..<length h} - set (r # seen)) < card ({..<length h} - set seen)" by (intro seen_shrinks) simp_all
  thus "((h, r # seen, Some d), h, seen, cur) \<in> measure (\<lambda>(h, seen, cur). card ({..<length h} - set seen))"
    by (simp only: in_measure prod.case)
qed simp

definition delegateRoot :: "transport_heap \<Rightarrow> transport_ref \<Rightarrow> transport_ref res" where
  "delegateRoot h r = delegateLoop h [] (Some r)"

definition takePreRecv :: "transport_ref \<Rightarrow> transport_heap \<Rightarrow> Envelope option \<times> bool \<times> transport_heap" where
  "takePreRecv r h =
     (case pt_preRecv (h ! r) of
        [] \<Rightarrow> (None, False, h)
      | e # rest \<Rightarrow> (Some e, True, h[r := (h ! r)\<lparr>pt_preRecv := rest\<rparr>]))"

text \<open>The loop that \<open>Recv\<close> and \<open>TryRecv\<close> share, up to the channel of the last transport.\<close>

datatype recv_at = Got "Envelope option" transport_heap | Failed failure | AtChannel transport_ref

function recvLoop :: "transport_heap \<Rightarrow> transport_ref list \<Rightarrow> transport_ref option \<Rightarrow> recv_at" where
  "recvLoop h seen cur =
     (case cur of
        None \<Rightarrow> Failed (Err (Errorf ''nil transport''))
      | Some r \<Rightarrow>
          if length h \<le> r then Failed (Panic ''nil pointer dereference'')
          else if r \<in> set seen then Failed (Err (Errorf ''cabiPeerTransport: delegate cycle in Recv''))
          else (case takePreRecv r h of
                  (env, True, h') \<Rightarrow> Got env h'
                | (_, False, _) \<Rightarrow>
                    (case pt_delegatePeer (h ! r) of
                       Some d \<Rightarrow> recvLoop h (r # seen) (Some d)
                     | None \<Rightarrow> AtChannel r)))"
  by pat_completeness auto
termination
proof (relation "measure (\<lambda>(h, seen, cur). card ({..<length h} - set seen))")
  fix h :: transport_heap and seen cur r d and a :: "Envelope option" and b :: "bool \<times> transport_heap" and x :: bool and y :: transport_heap
  assume "\<not> length h \<le> r" "r \<notin> set seen"
  hence "card ({..<length h} - set (r # seen)) < card ({..<length h} - set seen)" by (intro seen_shrinks) simp_all
  thus "((h, r # seen, Some d), h, seen, cur) \<in> measure (\<lambda>(h, seen, cur). card ({..<length h} - set seen))"
    by (simp only: in_measure prod.case)
qed simp

declare delegateLoop.simps [simp del] recvLoop.simps [simp del]

definition enqueue :: "transport_ref \<Rightarrow> Envelope option \<Rightarrow> transport_heap \<Rightarrow> transport_heap res" where
  "enqueue r env h =
     (case env of
        None \<Rightarrow> Inr h
      | Some _ \<Rightarrow>
          (case delegateRoot h r of
             Inl (Panic p) \<Rightarrow> Inl (Panic p)
           | Inl (Err _) \<Rightarrow> Inr h
           | Inr cur \<Rightarrow> enqueueLocked cur env h))"

section \<open>Waiting\<close>

text \<open>What other goroutines do while a receiver is blocked: data arrives or connections merge.\<close>

datatype arrival = Enqueue transport_ref Envelope | Link transport_ref transport_ref

fun arrive :: "arrival \<Rightarrow> transport_heap \<Rightarrow> transport_heap res" where
  "arrive (Enqueue r e) h = enqueue r (Some e) h"
| "arrive (Link a b) h = linkDelegate (Some a) (Some b) h"

text \<open>The receive operation on the channel of \<open>r\<close>; a panic elsewhere takes the receiver with it.\<close>

fun awaitIncoming ::
  "transport_ref \<Rightarrow> arrival list \<Rightarrow> transport_heap \<Rightarrow> (Envelope option res \<times> arrival list \<times> transport_heap) option" where
  "awaitIncoming r arrs h =
     (case pt_incoming (h ! r) of
        e # q \<Rightarrow> Some (Inr (Some e), arrs, h[r := (h ! r)\<lparr>pt_incoming := q\<rparr>])
      | [] \<Rightarrow>
          if pt_incomingClosed (h ! r) then Some (fail ''transport closed'', arrs, h)
          else (case arrs of
                  [] \<Rightarrow> None
                | a # rest \<Rightarrow>
                    (case arrive a h of
                       Inl e \<Rightarrow> Some (Inl e, rest, h)
                     | Inr h' \<Rightarrow> awaitIncoming r rest h')))"

declare awaitIncoming.simps [simp del]

section \<open>The transport\<close>

record 'x cabi =
  cw_heap :: transport_heap
  cw_arrivals :: "arrival list"
  cw_native :: 'x

definition Send :: "(Envelope \<Rightarrow> byte list res) \<Rightarrow> 'x NativeCallbacks \<Rightarrow> transport_ref \<Rightarrow> Envelope option \<Rightarrow> ('x cabi, unit) op" where
  "Send marshal callbacks r env w =
     (case delegateRoot (cw_heap w) r of
        Inl e \<Rightarrow> (Inl e, w)
      | Inr cur \<Rightarrow>
          (case env of
             None \<Rightarrow> (fail ''nil envelope'', w)
           | Some _ \<Rightarrow>
               (case EncodeEnvelope marshal env of
                  Inl e \<Rightarrow> (Inl e, w)
                | Inr data \<Rightarrow>
                    let (rc, x) = NativeSend callbacks (pt_peerID (cw_heap w ! cur)) data (cw_native w);
                        w = w\<lparr>cw_native := x\<rparr>
                    in (case (if rc \<noteq> ML_OK then codeToError rc else None) of
                          Some e \<Rightarrow> (Inl (Err e), w)
                        | None \<Rightarrow> (Inr (), w)))))"

definition Recv :: "transport_ref \<Rightarrow> 'x cabi \<Rightarrow> (Envelope option res \<times> 'x cabi) option" where
  "Recv r w =
     (case recvLoop (cw_heap w) [] (Some r) of
        Failed e \<Rightarrow> Some (Inl e, w)
      | Got env h \<Rightarrow> Some (Inr env, w\<lparr>cw_heap := h\<rparr>)
      | AtChannel cur \<Rightarrow>
          map_option (\<lambda>(res, arrs, h). (res, w\<lparr>cw_heap := h, cw_arrivals := arrs\<rparr>)) (awaitIncoming cur (cw_arrivals w) (cw_heap w)))"

definition TryRecv :: "transport_ref \<Rightarrow> 'x cabi \<Rightarrow> Envelope option \<times> bool \<times> 'x cabi" where
  "TryRecv r w =
     (case recvLoop (cw_heap w) [] (Some r) of
        Failed _ \<Rightarrow> (None, False, w)
      | Got env h \<Rightarrow> (env, True, w\<lparr>cw_heap := h\<rparr>)
      | AtChannel cur \<Rightarrow>
          (case pt_incoming (cw_heap w ! cur) of
             [] \<Rightarrow> (None, False, w)
           | e # q \<Rightarrow> (Some e, True, w\<lparr>cw_heap := (cw_heap w)[cur := (cw_heap w ! cur)\<lparr>pt_incoming := q\<rparr>]\<rparr>)))"

definition PutBack :: "transport_ref \<Rightarrow> Envelope option \<Rightarrow> 'x cabi \<Rightarrow> 'x cabi" where
  "PutBack r env w =
     (case env of
        None \<Rightarrow> w
      | Some e \<Rightarrow>
          (case delegateRoot (cw_heap w) r of
             Inl _ \<Rightarrow> w
           | Inr cur \<Rightarrow> w\<lparr>cw_heap := (cw_heap w)[cur := (cw_heap w ! cur)\<lparr>pt_preRecv := e # pt_preRecv (cw_heap w ! cur)\<rparr>]\<rparr>))"

definition cabiTransport :: "(Envelope \<Rightarrow> byte list res) \<Rightarrow> 'x NativeCallbacks \<Rightarrow> transport_ref \<Rightarrow> 'x cabi Transport" where
  "cabiTransport marshal callbacks r =
     \<lparr>tp_Send = Send marshal callbacks r, tp_Recv = Recv r, tp_TryRecv = TryRecv r, tp_PutBack = PutBack r\<rparr>"

section \<open>Signer and file storage\<close>

text \<open>The secure element first, the software key otherwise.\<close>

definition cabiSign :: "crypto_prims \<Rightarrow> 'x NativeCallbacks option \<Rightarrow> slice \<Rightarrow> byte list \<Rightarrow> slice res" where
  "cabiSign cr callbacks privateKey message =
     (case callbacks of
        Some nc \<Rightarrow>
          let (sig, code) = SignWithSecureKey nc message in
          if code = ML_OK then Inr sig else Sign cr privateKey message
      | None \<Rightarrow> Sign cr privateKey message)"

definition codeFailure :: "int32 \<Rightarrow> failure" where
  "codeFailure code = (case codeToError code of Some e \<Rightarrow> Err e | None \<Rightarrow> Err (Errorf ''''))"

definition cabiFileStorage :: "'x NativeCallbacks \<Rightarrow> 'x cabi FileStorage" where
  "cabiFileStorage nc =
     \<lparr>fs_ReadChunk = (\<lambda>fileHash chunkIndex w.
        res_bind (NativeReadChunk nc fileHash chunkIndex (256 * 1024) (cw_native w)) (\<lambda>(data, code).
          if code \<noteq> ML_OK then Inl (codeFailure code) else Inr data)),
      fs_WriteChunk = (\<lambda>fileHash chunkIndex data w.
        let (code, x) = NativeWriteChunk nc fileHash chunkIndex data (cw_native w); w = w\<lparr>cw_native := x\<rparr> in
        if code \<noteq> ML_OK then (Inl (codeFailure code), w) else (Inr (), w)),
      fs_HasChunk = (\<lambda>fileHash chunkIndex w. Inr (NativeHasChunk nc fileHash chunkIndex (cw_native w)))\<rparr>"

text \<open>
  What the native layer promises of its chunks: a map, with reads that report the length.  A chunk is
  not empty, since a read of nothing means that there is none, and it fits the buffer that the
  adapter reads into.
\<close>

definition chunk_fits :: "byte list \<Rightarrow> bool" where
  "chunk_fits d \<longleftrightarrow> 0 < length d \<and> length d \<le> 256 * 1024"

definition native_chunks_ok :: "'x NativeCallbacks \<Rightarrow> (byte list \<Rightarrow> uint32 \<Rightarrow> 'x \<Rightarrow> byte list option) \<Rightarrow> bool" where
  "native_chunks_ok nc look \<longleftrightarrow>
     (\<exists>rd wr. nc_has_chunk nc = Some (\<lambda>h i x. look h i x \<noteq> None) \<and> nc_read_chunk nc = Some rd \<and> nc_write_chunk nc = Some wr \<and>
        (\<forall>h i x d. look h i x = Some d \<longrightarrow> chunk_fits d \<and> rd h i x = (d, of_nat (length d))) \<and>
        (\<forall>h i d x. chunk_fits d \<longrightarrow> (\<exists>x'. wr h i d x = (ML_OK, x') \<and>
           (\<forall>k j. look k j x' = (if k = h \<and> j = i then Some d else look k j x)))))"

lemma chunk_length_word:
  assumes "chunk_fits d"
  shows "unat (of_nat (length d) :: int32) = length d" "0 \<le> sint (of_nat (length d) :: int32)" "(of_nat (length d) :: int32) \<noteq> 0"
proof -
  have "length d < 2 ^ 31" using assms by (simp add: chunk_fits_def)
  hence "sint (of_nat (length d) :: int32) = int (length d)"
    by (simp add: sint_uint uint_nat unat_of_nat signed_take_bit_int_eq_self)
  show "unat (of_nat (length d) :: int32) = length d" using \<open>length d < 2 ^ 31\<close> by (simp add: unat_of_nat)
  show "0 \<le> sint (of_nat (length d) :: int32)" using \<open>sint (of_nat (length d) :: int32) = int (length d)\<close> by simp
  show "(of_nat (length d) :: int32) \<noteq> 0" using \<open>unat (of_nat (length d) :: int32) = length d\<close> assms by (auto simp: chunk_fits_def)
qed

lemma cabiFileStorage_chunk_store:
  assumes "native_chunks_ok nc look"
  shows "chunk_store (cabiFileStorage nc) (\<lambda>h i w. look h i (cw_native w)) chunk_fits"
proof -
  obtain rd wr where nc: "nc_has_chunk nc = Some (\<lambda>h i x. look h i x \<noteq> None)" "nc_read_chunk nc = Some rd" "nc_write_chunk nc = Some wr"
    and rd: "\<And>h i x d. look h i x = Some d \<Longrightarrow> chunk_fits d \<and> rd h i x = (d, of_nat (length d))"
    and wr: "\<And>h i d x. chunk_fits d \<Longrightarrow> \<exists>x'. wr h i d x = (ML_OK, x') \<and> (\<forall>k j. look k j x' = (if k = h \<and> j = i then Some d else look k j x))"
    using assms unfolding native_chunks_ok_def by blast
  show ?thesis
  proof
    fix fh i d and w :: "'a cabi"
    assume "look (bs fh) i (cw_native w) = Some d"
    with rd have d: "chunk_fits d" "rd (bs fh) i (cw_native w) = (d, of_nat (length d))" by auto
    thus "fs_ReadChunk (cabiFileStorage nc) fh i w = Inr (Some d)"
      using chunk_length_word [OF d(1)] by (simp add: cabiFileStorage_def NativeReadChunk_def nc filled_def chunk_fits_def)
  next
    fix d fh i and w :: "'a cabi"
    assume "chunk_fits d"
    then obtain x where "wr (bs fh) i d (cw_native w) = (ML_OK, x)" "\<forall>k j. look k j x = (if k = bs fh \<and> j = i then Some d else look k j (cw_native w))"
      using wr by blast
    thus "\<exists>w'. fs_WriteChunk (cabiFileStorage nc) fh i (Some d) w = (Inr (), w') \<and>
        (\<forall>h j. look h j (cw_native w') = (if h = bs fh \<and> j = i then Some d else look h j (cw_native w)))"
      by (intro exI [of _ "w\<lparr>cw_native := x\<rparr>"]) (simp add: cabiFileStorage_def NativeWriteChunk_def nc)
  qed (use rd in \<open>auto simp: cabiFileStorage_def NativeHasChunk_def nc\<close>)
qed

text \<open>A native layer that keeps its chunks in memory.\<close>

type_synonym chunk_memory = "byte list \<Rightarrow> uint32 \<Rightarrow> byte list option"

definition memory_look :: "byte list \<Rightarrow> uint32 \<Rightarrow> chunk_memory \<Rightarrow> byte list option" where
  "memory_look h i x = (case x h i of Some d \<Rightarrow> if chunk_fits d then Some d else None | None \<Rightarrow> None)"

definition memory_callbacks :: "chunk_memory NativeCallbacks" where
  "memory_callbacks = no_callbacks\<lparr>nc_has_chunk := Some (\<lambda>h i x. memory_look h i x \<noteq> None),
     nc_read_chunk := Some (\<lambda>h i x. case memory_look h i x of None \<Rightarrow> ([], 0) | Some d \<Rightarrow> (d, of_nat (length d))),
     nc_write_chunk := Some (\<lambda>h i d x. (ML_OK, x(h := (x h)(i := Some d))))\<rparr>"

interpretation memory_chunks: chunk_store "cabiFileStorage memory_callbacks" "\<lambda>h i w. memory_look h i (cw_native w)" chunk_fits
proof (rule cabiFileStorage_chunk_store)
  show "native_chunks_ok memory_callbacks memory_look"
    unfolding native_chunks_ok_def
    by (auto simp: memory_callbacks_def memory_look_def split: option.splits if_splits)
qed

section \<open>The supply of envelopes\<close>

text \<open>The envelopes that are queued in the heap.\<close>

definition queued :: "cabiPeerTransport \<Rightarrow> nat" where
  "queued t = length (pt_preRecv t) + length (pt_incoming t)"

definition total_queued :: "transport_heap \<Rightarrow> nat" where
  "total_queued h = sum_list (map queued h)"

lemma total_queued_update:
  assumes "r < length h"
  shows "total_queued (h[r := t]) + queued (h ! r) = total_queued h + queued t"
proof -
  have "sum_list (map queued (h[r := t])) + queued (h ! r) = sum_list (map queued h) + queued t"
    using assms
  proof (induction h arbitrary: r)
    case (Cons a h)
    thus ?case by (cases r) auto
  qed simp
  thus ?thesis by (simp add: total_queued_def)
qed

lemma enqueueLocked_Inr:
  assumes "enqueueLocked r (Some e) h = Inr h'"
  shows "r < length h \<and> length h' = length h \<and> total_queued h' \<le> total_queued h + 1 \<and>
    h' = h[r := (h ! r)\<lparr>pt_incoming := pt_incoming (h' ! r)\<rparr>]"
proof -
  from assms have r: "r < length h" by (auto simp: enqueueLocked_def nil_deref_def split: if_splits)
  obtain q where h': "h' = h[r := (h ! r)\<lparr>pt_incoming := q @ [e]\<rparr>]" "length q \<le> length (pt_incoming (h ! r))"
    using assms by (auto simp: enqueueLocked_def nil_deref_def Let_def split: if_splits)
  have "total_queued h' \<le> total_queued h + 1"
    using total_queued_update [OF r, of "(h ! r)\<lparr>pt_incoming := q @ [e]\<rparr>"] h' by (simp add: queued_def)
  with r h' show ?thesis by simp
qed

lemma enqueueAll_Inr:
  assumes "enqueueAll r es h = Inr h'"
  shows "length h' = length h \<and> total_queued h' \<le> total_queued h + length es \<and> (\<forall>k. k \<noteq> r \<longrightarrow> h' ! k = h ! k)"
  using assms
proof (induction es arbitrary: h)
  case (Cons e es)
  then obtain h1 where h1: "enqueueLocked r (Some e) h = Inr h1" "enqueueAll r es h1 = Inr h'" by (auto simp: res_bind_eq_Inr)
  have "\<forall>k. k \<noteq> r \<longrightarrow> h1 ! k = h ! k" using enqueueLocked_Inr [OF h1(1)] by (metis nth_list_update_neq)
  with Cons.IH [OF h1(2)] enqueueLocked_Inr [OF h1(1)] show ?case by auto
qed simp

lemma linkDelegate_total:
  assumes "linkDelegate t surv h = Inr h'"
  shows "total_queued h' \<le> total_queued h"
proof (cases "\<exists>a b. t = Some a \<and> surv = Some b \<and> a \<noteq> b \<and> a < length h \<and> \<not> pt_incomingClosed (h ! a)")
  case False
  with assms show ?thesis by (auto simp: linkDelegate_def nil_deref_def split: option.splits if_splits)
next
  case True
  then obtain a b where ab: "t = Some a" "surv = Some b" "a \<noteq> b" "a < length h" "\<not> pt_incomingClosed (h ! a)" by blast
  then obtain h1 h2 where 1: "enqueueAll b (pt_preRecv (h ! a)) h = Inr h1"
    and 2: "enqueueAll b (pt_incoming (h1 ! a)) (h1[a := (h1 ! a)\<lparr>pt_preRecv := []\<rparr>]) = Inr h2"
    and h': "h' = h2[a := (h2 ! a)\<lparr>pt_incoming := [], pt_delegatePeer := Some b, pt_incomingClosed := True\<rparr>]"
    using assms by (auto simp: linkDelegate_def res_bind_eq_Inr)
  have a1: "h1 ! a = h ! a" "length h1 = length h" "total_queued h1 \<le> total_queued h + length (pt_preRecv (h ! a))"
    using enqueueAll_Inr [OF 1] ab(3) by auto
  have a2: "h2 ! a = (h ! a)\<lparr>pt_preRecv := []\<rparr>" "length h2 = length h"
    "total_queued h2 \<le> total_queued (h1[a := (h ! a)\<lparr>pt_preRecv := []\<rparr>]) + length (pt_incoming (h ! a))"
    using enqueueAll_Inr [OF 2] ab(3,4) a1 by auto
  have "total_queued (h1[a := (h ! a)\<lparr>pt_preRecv := []\<rparr>]) + queued (h ! a) = total_queued h1 + length (pt_incoming (h ! a))"
    using total_queued_update [of a h1 "(h ! a)\<lparr>pt_preRecv := []\<rparr>"] a1 ab(4) by (simp add: queued_def)
  moreover have "total_queued h' + length (pt_incoming (h ! a)) = total_queued h2"
    using total_queued_update [of a h2] a2 ab(4) by (simp add: h' queued_def)
  ultimately show ?thesis using a1(3) a2(3) by (simp add: queued_def)
qed

lemma arrive_total:
  assumes "arrive a h = Inr h'"
  shows "total_queued h' \<le> total_queued h + 1"
proof (cases a)
  case (Enqueue r e)
  with assms show ?thesis
    by (auto simp: enqueue_def dest!: enqueueLocked_Inr split: sum.splits failure.splits)
next
  case (Link b c)
  with assms linkDelegate_total [of "Some b" "Some c" h h'] show ?thesis by simp
qed

lemma take_total:
  assumes "r < length h"
  shows "pt_preRecv (h ! r) = e # rest \<Longrightarrow> total_queued (h[r := (h ! r)\<lparr>pt_preRecv := rest\<rparr>]) < total_queued h"
    and "pt_incoming (h ! r) = e # q \<Longrightarrow> total_queued (h[r := (h ! r)\<lparr>pt_incoming := q\<rparr>]) < total_queued h"
  using total_queued_update [OF assms, of "(h ! r)\<lparr>pt_preRecv := rest\<rparr>"]
    total_queued_update [OF assms, of "(h ! r)\<lparr>pt_incoming := q\<rparr>"]
  by (simp_all add: queued_def)

lemma takePreRecv_total:
  "takePreRecv r h = (env, True, h') \<Longrightarrow> r < length h \<Longrightarrow> total_queued h' < total_queued h"
  using take_total(1) by (auto simp: takePreRecv_def split: list.splits)

lemma recvLoop_total: "recvLoop h seen cur = Got env h' \<Longrightarrow> total_queued h' < total_queued h"
proof (induction h seen cur rule: recvLoop.induct)
  case (1 h seen cur)
  from "1.prems" obtain r where r: "cur = Some r" "r < length h" "r \<notin> set seen"
    by (subst (asm) recvLoop.simps) (auto split: option.splits if_splits)
  obtain e b h1 where p: "takePreRecv r h = (e, b, h1)" by (cases "takePreRecv r h") auto
  show ?case
  proof (cases b)
    case True
    with "1.prems" r p have "h' = h1" by (subst (asm) recvLoop.simps) auto
    with True p takePreRecv_total [of r h e h1] r(2) show ?thesis by simp
  next
    case False
    with "1.prems" r p obtain d where d: "pt_delegatePeer (h ! r) = Some d" "recvLoop h (r # seen) (Some d) = Got env h'"
      by (subst (asm) recvLoop.simps) (auto split: option.splits)
    from "1.IH" [of r _ _ b h1 d] r p False d show ?thesis by auto
  qed
qed

lemma recvLoop_AtChannel: "recvLoop h seen cur = AtChannel r \<Longrightarrow> r < length h \<and> pt_delegatePeer (h ! r) = None"
proof (induction h seen cur rule: recvLoop.induct)
  case (1 h seen cur)
  from "1.prems" obtain k where k: "cur = Some k" "k < length h" "k \<notin> set seen"
    by (subst (asm) recvLoop.simps) (auto split: option.splits if_splits)
  obtain e b h1 where p: "takePreRecv k h = (e, b, h1)" by (cases "takePreRecv k h") auto
  from "1.prems" k p have b: "\<not> b" by (subst (asm) recvLoop.simps) auto
  show ?case
  proof (cases "pt_delegatePeer (h ! k)")
    case None
    with "1.prems" k p b have "r = k" by (subst (asm) recvLoop.simps) auto
    with None k show ?thesis by simp
  next
    case (Some d)
    with "1.prems" k p b have "recvLoop h (k # seen) (Some d) = AtChannel r" by (subst (asm) recvLoop.simps) auto
    from "1.IH" [of k _ _ b h1 d] k p b Some this show ?thesis by auto
  qed
qed

lemma arrive_length: "arrive a h = Inr h' \<Longrightarrow> length h' = length h"
  by (cases a) (auto simp: enqueue_def linkDelegate_def nil_deref_def res_bind_eq_Inr dest!: enqueueLocked_Inr enqueueAll_Inr
      split: sum.splits failure.splits if_splits)

lemma awaitIncoming_total:
  "awaitIncoming r arrs h = Some (Inr env, arrs', h') \<Longrightarrow> r < length h \<Longrightarrow>
   total_queued h' + length arrs' < total_queued h + length arrs"
proof (induction arrs arbitrary: h)
  case Nil
  thus ?case using take_total(2) [of r h] by (subst (asm) awaitIncoming.simps) (auto simp: fail_def split: list.splits if_splits)
next
  case (Cons a arrs)
  show ?case
  proof (cases "pt_incoming (h ! r)")
    case (Cons e q)
    with Cons.prems take_total(2) [of r h e q] show ?thesis by (subst (asm) awaitIncoming.simps) auto
  next
    case Nil
    with Cons.prems obtain h1 where h1: "arrive a h = Inr h1" "awaitIncoming r arrs h1 = Some (Inr env, arrs', h')"
      by (subst (asm) awaitIncoming.simps) (auto simp: fail_def split: if_splits sum.splits)
    from Cons.IH [OF h1(2)] arrive_length [OF h1(1)] arrive_total [OF h1(1)] Cons.prems(2) show ?thesis by simp
  qed
qed

definition supplyOf :: "'x cabi \<Rightarrow> nat" where
  "supplyOf w = total_queued (cw_heap w) + length (cw_arrivals w)"

lemma cabi_recv_takes: "Recv r w = Some (Inr env, w') \<Longrightarrow> supplyOf w' < supplyOf w"
  by (auto simp: Recv_def supplyOf_def dest: recvLoop_total awaitIncoming_total [OF _ conjunct1 [OF recvLoop_AtChannel]] split: recv_at.splits)

lemma cabi_try_takes: "TryRecv r w = (env, True, w') \<Longrightarrow> supplyOf w' < supplyOf w"
  by (auto simp: TryRecv_def supplyOf_def intro!: take_total(2) dest: recvLoop_total recvLoop_AtChannel split: recv_at.splits list.splits)

interpretation cabi_supply: finite_supply "cabiTransport marshal nc r" "cabiFileStorage nc'" supplyOf for marshal nc nc' r
proof
  fix w :: "'a cabi" and env w'
  show "tp_Recv (cabiTransport marshal nc r) w = Some (Inr env, w') \<Longrightarrow> supplyOf w' < supplyOf w"
    by (simp add: cabiTransport_def cabi_recv_takes)
  show "tp_TryRecv (cabiTransport marshal nc r) w = (env, True, w') \<Longrightarrow> supplyOf w' < supplyOf w"
    by (simp add: cabiTransport_def cabi_try_takes)
  fix fh i d and e :: "unit res"
  show "fs_WriteChunk (cabiFileStorage nc') fh i d w = (e, w') \<Longrightarrow> supplyOf w' \<le> supplyOf w"
    by (auto simp: cabiFileStorage_def supplyOf_def Let_def split: prod.splits if_splits)
qed

section \<open>Properties\<close>

definition latest :: "nat \<Rightarrow> 'a list \<Rightarrow> 'a list" where
  "latest n xs = drop (length xs - n) xs"

lemma latest_id: "length xs \<le> n \<Longrightarrow> latest n xs = xs"
  by (simp add: latest_def)

lemma latest_latest: "latest n (latest n xs @ ys) = latest n (xs @ ys)"
  by (cases "length xs \<le> n") (simp_all add: latest_def add.commute)

text \<open>A full channel loses its oldest envelope.\<close>

definition push :: "Envelope list \<Rightarrow> Envelope \<Rightarrow> Envelope list" where
  "push q e = (if length q < incomingCapacity then q @ [e] else tl q @ [e])"

lemma length_push: "length q \<le> incomingCapacity \<Longrightarrow> length (push q e) \<le> incomingCapacity"
  by (auto simp: push_def incomingCapacity_def)

lemma latest_push:
  assumes "length q \<le> incomingCapacity"
  shows "latest incomingCapacity (push q e @ es) = latest incomingCapacity (q @ e # es)"
proof (cases "length q < incomingCapacity")
  case False
  with assms obtain x q' where q: "q = x # q'" "Suc (length q') = incomingCapacity" by (cases q) (auto simp: incomingCapacity_def)
  thus ?thesis by (simp add: latest_def push_def Suc_diff_le)
qed (simp add: push_def)

text \<open>An open transport at the end of its delegate links.\<close>

definition active :: "transport_heap \<Rightarrow> transport_ref \<Rightarrow> bool" where
  "active h r \<longleftrightarrow> r < length h \<and> pt_delegatePeer (h ! r) = None \<and> \<not> pt_incomingClosed (h ! r) \<and>
     length (pt_incoming (h ! r)) \<le> incomingCapacity"

lemma delegateRoot_active: "active h r \<Longrightarrow> delegateRoot h r = Inr r"
  by (simp add: active_def delegateRoot_def delegateLoop.simps)

lemma delegateRoot_link:
  assumes "a < length h" "pt_delegatePeer (h ! a) = Some b" "a \<noteq> b" "active h b"
  shows "delegateRoot h a = Inr b"
proof -
  have "delegateLoop h [a] (Some b) = Inr b"
    using assms(3,4) by (subst delegateLoop.simps) (simp add: active_def)
  with assms(1,2) show ?thesis unfolding delegateRoot_def by (subst delegateLoop.simps) simp
qed

lemma enqueueLocked_active:
  "active h r \<Longrightarrow> enqueueLocked r (Some e) h = Inr (h[r := (h ! r)\<lparr>pt_incoming := push (pt_incoming (h ! r)) e\<rparr>])"
  by (simp add: active_def enqueueLocked_def push_def Let_def)

lemma active_update: "active h r \<Longrightarrow> length q \<le> incomingCapacity \<Longrightarrow> active (h[r := (h ! r)\<lparr>pt_incoming := q\<rparr>]) r"
  by (simp add: active_def)

lemma active_push: "active h r \<Longrightarrow> active (h[r := (h ! r)\<lparr>pt_incoming := push (pt_incoming (h ! r)) e\<rparr>]) r"
  by (rule active_update) (auto simp: active_def length_push)

lemma enqueueAll_active:
  "active h r \<Longrightarrow> enqueueAll r es h = Inr (h[r := (h ! r)\<lparr>pt_incoming := latest incomingCapacity (pt_incoming (h ! r) @ es)\<rparr>])"
proof (induction es arbitrary: h)
  case Nil
  thus ?case by (simp add: active_def latest_id)
next
  case (Cons e es)
  from Cons.IH [OF active_push [OF Cons.prems, of e]] Cons.prems show ?case
    by (simp add: enqueueLocked_active active_def latest_push)
qed

text \<open>The data that arrives for a transport, one envelope after the other.\<close>

fun deliver :: "transport_ref \<Rightarrow> Envelope list \<Rightarrow> transport_heap \<Rightarrow> transport_heap res" where
  "deliver r [] h = Inr h"
| "deliver r (e # es) h = res_bind (enqueue r (Some e) h) (deliver r es)"

lemma deliver_active: "active h r \<Longrightarrow> deliver r es h = enqueueAll r es h"
proof (induction es arbitrary: h)
  case (Cons e es)
  from Cons.IH [OF active_push [OF Cons.prems, of e]] Cons.prems show ?case
    by (simp add: enqueue_def delegateRoot_active enqueueLocked_active)
qed simp

lemma enqueueAll_closed: "b < length h \<Longrightarrow> pt_incomingClosed (h ! b) \<Longrightarrow> es \<noteq> [] \<Longrightarrow> is_panic (enqueueAll b es h)"
  by (cases es) (simp_all add: enqueueLocked_def Let_def)

text \<open>
  Whatever arrives on an open connection, its channel never holds more than 32 envelopes: it holds
  the latest 32 of what was there and what arrived, in order, and nothing else changes.
\<close>

theorem channel_keeps_latest:
  assumes "active h r"
  shows "\<exists>h'. deliver r es h = Inr h' \<and> active h' r \<and> length h' = length h \<and> (\<forall>k. k \<noteq> r \<longrightarrow> h' ! k = h ! k) \<and>
    pt_preRecv (h' ! r) = pt_preRecv (h ! r) \<and> pt_incoming (h' ! r) = latest 32 (pt_incoming (h ! r) @ es)"
proof -
  let ?h = "h[r := (h ! r)\<lparr>pt_incoming := latest incomingCapacity (pt_incoming (h ! r) @ es)\<rparr>]"
  have "active ?h r" using assms by (intro active_update) (auto simp: latest_def)
  moreover have "deliver r es h = Inr ?h" using assms by (simp add: deliver_active enqueueAll_active)
  ultimately show ?thesis using assms by (auto simp: active_def incomingCapacity_def)
qed

text \<open>
  C35. A connection that is lost while another one is open hands over: what was put back on it and what
  was queued goes to the survivor, of which the latest 32 envelopes stay, and both transports lead
  to the survivor from then on.  If the other one was itself already closed and something is
  queued, the process panics.
\<close>

theorem link_delegate_merges:
  assumes "a \<noteq> b" and "active h a" and "b < length h"
  shows "(active h b \<longrightarrow> (\<exists>h'. linkDelegate (Some a) (Some b) h = Inr h' \<and> active h' b \<and> delegateRoot h' a = Inr b \<and>
      pt_preRecv (h' ! b) = pt_preRecv (h ! b) \<and>
      pt_incoming (h' ! b) = latest 32 (pt_incoming (h ! b) @ pt_preRecv (h ! a) @ pt_incoming (h ! a)) \<and>
      pt_preRecv (h' ! a) = [] \<and> pt_incoming (h' ! a) = [])) \<and>
    (pt_incomingClosed (h ! b) \<and> 0 < queued (h ! a) \<longrightarrow> is_panic (linkDelegate (Some a) (Some b) h))"
proof (intro conjI impI)
  let ?pa = "pt_preRecv (h ! a)" and ?qa = "pt_incoming (h ! a)" and ?qb = "pt_incoming (h ! b)"
  from assms(2) have a: "a < length h" "\<not> pt_incomingClosed (h ! a)" by (auto simp: active_def)
  {
    assume b: "active h b"
    let ?h1 = "h[b := (h ! b)\<lparr>pt_incoming := latest incomingCapacity (?qb @ ?pa)\<rparr>]"
    let ?h2 = "?h1[a := (h ! a)\<lparr>pt_preRecv := []\<rparr>]"
    have len: "length (latest incomingCapacity xs) \<le> incomingCapacity" for xs :: "Envelope list" by (simp add: latest_def)
    have b2: "active ?h2 b" "?h2 ! b = (h ! b)\<lparr>pt_incoming := latest incomingCapacity (?qb @ ?pa)\<rparr>"
      using b assms(1,3) len by (simp_all add: active_def)
    define h' where "h' = ?h2[b := (?h2 ! b)\<lparr>pt_incoming := latest incomingCapacity (?qb @ ?pa @ ?qa)\<rparr>,
        a := (h ! a)\<lparr>pt_preRecv := [], pt_incoming := [], pt_delegatePeer := Some b, pt_incomingClosed := True\<rparr>]"
    have "linkDelegate (Some a) (Some b) h = Inr h'"
      using assms(1) a b2 enqueueAll_active [OF b] enqueueAll_active [OF b2(1)]
      by (simp add: linkDelegate_def latest_latest h'_def)
    moreover have "active h' b" using b b2 assms(1,3) len by (simp add: active_def h'_def)
    moreover from this have "delegateRoot h' a = Inr b"
      using assms(1) a by (intro delegateRoot_link) (simp_all add: h'_def)
    ultimately show "\<exists>h'. linkDelegate (Some a) (Some b) h = Inr h' \<and> active h' b \<and> delegateRoot h' a = Inr b \<and>
      pt_preRecv (h' ! b) = pt_preRecv (h ! b) \<and> pt_incoming (h' ! b) = latest 32 (?qb @ ?pa @ ?qa) \<and>
      pt_preRecv (h' ! a) = [] \<and> pt_incoming (h' ! a) = []"
      using assms(1,3) a by (auto simp: h'_def incomingCapacity_def)
  next
    assume closed: "pt_incomingClosed (h ! b) \<and> 0 < queued (h ! a)"
    show "is_panic (linkDelegate (Some a) (Some b) h)"
    proof (cases "?pa = []")
      case True
      with closed have "?qa \<noteq> []" by (simp add: queued_def)
      with True closed assms(1,3) a enqueueAll_closed [of b "h[a := (h ! a)\<lparr>pt_preRecv := []\<rparr>]" ?qa] show ?thesis
        by (simp add: linkDelegate_def is_panic_res_bind)
    next
      case False
      with closed assms(1,3) a enqueueAll_closed [of b h ?pa] show ?thesis
        by (simp add: linkDelegate_def is_panic_res_bind)
    qed
  }
qed

lemma recvLoop_active:
  assumes "active h r" "pt_preRecv (h ! r) = []"
  shows "recvLoop h [] (Some r) = AtChannel r"
  using assms by (subst recvLoop.simps) (simp add: active_def takePreRecv_def)

lemma recvLoop_link:
  assumes "a < length h" "pt_preRecv (h ! a) = []" "pt_delegatePeer (h ! a) = Some b" "a \<noteq> b" "active h b" "pt_preRecv (h ! b) = []"
  shows "recvLoop h [] (Some a) = AtChannel b"
proof -
  have "recvLoop h [a] (Some b) = AtChannel b"
    using assms(4-6) by (subst recvLoop.simps) (simp add: active_def takePreRecv_def)
  with assms(1-3) show ?thesis by (subst recvLoop.simps) (simp add: takePreRecv_def)
qed

text \<open>
  A receiver that is blocked on a connection when that connection is handed over does not go on
  with the survivor: its call fails with ``transport closed''.  Only the next call reads from the
  survivor.
\<close>

theorem blocked_receiver_fails:
  assumes "a \<noteq> b" and "active (cw_heap w) a" and "active (cw_heap w) b"
    and "queued (cw_heap w ! a) = 0" and "pt_preRecv (cw_heap w ! b) = []" and "pt_incoming (cw_heap w ! b) = e # q"
    and "cw_arrivals w = Link a b # rest"
  shows "\<exists>w' w''. Recv a w = Some (fail ''transport closed'', w') \<and> Recv a w' = Some (Inr (Some e), w'')"
proof -
  let ?h = "cw_heap w"
  let ?h' = "?h[a := (?h ! a)\<lparr>pt_preRecv := [], pt_incoming := [], pt_delegatePeer := Some b, pt_incomingClosed := True\<rparr>]"
  let ?w' = "w\<lparr>cw_heap := ?h', cw_arrivals := rest\<rparr>"
  from assms(2,4) have a: "a < length ?h" "pt_preRecv (?h ! a) = []" "pt_incoming (?h ! a) = []" "\<not> pt_incomingClosed (?h ! a)"
    by (auto simp: active_def queued_def)
  have "linkDelegate (Some a) (Some b) ?h = Inr ?h'"
    using assms(1) a by (simp add: linkDelegate_def)
  hence "awaitIncoming a (Link a b # rest) ?h = Some (fail ''transport closed'', rest, ?h')"
    using a by (simp add: awaitIncoming.simps [of a "Link a b # rest"] awaitIncoming.simps [of a rest])
  hence 1: "Recv a w = Some (fail ''transport closed'', ?w')"
    using recvLoop_active [OF assms(2) a(2)] assms(7) by (simp add: Recv_def)
  have "active ?h' b" "pt_preRecv (?h' ! b) = []" "pt_incoming (?h' ! b) = e # q"
    using assms(1,3,5,6) by (simp_all add: active_def)
  with assms(1) a(1) have "recvLoop ?h' [] (Some a) = AtChannel b" by (intro recvLoop_link) simp_all
  moreover have "awaitIncoming b rest ?h' = Some (Inr (Some e), rest, ?h'[b := (?h' ! b)\<lparr>pt_incoming := q\<rparr>])"
    using \<open>pt_incoming (?h' ! b) = e # q\<close> by (subst awaitIncoming.simps) simp
  ultimately show ?thesis using 1 by (auto simp: Recv_def)
qed

section \<open>Concrete transports\<close>

definition demo_message :: Envelope where
  "demo_message = envelope (Envelope_Handshake None)"

definition demo_heap :: transport_heap where
  "demo_heap = [\<lparr>pt_peerID = 1, pt_incoming = [], pt_preRecv = [], pt_delegatePeer = None, pt_incomingClosed = False\<rparr>,
     \<lparr>pt_peerID = 2, pt_incoming = [demo_message], pt_preRecv = [], pt_delegatePeer = None, pt_incomingClosed = False\<rparr>]"

lemma demo_active: "active demo_heap 0" "active demo_heap 1"
  by (simp_all add: active_def demo_heap_def incomingCapacity_def)

theorem channel_keeps_latest_witness:
  "\<exists>h'. deliver 0 (replicate 40 demo_message) demo_heap = Inr h' \<and> length (pt_incoming (h' ! 0)) = 32"
  using channel_keeps_latest [OF demo_active(1), of "replicate 40 demo_message"] by (auto simp: latest_def demo_heap_def)

theorem link_delegate_merges_witness:
  "\<exists>h'. linkDelegate (Some 1) (Some 0) demo_heap = Inr h' \<and> delegateRoot h' 1 = Inr 0 \<and> pt_incoming (h' ! 0) = [demo_message]"
  using link_delegate_merges [of 1 0 demo_heap] demo_active by (auto simp: demo_heap_def latest_def)

theorem blocked_receiver_fails_witness:
  "\<exists>w' w''. Recv 0 \<lparr>cw_heap = demo_heap, cw_arrivals = [Link 0 1], cw_native = ()\<rparr> = Some (fail ''transport closed'', w') \<and>
     Recv 0 w' = Some (Inr (Some demo_message), w'')"
proof -
  have q: "queued (demo_heap ! 0) = 0" "pt_preRecv (demo_heap ! 1) = []" "pt_incoming (demo_heap ! 1) = [demo_message]"
    by (simp_all add: queued_def demo_heap_def)
  show ?thesis
    by (rule blocked_receiver_fails [where b = 1 and q = "[]" and rest = "[]"]) (use q demo_active in simp_all)
qed

end
