(* ===== verification/Session_Pair.thy ===== *)
theory Session_Pair
  imports Cabi_Transport
begin

text \<open>
  Two sessions of \<open>transfer/engine.go\<close> facing each other: one asks for chunks of a file and the other,
  started for the request that arrives, serves them.  Each has its own chunk storage, and the
  messages travel in two queues.
\<close>

section \<open>Storing what arrives\<close>

context chunk_store
begin

lemma store_chunks:
  assumes "\<forall>i\<in>set is. fits (g i)"
  shows "\<exists>f'. storeChunks st fh (chunks_of g is) f = (Inr (), f') \<and>
    (\<forall>h j. look h j f' = (if h = bs fh \<and> j \<in> set is then Some (g j) else look h j f))"
  using assms
proof (induction "is" arbitrary: f)
  case (Cons i "is")
  obtain f1 where f1: "fs_WriteChunk st fh i (Some (g i)) f = (Inr (), f1)"
    "\<And>h j. look h j f1 = (if h = bs fh \<and> j = i then Some (g i) else look h j f)"
    using wr [of "g i" fh i f] Cons.prems by auto
  from Cons.IH [of f1] Cons.prems f1 show ?case by (auto simp: chunks_of_def)
qed (simp add: chunks_of_def)

end

section \<open>The link\<close>

record ('r, 's) link =
  lk_requester :: 'r
  lk_sender :: 's
  lk_requests :: "Envelope option list"
  lk_replies :: "Envelope option list"

definition requesterStorage :: "'r FileStorage \<Rightarrow> ('r, 's) link FileStorage" where
  "requesterStorage st =
     \<lparr>fs_ReadChunk = (\<lambda>fh i w. fs_ReadChunk st fh i (lk_requester w)),
      fs_WriteChunk = (\<lambda>fh i d w. let (r, x) = fs_WriteChunk st fh i d (lk_requester w) in (r, w\<lparr>lk_requester := x\<rparr>)),
      fs_HasChunk = (\<lambda>fh i w. fs_HasChunk st fh i (lk_requester w))\<rparr>"

definition senderStorage :: "'s FileStorage \<Rightarrow> ('r, 's) link FileStorage" where
  "senderStorage st =
     \<lparr>fs_ReadChunk = (\<lambda>fh i w. fs_ReadChunk st fh i (lk_sender w)),
      fs_WriteChunk = (\<lambda>fh i d w. let (r, x) = fs_WriteChunk st fh i d (lk_sender w) in (r, w\<lparr>lk_sender := x\<rparr>)),
      fs_HasChunk = (\<lambda>fh i w. fs_HasChunk st fh i (lk_sender w))\<rparr>"

definition senderTransport :: "('r, 's) link Transport" where
  "senderTransport =
     \<lparr>tp_Send = (\<lambda>e w. (Inr (), w\<lparr>lk_replies := lk_replies w @ [e]\<rparr>)),
      tp_Recv = (\<lambda>w. case lk_requests w of [] \<Rightarrow> None | e # q \<Rightarrow> Some (Inr e, w\<lparr>lk_requests := q\<rparr>)),
      tp_TryRecv = (\<lambda>w. case lk_requests w of [] \<Rightarrow> (None, False, w) | e # q \<Rightarrow> (e, True, w\<lparr>lk_requests := q\<rparr>)),
      tp_PutBack = (\<lambda>e w. w\<lparr>lk_requests := e # lk_requests w\<rparr>)\<rparr>"

text \<open>The other device takes the oldest message and, when it is a request, runs a session for it.\<close>

definition peerAnswers :: "('r, 's) link session_env \<Rightarrow> (TransferRequest \<Rightarrow> ('r, 's) link TransferSession) \<Rightarrow> ('r, 's) link \<Rightarrow> ('r, 's) link option" where
  "peerAnswers en session w =
     (case lk_requests w of
        Some e # q \<Rightarrow>
          (case env_Payload e of
             Some (Envelope_TransferRequest (Some req)) \<Rightarrow> map_option (\<lambda>(_, _, w'). w') (RunSession en (session req) (w\<lparr>lk_requests := q\<rparr>))
           | _ \<Rightarrow> None)
      | _ \<Rightarrow> None)"

text \<open>While the requester is blocked in a receive the other device runs; nothing else can wake it.\<close>

definition requesterTransport :: "(('r, 's) link \<Rightarrow> ('r, 's) link option) \<Rightarrow> ('r, 's) link Transport" where
  "requesterTransport peer =
     \<lparr>tp_Send = (\<lambda>e w. (Inr (), w\<lparr>lk_requests := lk_requests w @ [e]\<rparr>)),
      tp_Recv = (\<lambda>w. case lk_replies w of
          e # q \<Rightarrow> Some (Inr e, w\<lparr>lk_replies := q\<rparr>)
        | [] \<Rightarrow> Option.bind (peer w) (\<lambda>w. case lk_replies w of [] \<Rightarrow> None | e # q \<Rightarrow> Some (Inr e, w\<lparr>lk_replies := q\<rparr>))),
      tp_TryRecv = (\<lambda>w. case lk_replies w of [] \<Rightarrow> (None, False, w) | e # q \<Rightarrow> (e, True, w\<lparr>lk_replies := q\<rparr>)),
      tp_PutBack = (\<lambda>e w. w\<lparr>lk_replies := e # lk_replies w\<rparr>)\<rparr>"

lemma requesterStorage_ok: "chunk_store st look fits \<Longrightarrow> chunk_store (requesterStorage st) (\<lambda>h i w. look h i (lk_requester w)) fits"
  by (rule chunk_store.lifted [where put = "\<lambda>x w. w\<lparr>lk_requester := x\<rparr>"]) (simp_all add: requesterStorage_def)

lemma senderStorage_ok: "chunk_store st look fits \<Longrightarrow> chunk_store (senderStorage st) (\<lambda>h i w. look h i (lk_sender w)) fits"
  by (rule chunk_store.lifted [where put = "\<lambda>x w. w\<lparr>lk_sender := x\<rparr>"]) (simp_all add: senderStorage_def)

lemma storeChunks_requester:
  "storeChunks (requesterStorage st) fh cs w = (let (r, x) = storeChunks st fh cs (lk_requester w) in (r, w\<lparr>lk_requester := x\<rparr>))"
  by (induction cs arbitrary: w) (auto simp: requesterStorage_def Let_def split: prod.split sum.split)

text \<open>
  The two sessions, set up with a storage and a pending request as \<open>startSession\<close> of \<open>cabi/flow_adapters.go\<close> does.
  Their chain and balance are nil: a session with a pending request and a storage uses neither.
\<close>

definition senderSession ::
  "'s FileStorage \<Rightarrow> (byte list \<Rightarrow> slice res) option \<Rightarrow> TransferRequest \<Rightarrow> ('r, 's) link TransferSession" where
  "senderSession st signer req = SetPendingRequest (Some req) (SetFileStorage (Some (senderStorage st))
     (NewSession ''requester'' DirectionInbound (tr_FileHash req) (Some senderTransport) None None signer))"

definition requesterSession ::
  "'r FileStorage \<Rightarrow> (byte list \<Rightarrow> slice res) option \<Rightarrow> (('r, 's) link \<Rightarrow> ('r, 's) link option) \<Rightarrow> TransferRequest \<Rightarrow> ('r, 's) link TransferSession" where
  "requesterSession st signer peer req = SetPendingRequest (Some req) (SetFileStorage (Some (requesterStorage st))
     (NewSession ''sender'' DirectionOutbound (tr_FileHash req) (Some (requesterTransport peer)) None None signer))"

section \<open>One exchange\<close>

definition request_message :: "TransferRequest \<Rightarrow> Envelope option" where
  "request_message req = Some (envelope (Envelope_TransferRequest (Some req)))"

definition batch_message :: "byte list \<Rightarrow> (uint32 \<Rightarrow> byte list) \<Rightarrow> uint32 list \<Rightarrow> Envelope option" where
  "batch_message h g is = Some (envelope (Envelope_ChunkBatch (Some \<lparr>cb_FileHash = Some h, cb_Chunks = chunks_of g is\<rparr>)))"

lemma peer_answers:
  assumes "chunk_store st look fits" and "bs (tr_FileHash req) \<noteq> []" and "tr_ChunkIndices req \<noteq> []"
    and "\<forall>i\<in>set (tr_ChunkIndices req). look (bs (tr_FileHash req)) i (lk_sender w) \<noteq> None" and "\<And>w. se_ctx_Err en w = None"
    and "lk_requests w = [request_message req]"
  shows "peerAnswers en (senderSession st signer) w =
    Some (w\<lparr>lk_requests := [], lk_replies := lk_replies w @ [batch_message (bs (tr_FileHash req))
      (\<lambda>i. the (look (bs (tr_FileHash req)) i (lk_sender w))) (take 64 (tr_ChunkIndices req))]\<rparr>)"
proof -
  note fields = senderSession_def SetPendingRequest_def SetFileStorage_def NewSession_def
  let ?w = "w\<lparr>lk_requests := []\<rparr>" and ?is = "take 64 (tr_ChunkIndices req)" and ?h = "bs (tr_FileHash req)"
  let ?b = "\<lparr>cb_FileHash = Some ?h, cb_Chunks = chunks_of (\<lambda>i. the (look ?h i (lk_sender w))) ?is\<rparr>"
  note ok = senderStorage_ok [OF assms(1)]
  have m: "MissingChunkIndices (Some (senderStorage st)) (tr_FileHash req) (tr_ChunkIndices req) ?w = Inr []"
    using assms(4) by (simp add: chunk_store.missing [OF ok assms(2)])
  have "BuildBatch (Some (senderStorage st)) (tr_FileHash req) ?is (int (length ?is)) ?w = Inr ?b"
    using assms(3,4) chunk_store.batch [OF ok assms(2), of ?is ?w] by (auto dest: in_set_takeD)
  from sender_run [OF _ _ _ _ _ assms(3) m this, of "senderSession st signer req" senderTransport _ en]
  have "\<exists>s'. RunSession en (senderSession st signer req) ?w = Some (Inr (), s', ?w\<lparr>lk_replies := lk_replies w @ [Some (envelope (Envelope_ChunkBatch (Some ?b)))]\<rparr>)"
    by (simp add: fields senderTransport_def assms(5))
  with assms(6) show ?thesis by (auto simp: peerAnswers_def request_message_def batch_message_def envelope_def)
qed

text \<open>The first visit of the requester to the transfer: the missing chunks are asked for.\<close>

definition signer_ok :: "(byte list \<Rightarrow> slice res) option \<Rightarrow> bool" where
  "signer_ok signer \<longleftrightarrow> (\<forall>sign m. signer = Some sign \<longrightarrow> (\<exists>sig. sign m = Inr sig))"

lemma request_sent:
  assumes "ss_pendingRequest s = Some req" "ss_storage s = Some st" "ss_transport s = Some t" "ss_Direction s = DirectionOutbound"
    and "\<not> ss_outboundChunkRequestSent s" and "MissingChunkIndices (Some st) (tr_FileHash req) (tr_ChunkIndices req) w = Inr ms" and "ms \<noteq> []"
    and "signer_ok (ss_signer s)" and "\<And>e w. fst (tp_Send t e w) = Inr ()"
  shows "\<exists>req'. tr_FileHash req' = tr_FileHash req \<and> tr_ChunkIndices req' = ms \<and>
    handleTransferring en s w = Some (Next StateTransferring, s\<lparr>ss_pendingRequest := Some req', ss_outboundChunkRequestSent := True\<rparr>,
      snd (tp_Send t (request_message req') w))"
proof -
  let ?q = "req\<lparr>tr_ChunkIndices := ms\<rparr>"
  have "\<exists>req'. tr_FileHash req' = tr_FileHash req \<and> tr_ChunkIndices req' = ms \<and> (case ss_signer s of None \<Rightarrow> Inr ?q
      | Some sign \<Rightarrow> res_bind (sign (TransferRequestSignableBytes ?q)) (\<lambda>sig. Inr (?q\<lparr>tr_Signature := sig\<rparr>))) = Inr req'"
  proof (cases "ss_signer s")
    case (Some sign)
    with assms(8) obtain sig where "sign (TransferRequestSignableBytes ?q) = Inr sig" by (auto simp: signer_ok_def)
    with Some show ?thesis by (intro exI [of _ "?q\<lparr>tr_Signature := sig\<rparr>"]) simp
  qed simp
  then obtain req' where req': "tr_FileHash req' = tr_FileHash req" "tr_ChunkIndices req' = ms"
    "(case ss_signer s of None \<Rightarrow> Inr ?q
      | Some sign \<Rightarrow> res_bind (sign (TransferRequestSignableBytes ?q)) (\<lambda>sig. Inr (?q\<lparr>tr_Signature := sig\<rparr>))) = Inr req'" by blast
  obtain w1 where send: "tp_Send t (request_message req') w = (Inr (), w1)"
    using assms(9) [of "request_message req'" w] by (cases "tp_Send t (request_message req') w") simp
  have "requestChunks req ms s w = Some (Next StateTransferring, s\<lparr>ss_pendingRequest := Some req', ss_outboundChunkRequestSent := True\<rparr>, w1)"
    using req'(3) send assms(3) by (simp add: requestChunks_def or_stop_def send_or_stop_def request_message_def Let_def)
  with req' assms(1-7) send show ?thesis
    by (intro exI [of _ req']) (simp add: handleTransferring_def or_stop_def DirectionOutbound_def DirectionInbound_def)
qed

text \<open>
  The wait of the requester, with its request on the way: the batch of the first 64 chunks arrives,
  and then nothing more.
\<close>

lemma requester_waits:
  fixes w :: "('r, 's) link" and req :: TransferRequest and looks :: "byte list \<Rightarrow> uint32 \<Rightarrow> 's \<Rightarrow> byte list option"
  defines "h \<equiv> bs (tr_FileHash req)" and "g \<equiv> \<lambda>i. the (looks (bs (tr_FileHash req)) i (lk_sender w))"
  assumes stores: "chunk_store sts looks fits" "chunk_store str lookr fits" and req: "h \<noteq> []" "tr_ChunkIndices req \<noteq> []"
    and there: "\<forall>i\<in>set (tr_ChunkIndices req). looks h i (lk_sender w) \<noteq> None \<and> lookr h i (lk_requester w) = None"
    and ctx: "\<And>w. se_ctx_Err en w = None" and queues: "lk_requests w = [request_message req]" "lk_replies w = []"
  shows "\<exists>x. (\<forall>k j. lookr k j x = (if k = h \<and> j \<in> set (take 64 (tr_ChunkIndices req)) then Some (g j) else lookr k j (lk_requester w))) \<and>
    waitForChunks (Some (requesterTransport (peerAnswers en (senderSession sts signer)))) (requesterStorage str) req w =
      (if set (tr_ChunkIndices req) \<subseteq> set (take 64 (tr_ChunkIndices req))
       then Some (Next StateComplete, w\<lparr>lk_requester := x, lk_requests := []\<rparr>) else None)"
proof -
  let ?t = "requesterTransport (peerAnswers en (senderSession sts signer))" and ?is = "take 64 (tr_ChunkIndices req)"
  let ?step = "waitStep (Some ?t) (requesterStorage str) req"
  note ok = requesterStorage_ok [OF stores(2)]
  have fit: "\<forall>i\<in>set ?is. fits (g i)"
    using there chunk_store.stored [OF stores(1)] unfolding g_def h_def by (fastforce dest: in_set_takeD)
  obtain x where x: "storeChunks str (Some h) (chunks_of g ?is) (lk_requester w) = (Inr (), x)"
    "\<forall>k j. lookr k j x = (if k = h \<and> j \<in> set ?is then Some (g j) else lookr k j (lk_requester w))"
    using chunk_store.store_chunks [OF stores(2) fit, of "Some h" "lk_requester w"] by auto
  let ?w = "w\<lparr>lk_requester := x, lk_requests := []\<rparr>"
  have missing: "MissingChunkIndices (Some (requesterStorage str)) (tr_FileHash req) (tr_ChunkIndices req) v =
      Inr (filter (\<lambda>i. lookr h i (lk_requester v) = None) (tr_ChunkIndices req))" for v :: "('r, 's) link"
    using chunk_store.missing [OF ok] req(1) by (simp add: h_def)
  have m1: "filter (\<lambda>i. lookr h i (lk_requester w) = None) (tr_ChunkIndices req) = tr_ChunkIndices req"
    using there by (auto intro: filter_True)
  have recv: "tp_Recv ?t w = Some (Inr (batch_message h g ?is), w\<lparr>lk_requests := []\<rparr>)"
    using peer_answers [OF stores(1) _ req(2) _ ctx queues(1), of signer] req(1) there queues(2)
    by (simp add: requesterTransport_def h_def g_def)
  have 1: "?step w = Some (Inl ?w)"
    using req(2) x(1) recv by (simp add: waitStep_def missing m1 batch_message_def storeChunks_requester)
  have m2: "filter (\<lambda>i. lookr h i x = None) (tr_ChunkIndices req) = [] \<longleftrightarrow> set (tr_ChunkIndices req) \<subseteq> set ?is"
    using x(2) there by (auto simp: filter_empty_conv)
  have drain: "drainBatches ?t (requesterStorage str) ?w = Some (Inr (), ?w)"
    unfolding drainBatches_def by (rule for_ever_unfold(3)) (simp add: drainStep_def requesterTransport_def queues(2))
  have 2: "?step ?w = (if set (tr_ChunkIndices req) \<subseteq> set ?is then Some (Inr (Next StateComplete, ?w)) else None)"
  proof (cases "set (tr_ChunkIndices req) \<subseteq> set ?is")
    case True
    with m2 drain show ?thesis by (simp add: waitStep_def missing)
  next
    case False
    moreover have "tp_Recv ?t ?w = None" by (simp add: requesterTransport_def queues(2) peerAnswers_def)
    ultimately show ?thesis using m2 by (simp add: waitStep_def missing)
  qed
  have "waitForChunks (Some ?t) (requesterStorage str) req w = for_ever ?step ?w"
    unfolding waitForChunks_def by (rule for_ever_unfold(2) [of ?step, OF 1])
  also have "\<dots> = (if set (tr_ChunkIndices req) \<subseteq> set ?is then Some (Next StateComplete, ?w) else None)"
    using 2 for_ever_unfold(1,3) [of ?step ?w] by simp
  finally show ?thesis using x(2) by blast
qed

text \<open>The session loop around the visits to the transfer: another visit, completion, or no return.\<close>

lemma transfer_visit:
  assumes "se_ctx_Err en w = None" and "ss_State s = StateTransferring"
  shows "handleTransferring en s w = Some (Next StateTransferring, s', w') \<Longrightarrow> ss_State s' = StateTransferring \<Longrightarrow>
      for_ever (sessionStep en) (s, w) = for_ever (sessionStep en) (s', w')"
    and "handleTransferring en s w = Some (Next StateComplete, s', w') \<Longrightarrow> ss_State s' = StateTransferring \<Longrightarrow> ss_err s' = None \<Longrightarrow>
      se_ctx_Err en w' = None \<Longrightarrow> for_ever (sessionStep en) (s, w) = Some (Inr (), s'\<lparr>ss_State := StateComplete\<rparr>, w')"
    and "handleTransferring en s w = None \<Longrightarrow> for_ever (sessionStep en) (s, w) = None"
proof goal_cases
  case 1
  have "sessionStep en (s, w) = Some (Inl (s'\<lparr>ss_State := StateTransferring\<rparr>, w'))"
    using 1 assms by (simp add: session_step_defs state_defs)
  moreover have "s'\<lparr>ss_State := StateTransferring\<rparr> = s'" using 1(2) by simp
  ultimately show ?case by (simp add: for_ever_unfold(2))
next
  case 2
  have "sessionStep en (s, w) = Some (Inl (s'\<lparr>ss_State := StateComplete\<rparr>, w'))"
    using 2 assms by (simp add: session_step_defs state_defs)
  moreover have "sessionStep en (s'\<lparr>ss_State := StateComplete\<rparr>, w') = Some (Inr (Inr (), s'\<lparr>ss_State := StateComplete\<rparr>, w'))"
    using 2 by (simp add: session_step_defs getErr_def state_defs)
  ultimately show ?case by (simp add: for_ever_unfold(2,3))
next
  case 3
  thus ?case using assms by (intro for_ever_unfold(1)) (simp add: session_step_defs state_defs)
qed

lemma requesterSession_run:
  "RunSession en (requesterSession st signer peer req) w =
   for_ever (sessionStep en) ((requesterSession st signer peer req)\<lparr>ss_State := StateTransferring\<rparr>, w)"
  by (subst RunSession_idle) (simp_all add: requesterSession_def SetPendingRequest_def SetFileStorage_def NewSession_def)

text \<open>The whole run of the requester when something is missing.\<close>

lemma requester_run:
  fixes w :: "('r, 's) link" and looks :: "byte list \<Rightarrow> uint32 \<Rightarrow> 's \<Rightarrow> byte list option" and req :: TransferRequest
  defines "h \<equiv> bs (tr_FileHash req)"
  assumes stores: "chunk_store sts looks fits" "chunk_store str lookr fits" and sign: "signer_ok signer" and h: "h \<noteq> []"
    and ms: "ms = filter (\<lambda>i. lookr h i (lk_requester w) = None) (tr_ChunkIndices req)" "ms \<noteq> []"
    and there: "\<forall>i\<in>set ms. looks h i (lk_sender w) \<noteq> None"
    and ctx: "\<And>w. se_ctx_Err en w = None" "\<And>w. se_ctx_Err en' w = None" and queues: "lk_requests w = []" "lk_replies w = []"
  shows "\<exists>x s'. (\<forall>k j. lookr k j x = (if k = h \<and> j \<in> set (take 64 ms) then looks h j (lk_sender w) else lookr k j (lk_requester w))) \<and>
    ss_State s' = StateComplete \<and>
    RunSession en (requesterSession str signer (peerAnswers en' (senderSession sts signer')) req) w =
      (if set ms \<subseteq> set (take 64 ms) then Some (Inr (), s', w\<lparr>lk_requester := x\<rparr>) else None)"
proof -
  let ?t = "requesterTransport (peerAnswers en' (senderSession sts signer'))"
  let ?s = "(requesterSession str signer (peerAnswers en' (senderSession sts signer')) req)\<lparr>ss_State := StateTransferring\<rparr>"
  note fields = requesterSession_def SetPendingRequest_def SetFileStorage_def NewSession_def
  have missing: "MissingChunkIndices (Some (requesterStorage str)) (tr_FileHash req) (tr_ChunkIndices req) w = Inr ms"
    using chunk_store.missing [OF requesterStorage_ok [OF stores(2)]] h by (simp add: h_def ms(1))
  obtain req' where req': "tr_FileHash req' = tr_FileHash req" "tr_ChunkIndices req' = ms"
    and h1: "handleTransferring en ?s w = Some (Next StateTransferring, ?s\<lparr>ss_pendingRequest := Some req', ss_outboundChunkRequestSent := True\<rparr>,
      snd (tp_Send ?t (request_message req') w))"
    using request_sent [OF _ _ _ _ _ missing ms(2), of ?s ?t en] sign by (auto simp: fields requesterTransport_def)
  let ?s2 = "?s\<lparr>ss_pendingRequest := Some req', ss_outboundChunkRequestSent := True\<rparr>" and ?w = "w\<lparr>lk_requests := [request_message req']\<rparr>"
  have w1: "snd (tp_Send ?t (request_message req') w) = ?w" by (simp add: requesterTransport_def queues(1))
  have missing2: "MissingChunkIndices (Some (requesterStorage str)) (tr_FileHash req') (tr_ChunkIndices req') ?w = Inr ms"
    using h by (simp add: h_def ms(1) req' chunk_store.missing [OF requesterStorage_ok [OF stores(2)]])
  have "\<forall>i\<in>set (tr_ChunkIndices req'). looks (bs (tr_FileHash req')) i (lk_sender ?w) \<noteq> None \<and> lookr (bs (tr_FileHash req')) i (lk_requester ?w) = None"
    using there by (simp add: req' ms(1) h_def)
  with requester_waits [OF stores, of req' ?w en' signer'] h ms(2) ctx(2) queues(2)
  have "\<exists>x. (\<forall>k j. lookr k j x = (if k = h \<and> j \<in> set (take 64 ms) then Some (the (looks h j (lk_sender w))) else lookr k j (lk_requester w))) \<and>
    waitForChunks (Some ?t) (requesterStorage str) req' ?w =
      (if set ms \<subseteq> set (take 64 ms) then Some (Next StateComplete, w\<lparr>lk_requester := x, lk_requests := []\<rparr>) else None)"
    by (simp add: req' h_def cong: if_cong split del: if_split)
  then obtain x where x: "\<forall>k j. lookr k j x = (if k = h \<and> j \<in> set (take 64 ms) then Some (the (looks h j (lk_sender w))) else lookr k j (lk_requester w))"
    and wait: "waitForChunks (Some ?t) (requesterStorage str) req' ?w =
      (if set ms \<subseteq> set (take 64 ms) then Some (Next StateComplete, w\<lparr>lk_requester := x, lk_requests := []\<rparr>) else None)" by blast
  have same: "w\<lparr>lk_requester := x, lk_requests := []\<rparr> = w\<lparr>lk_requester := x\<rparr>" using queues(1) by simp
  have h2: "handleTransferring en ?s2 ?w = Option.bind (waitForChunks (Some ?t) (requesterStorage str) req' ?w) (\<lambda>(r, w). Some (r, ?s2, w))"
    using missing2 ms(2)
    by (simp add: handleTransferring_def or_stop_def fields DirectionOutbound_def DirectionInbound_def)
  have "ss_err ?s2 = None" by (simp add: fields)
  with h2 wait same transfer_visit [of en ?w ?s2] ctx(1)
  have "for_ever (sessionStep en) (?s2, ?w) =
      (if set ms \<subseteq> set (take 64 ms) then Some (Inr (), ?s2\<lparr>ss_State := StateComplete\<rparr>, w\<lparr>lk_requester := x\<rparr>) else None)"
    by (simp split: if_splits)
  moreover have "for_ever (sessionStep en) (?s, w) = for_ever (sessionStep en) (?s2, ?w)"
    using h1 w1 ctx(1) by (intro transfer_visit(1)) simp_all
  ultimately show ?thesis
    using x there by (intro exI [of _ x] exI [of _ "?s2\<lparr>ss_State := StateComplete\<rparr>"]) (auto simp: requesterSession_run dest: in_set_takeD)
qed

section \<open>Properties\<close>

text \<open>
  C3. Two devices exchange a file.  When the sender has the chunks that the requester misses, and these
  are at most 64, the requester's session returns without error and is complete: the requester then has
  for each of them exactly what the sender has, its other chunks are what they were, and the
  sender's storage is unchanged.
\<close>

theorem transfer_copies_chunks:
  assumes "chunk_store sts looks fits" and "chunk_store str lookr fits" and "signer_ok signer" and "h = bs (tr_FileHash req)" and "h \<noteq> []"
    and "ms = filter (\<lambda>i. lookr h i (lk_requester w) = None) (tr_ChunkIndices req)" and "length ms \<le> 64"
    and "\<forall>i\<in>set ms. looks h i (lk_sender w) \<noteq> None"
    and "\<And>w. se_ctx_Err en w = None" and "\<And>w. se_ctx_Err en' w = None" and "lk_requests w = []" and "lk_replies w = []"
  shows "\<exists>s' w'. RunSession en (requesterSession str signer (peerAnswers en' (senderSession sts signer')) req) w = Some (Inr (), s', w') \<and>
    ss_State s' = StateComplete \<and> lk_sender w' = lk_sender w \<and>
    (\<forall>k j. lookr k j (lk_requester w') = (if k = h \<and> j \<in> set ms then looks h j (lk_sender w) else lookr k j (lk_requester w)))"
proof (cases "ms = []")
  case True
  let ?s = "(requesterSession str signer (peerAnswers en' (senderSession sts signer')) req)\<lparr>ss_State := StateTransferring\<rparr>"
  note fields = requesterSession_def SetPendingRequest_def SetFileStorage_def NewSession_def
  have "MissingChunkIndices (Some (requesterStorage str)) (tr_FileHash req) (tr_ChunkIndices req) w = Inr []"
    using assms(4-6) True by (simp add: chunk_store.missing [OF requesterStorage_ok [OF assms(2)]])
  hence "handleTransferring en ?s w = Some (Next StateComplete, ?s, w)"
    by (simp add: handleTransferring_def or_stop_def fields DirectionOutbound_def DirectionInbound_def)
  moreover have "ss_err ?s = None" by (simp add: fields)
  ultimately show ?thesis using transfer_visit(2) [of en w ?s ?s w] assms(9) True by (simp add: requesterSession_run)
next
  case False
  from requester_run [OF assms(1-3) _ _ False, of req w en en' signer'] assms(4-12) show ?thesis by fastforce
qed

text \<open>Two devices over the C interface's storage with the chunks in memory: the sender has one byte for every index of the file.\<close>

definition memory_device :: "chunk_memory \<Rightarrow> chunk_memory cabi" where
  "memory_device m = \<lparr>cw_heap = [], cw_arrivals = [], cw_native = m\<rparr>"

definition demo_link :: "(chunk_memory cabi, chunk_memory cabi) link" where
  "demo_link = \<lparr>lk_requester = memory_device (\<lambda>h i. None), lk_sender = memory_device (\<lambda>h i. if h = [2] then Some [7] else None),
     lk_requests = [], lk_replies = []\<rparr>"

lemma demo_link_look:
  "memory_look h i (cw_native (lk_requester demo_link)) = None" "memory_look [2] i (cw_native (lk_sender demo_link)) = Some [7]"
  "lk_requests demo_link = []" "lk_replies demo_link = []"
  by (simp_all add: demo_link_def memory_device_def memory_look_def chunk_fits_def)

theorem transfer_copies_chunks_witness:
  "\<exists>s' w'. RunSession demo_session_env (requesterSession (cabiFileStorage memory_callbacks) None
       (peerAnswers demo_session_env (senderSession (cabiFileStorage memory_callbacks) None)) demo_request) demo_link = Some (Inr (), s', w') \<and>
     memory_look [2] 5 (cw_native (lk_requester w')) = Some [7]"
proof -
  have "\<exists>s' w'. RunSession demo_session_env (requesterSession (cabiFileStorage memory_callbacks) None
      (peerAnswers demo_session_env (senderSession (cabiFileStorage memory_callbacks) None)) demo_request) demo_link = Some (Inr (), s', w') \<and>
    ss_State s' = StateComplete \<and> lk_sender w' = lk_sender demo_link \<and>
    (\<forall>k j. memory_look k j (cw_native (lk_requester w')) = (if k = [2] \<and> j \<in> set [5]
       then memory_look [2] j (cw_native (lk_sender demo_link)) else memory_look k j (cw_native (lk_requester demo_link))))"
    by (rule transfer_copies_chunks [OF memory_chunks.chunk_store_axioms memory_chunks.chunk_store_axioms])
      (simp_all add: signer_ok_def demo_request_def demo_link_look)
  thus ?thesis by (auto simp: demo_link_look)
qed

text \<open>
  C18. A file of more than 64 missing chunks is never received over one session: the sender answers a
  request with one batch and is done, the requester asks only once, and it then waits for ever for the
  rest.
\<close>

theorem transfer_of_more_than_64_chunks_hangs:
  assumes "chunk_store sts looks fits" and "chunk_store str lookr fits" and "signer_ok signer" and "h = bs (tr_FileHash req)" and "h \<noteq> []"
    and "ms = filter (\<lambda>i. lookr h i (lk_requester w) = None) (tr_ChunkIndices req)" and "64 < length ms" and "distinct (tr_ChunkIndices req)"
    and "\<forall>i\<in>set ms. looks h i (lk_sender w) \<noteq> None"
    and "\<And>w. se_ctx_Err en w = None" and "\<And>w. se_ctx_Err en' w = None" and "lk_requests w = []" and "lk_replies w = []"
  shows "RunSession en (requesterSession str signer (peerAnswers en' (senderSession sts signer')) req) w = None"
proof -
  have "distinct ms" using assms(6,8) by simp
  with assms(7) have "ms ! 64 \<notin> set (take 64 ms)" by (auto simp: in_set_conv_nth nth_eq_iff_index_eq)
  with assms(7) have "\<not> set ms \<subseteq> set (take 64 ms)" by (meson nth_mem subsetD)
  moreover have "ms \<noteq> []" using assms(7) by auto
  ultimately show ?thesis
    using requester_run [OF assms(1-3) _ assms(6) [unfolded assms(4)], of en en' signer'] assms(4,5,9-13) by auto
qed

definition demo_large_request :: TransferRequest where
  "demo_large_request = demo_request\<lparr>tr_ChunkIndices := map of_nat [0..<65]\<rparr>"

theorem transfer_of_more_than_64_chunks_hangs_witness:
  "RunSession demo_session_env (requesterSession (cabiFileStorage memory_callbacks) None
     (peerAnswers demo_session_env (senderSession (cabiFileStorage memory_callbacks) None)) demo_large_request) demo_link = None"
proof -
  have "inj_on (of_nat :: nat \<Rightarrow> uint32) {0..<65}"
    by (rule inj_on_inverseI [where g = unat]) (simp add: unat_of_nat)
  hence "distinct (map of_nat [0..<65] :: uint32 list)"
    by (simp add: distinct_map del: upt_Suc)
  thus ?thesis
    by (intro transfer_of_more_than_64_chunks_hangs [OF memory_chunks.chunk_store_axioms memory_chunks.chunk_store_axioms _ refl _ refl])
      (simp_all add: signer_ok_def demo_large_request_def demo_request_def demo_link_look del: upt_Suc)
qed

end
