(* ===== verification/Manager.thy ===== *)
theory Manager
  imports Session_Props
begin

text \<open>
  The table of sessions (\<open>transfer/manager.go\<close>) and the persistence of their states
  (\<open>transfer/persist.go\<close>).  The table holds pointers: the sessions are objects of a heap that the
  goroutines of the sessions change while they are in the table, so every operation that looks at
  a session takes the heap of that moment.
\<close>

type_synonym session_ref = nat
type_synonym 'w session_heap = "session_ref \<Rightarrow> 'w TransferSession"

section \<open>The session table\<close>

record SessionManager =
  sm_sessions :: "string \<rightharpoonup> session_ref option"
  sm_maxConc :: int

definition NewSessionManager :: "int \<Rightarrow> SessionManager" where
  "NewSessionManager maxConcurrent =
     \<lparr>sm_sessions = Map.empty, sm_maxConc = (if maxConcurrent \<le> 0 then 1 else maxConcurrent)\<rparr>"

definition Add :: "'w session_heap \<Rightarrow> session_ref option \<Rightarrow> (SessionManager, unit) op" where
  "Add h p m =
     (case p of
        None \<Rightarrow> (fail ''session is nil'', m)
      | Some s \<Rightarrow>
          if ss_ID (h s) = [] then (fail ''session id is empty'', m)
          else if sm_sessions m (ss_ID (h s)) \<noteq> None then (fail (''session already exists: '' @ ss_ID (h s)), m)
          else if int (card (dom (sm_sessions m))) \<ge> sm_maxConc m
          then (fail (''max concurrent sessions reached: '' @ itoa_s (sm_maxConc m)), m)
          else (Inr (), m\<lparr>sm_sessions := (sm_sessions m)(ss_ID (h s) \<mapsto> p)\<rparr>))"

definition Get :: "string \<Rightarrow> SessionManager \<Rightarrow> session_ref option \<times> bool" where
  "Get sid m = (case sm_sessions m sid of None \<Rightarrow> (None, False) | Some p \<Rightarrow> (p, True))"

text \<open>Loops over a Go map visit its keys in an order that is not specified: an argument.\<close>

definition GetByPeer :: "'w session_heap \<Rightarrow> string list \<Rightarrow> string \<Rightarrow> SessionManager \<Rightarrow> session_ref option \<times> bool" where
  "GetByPeer h order peerID m =
     (case List.find (\<lambda>sid. case sm_sessions m sid of Some (Some s) \<Rightarrow> ss_PeerID (h s) = peerID | _ \<Rightarrow> False) order of
        None \<Rightarrow> (None, False)
      | Some sid \<Rightarrow> (the (sm_sessions m sid), True))"

definition Remove :: "string \<Rightarrow> SessionManager \<Rightarrow> SessionManager" where
  "Remove sid m = m\<lparr>sm_sessions := (sm_sessions m)(sid := None)\<rparr>"

definition ActiveCount :: "SessionManager \<Rightarrow> nat" where
  "ActiveCount m = card (dom (sm_sessions m))"

definition List_sessions :: "string list \<Rightarrow> SessionManager \<Rightarrow> session_ref option list" where
  "List_sessions order m = [p. sid \<leftarrow> order, Some p \<leftarrow> [sm_sessions m sid]]"

definition completed :: "'w session_heap \<Rightarrow> session_ref option \<Rightarrow> bool" where
  "completed h p =
     (case p of None \<Rightarrow> True
      | Some s \<Rightarrow> ss_State (h s) = StateComplete \<or> ss_State (h s) = StateFailed \<or> ss_State (h s) = StateRejected)"

fun removeLoop :: "'w session_heap \<Rightarrow> string list \<Rightarrow> nat \<Rightarrow> SessionManager \<Rightarrow> nat \<times> SessionManager" where
  "removeLoop h [] removed m = (removed, m)"
| "removeLoop h (sid # order) removed m =
     (case sm_sessions m sid of
        None \<Rightarrow> removeLoop h order removed m
      | Some p \<Rightarrow> if completed h p then removeLoop h order (removed + 1) (Remove sid m) else removeLoop h order removed m)"

definition RemoveCompleted :: "'w session_heap \<Rightarrow> string list \<Rightarrow> SessionManager \<Rightarrow> nat \<times> SessionManager" where
  "RemoveCompleted h order m = removeLoop h order 0 m"

section \<open>Persistence\<close>

text \<open>\<open>now\<close> is \<open>time.Now().Unix()\<close>.\<close>

definition CheckpointTransferState :: "engine \<Rightarrow> int64 \<Rightarrow> Store option \<Rightarrow> 'w TransferSession option \<Rightarrow> Store res" where
  "CheckpointTransferState en now db session =
     (case db of
        None \<Rightarrow> fail ''db is required''
      | Some store \<Rightarrow>
     (case session of
        None \<Rightarrow> fail ''session is required''
      | Some s \<Rightarrow>
          let row = \<lparr>ts_ID = ss_ID s, ts_PeerID = ss_PeerID s, ts_Direction = ss_Direction s, ts_FileHash = clone (ss_FileHash s),
                     ts_State = ss_State s, ts_LastError = [], ts_UpdatedAt = now\<rparr>;
              row = (case ss_err s of None \<Rightarrow> row | Some e \<Rightarrow> row\<lparr>ts_LastError := Error e\<rparr>)
          in UpsertTransferState en row store))"

definition recoverSession :: "TransferStateRow \<Rightarrow> 'w TransferSession" where
  "recoverSession row =
     \<lparr>ss_ID = ts_ID row, ss_PeerID = ts_PeerID row, ss_Direction = ts_Direction row, ss_FileHash = clone (ts_FileHash row),
      ss_State = ts_State row, ss_transport = None, ss_chain = None, ss_balance = None, ss_signer = None, ss_storage = None,
      ss_policyStore = None, ss_localPubKey = None, ss_pendingRequest = None, ss_outboundChunkRequestSent = False,
      ss_err = (if ts_LastError row \<noteq> [] then Some (Errorf (ts_LastError row)) else None)\<rparr>"

definition RecoverSessions :: "engine \<Rightarrow> Store option \<Rightarrow> 'w TransferSession list res" where
  "RecoverSessions en db =
     (case db of
        None \<Rightarrow> fail ''db is required''
      | Some store \<Rightarrow> res_bind (GetAllTransferStates en store) (\<lambda>rows. Inr (map recoverSession rows)))"

section \<open>The contract of the table\<close>

text \<open>
  What the table promises to the node: a bounded map from ids to sessions.  The operations of
  \<open>step\<close> may be interleaved in any order; each either adds one fresh binding while there is room,
  or only removes bindings.
\<close>

locale bounded_table =
  fixes view :: "'t \<Rightarrow> 'k \<rightharpoonup> 'v"
    and capacity :: "'t \<Rightarrow> int"
    and step :: "'o \<Rightarrow> 't \<Rightarrow> 't"
  assumes step_capacity: "capacity (step op t) = capacity t"
    and step_view: "view (step op t) \<subseteq>\<^sub>m view t \<or>
      (\<exists>k v. view t k = None \<and> int (card (dom (view t))) < capacity t \<and> view (step op t) = (view t)(k \<mapsto> v))"
begin

lemma step_bounded:
  assumes "finite (dom (view t))" "int (card (dom (view t))) \<le> capacity t"
  shows "finite (dom (view (step op t))) \<and> int (card (dom (view (step op t)))) \<le> capacity t"
  using step_view [of op t]
proof
  assume "view (step op t) \<subseteq>\<^sub>m view t"
  hence "dom (view (step op t)) \<subseteq> dom (view t)" by (rule map_le_implies_dom_le)
  with assms finite_subset [OF this] card_mono [OF assms(1) this] show ?thesis by simp
next
  assume "\<exists>k v. view t k = None \<and> int (card (dom (view t))) < capacity t \<and> view (step op t) = (view t)(k \<mapsto> v)"
  with assms show ?thesis by (auto simp: card_insert_if)
qed

lemma steps_bounded:
  assumes "finite (dom (view t))" "int (card (dom (view t))) \<le> capacity t"
  shows "finite (dom (view (fold step ops t))) \<and> int (card (dom (view (fold step ops t)))) \<le> capacity t"
  using assms
proof (induction ops arbitrary: t)
  case (Cons op ops)
  from step_bounded [OF Cons.prems] Cons.IH [of "step op t"] show ?case by (simp add: step_capacity)
qed simp

text \<open>A binding is never replaced: while it is not removed the key leads to the same value.\<close>

lemma step_value: "view t k = Some v \<Longrightarrow> view (step op t) k = None \<or> view (step op t) k = Some v"
  using step_view [of op t] by (cases "view (step op t) k") (auto simp: map_le_def dom_def split: if_splits)

end

text \<open>The operations of the table, each with the heap at its moment.\<close>

datatype 'w manager_op =
    MAdd "'w session_heap" "session_ref option"
  | MRemove string
  | MRemoveCompleted "'w session_heap" "string list"

fun manager_step :: "'w manager_op \<Rightarrow> SessionManager \<Rightarrow> SessionManager" where
  "manager_step (MAdd h p) m = snd (Add h p m)"
| "manager_step (MRemove sid) m = Remove sid m"
| "manager_step (MRemoveCompleted h order) m = snd (RemoveCompleted h order m)"

lemma removeLoop_spec:
  "removeLoop h order n m = (n', m') \<Longrightarrow> sm_maxConc m' = sm_maxConc m \<and>
     (\<forall>sid. sm_sessions m' sid = (if sid \<in> set order \<and> (\<exists>p. sm_sessions m sid = Some p \<and> completed h p) then None else sm_sessions m sid))"
proof (induction order arbitrary: n m)
  case (Cons sid order)
  show ?case
  proof (cases "\<exists>p. sm_sessions m sid = Some p \<and> completed h p")
    case True
    with Cons.prems have "removeLoop h order (n + 1) (Remove sid m) = (n', m')" by auto
    from Cons.IH [OF this] show ?thesis using True by (auto simp: Remove_def)
  next
    case False
    with Cons.prems have "removeLoop h order n m = (n', m')" by (auto split: option.splits)
    from Cons.IH [OF this] show ?thesis using False by auto
  qed
qed simp

lemma removeLoop_count:
  "removeLoop h order n m = (n', m') \<Longrightarrow> distinct order \<Longrightarrow>
   n' = n + card {sid \<in> set order. \<exists>p. sm_sessions m sid = Some p \<and> completed h p}"
proof (induction order arbitrary: n m)
  case (Cons sid order)
  let ?C = "\<lambda>m. {sid \<in> set order. \<exists>p. sm_sessions m sid = Some p \<and> completed h p}"
  have same: "?C (Remove sid m) = ?C m" using Cons.prems(2) by (auto simp: Remove_def)
  show ?case
  proof (cases "\<exists>p. sm_sessions m sid = Some p \<and> completed h p")
    case True
    with Cons.prems have "removeLoop h order (n + 1) (Remove sid m) = (n', m')" by auto
    from Cons.IH [OF this] Cons.prems(2) same have "n' = n + 1 + card (?C m)" by simp
    moreover have "{i \<in> set (sid # order). \<exists>p. sm_sessions m i = Some p \<and> completed h p} = insert sid (?C m)" using True by auto
    ultimately show ?thesis using Cons.prems(2) by simp
  next
    case False
    with Cons.prems have "removeLoop h order n m = (n', m')" by (auto split: option.splits)
    moreover have "{i \<in> set (sid # order). \<exists>p. sm_sessions m i = Some p \<and> completed h p} = ?C m" using False by auto
    ultimately show ?thesis using Cons.IH [of n m] Cons.prems(2) by simp
  qed
qed simp

interpretation mgr: bounded_table sm_sessions sm_maxConc manager_step
proof
  fix op :: "'w manager_op" and m :: SessionManager
  show "sm_maxConc (manager_step op m) = sm_maxConc m"
    by (cases op) (auto simp: Add_def Remove_def RemoveCompleted_def dest!: removeLoop_spec split: option.split,
      metis removeLoop_spec prod.collapse)
  show "sm_sessions (manager_step op m) \<subseteq>\<^sub>m sm_sessions m \<or>
      (\<exists>k v. sm_sessions m k = None \<and> int (card (dom (sm_sessions m))) < sm_maxConc m \<and>
        sm_sessions (manager_step op m) = (sm_sessions m)(k \<mapsto> v))"
  proof (cases op)
    case (MAdd h p)
    then show ?thesis by (cases p) (auto simp: Add_def not_le)
  next
    case (MRemove sid)
    then show ?thesis by (auto simp: Remove_def map_le_def)
  next
    case (MRemoveCompleted h order)
    obtain n m' where r: "removeLoop h order 0 m = (n, m')" by (cases "removeLoop h order 0 m")
    from removeLoop_spec [OF r] show ?thesis using MRemoveCompleted r
      by (auto simp: RemoveCompleted_def map_le_def dom_def split: if_splits)
  qed
qed

section \<open>Properties\<close>

text \<open>
  C26. Whatever the node does with the table, in any order and while the sessions run, it never holds
  more sessions than its limit (at least one), and an id keeps leading to the same session until it
  is removed.
\<close>

theorem manager_bounded:
  "int (ActiveCount (fold manager_step ops (NewSessionManager n))) \<le> max 1 n \<and>
   (sm_sessions m sid = Some p \<longrightarrow> fst (Get sid (manager_step oper m)) = p \<or> \<not> snd (Get sid (manager_step oper m)))"
proof -
  have "int (card (dom (sm_sessions (fold manager_step ops (NewSessionManager n))))) \<le> sm_maxConc (NewSessionManager n)"
    using mgr.steps_bounded [of "NewSessionManager n" ops] by (auto simp: NewSessionManager_def)
  moreover have "sm_maxConc (NewSessionManager n) = max 1 n" by (auto simp: NewSessionManager_def)
  ultimately show ?thesis
    using mgr.step_value [of m sid p oper] by (auto simp: ActiveCount_def Get_def)
qed

definition demo_manager :: SessionManager where
  "demo_manager = snd (Add (\<lambda>_. demo_session) (Some 7) (NewSessionManager 0))"

lemma demo_manager_sessions: "sm_sessions demo_manager = [''peer'' \<mapsto> Some 7]"
  by (simp add: demo_manager_def Add_def NewSessionManager_def demo_session_defs)

theorem manager_bounded_witness:
  "int (ActiveCount (fold manager_step [MAdd (\<lambda>_. demo_session) (Some 7), MAdd (\<lambda>_. demo_session\<lparr>ss_ID := ''x''\<rparr>) (Some 8)] (NewSessionManager 0))) \<le> 1 \<and>
   fst (Get ''peer'' (manager_step (MRemove ''x'') demo_manager)) = Some 7"
  using manager_bounded [of "[MAdd (\<lambda>_. demo_session) (Some 7), MAdd (\<lambda>_. demo_session\<lparr>ss_ID := ''x''\<rparr>) (Some 8)]" 0
      demo_manager "''peer''" "Some 7" "MRemove ''x'' :: Envelope option list manager_op"]
  by (simp add: demo_manager_sessions Get_def Remove_def)

text \<open>
  \<open>RemoveCompleted\<close> removes exactly the sessions that are complete, failed or rejected at that
  moment (and nil entries), returns their number, and leaves every running session in place.
\<close>

theorem remove_completed_spec:
  assumes "distinct order" and "set order = dom (sm_sessions m)" and "RemoveCompleted h order m = (n, m')"
  shows "sm_sessions m' = (\<lambda>sid. case sm_sessions m sid of None \<Rightarrow> None | Some p \<Rightarrow> if completed h p then None else Some p) \<and>
    n + ActiveCount m' = ActiveCount m"
proof
  from assms(3) have r: "removeLoop h order 0 m = (n, m')" by (simp add: RemoveCompleted_def)
  show view: "sm_sessions m' = (\<lambda>sid. case sm_sessions m sid of None \<Rightarrow> None | Some p \<Rightarrow> if completed h p then None else Some p)"
  proof
    fix sid
    from removeLoop_spec [OF r] assms(2)
    show "sm_sessions m' sid = (case sm_sessions m sid of None \<Rightarrow> None | Some p \<Rightarrow> if completed h p then None else Some p)"
      by (cases "sm_sessions m sid") auto
  qed
  let ?C = "{sid \<in> set order. \<exists>p. sm_sessions m sid = Some p \<and> completed h p}"
  have n: "n = card ?C" using removeLoop_count [OF r assms(1)] by simp
  have "dom (sm_sessions m') = dom (sm_sessions m) - ?C"
    unfolding view using assms(2) by (auto simp: dom_def split: option.splits if_splits)
  moreover have "?C \<subseteq> dom (sm_sessions m)" "finite (dom (sm_sessions m))" using assms(2) by (auto simp flip: assms(2))
  ultimately show "n + ActiveCount m' = ActiveCount m"
    by (simp add: n ActiveCount_def card_Diff_subset finite_subset card_mono)
qed

theorem remove_completed_spec_witness:
  "RemoveCompleted (\<lambda>_. demo_session) [''peer''] demo_manager = (0, demo_manager) \<and>
   0 + ActiveCount demo_manager = ActiveCount demo_manager"
proof -
  have r: "RemoveCompleted (\<lambda>_. demo_session) [''peer''] demo_manager = (0, demo_manager)"
    by (simp add: RemoveCompleted_def demo_manager_sessions completed_def demo_session_defs state_defs)
  from remove_completed_spec [OF _ _ r] r show ?thesis by (simp add: demo_manager_sessions)
qed

text \<open>
  C27. The state of a session that was saved is found again among the recovered sessions, with its
  id, peer, direction, file, state and the text of its error; but a session that was saved in any
  state other than \<open>IDLE\<close> cannot be run again: \<open>RunSession\<close> refuses it at once.
\<close>

theorem checkpoint_recover_session:
  fixes s :: "'w TransferSession" and env :: "'w session_env"
  assumes "driver_ok en" and "CheckpointTransferState en now (Some store) (Some s) = Inr store'"
  shows "\<exists>rs r. RecoverSessions en (Some store') = Inr rs \<and> r \<in> set rs \<and>
    ss_ID r = ss_ID s \<and> ss_PeerID r = ss_PeerID s \<and> ss_Direction r = ss_Direction s \<and>
    bs (ss_FileHash r) = bs (ss_FileHash s) \<and> ss_State r = ss_State s \<and>
    (\<forall>e. ss_err s = Some e \<and> Error e \<noteq> [] \<longrightarrow> ss_err r = Some (Errorf (Error e))) \<and>
    (ss_State s \<noteq> StateIdle \<longrightarrow> (\<exists>e. RunSession env r w = Some (Inl (Err e), r\<lparr>ss_err := Some e\<rparr>, w)))"
proof -
  define row where "row = \<lparr>ts_ID = ss_ID s, ts_PeerID = ss_PeerID s, ts_Direction = ss_Direction s, ts_FileHash = clone (ss_FileHash s),
     ts_State = ss_State s, ts_LastError = (case ss_err s of None \<Rightarrow> [] | Some e \<Rightarrow> Error e), ts_UpdatedAt = now\<rparr>"
  have "UpsertTransferState en row store = Inr store'"
    using assms(2) by (cases "ss_err s") (simp_all add: CheckpointTransferState_def row_def)
  hence "store' = store\<lparr>transfer_state := upsert_row (\<lambda>r. Some (ts_ID r)) (row\<lparr>ts_FileHash := ts_FileHash row\<rparr>) (transfer_state store)\<rparr>"
    using assms(1) unfolding UpsertTransferState_def driver_ok_def
    by (auto simp: run_stmt_def res_bind_eq_Inr simp del: TransferStateRow.update_convs split: if_splits)
  hence st: "transfer_state store' = upsert_row (\<lambda>r. Some (ts_ID r)) row (transfer_state store)"
    by (simp add: row_def)
  have "select_row (\<lambda>r. Some (ts_ID r)) (Some (ts_ID row)) (transfer_state store') = Some row"
    unfolding st select_upsert_row by simp
  hence row: "row \<in> set (transfer_state store')" by (auto dest: select_row_Some)
  have "scan_rows Inr rows = Inr rows" for rows :: "TransferStateRow list"
    using scan_rows_map [of rows Inr "\<lambda>r. r"] by simp
  hence rs: "RecoverSessions en (Some store') = Inr (map recoverSession (order_desc ts_UpdatedAt (transfer_state store')))"
    using assms(1) [unfolded driver_ok_def, THEN conjunct1] unfolding RecoverSessions_def GetAllTransferStates_def run_stmt_def by simp
  have r: "ss_State (recoverSession row :: 'w TransferSession) = ss_State s" by (simp add: recoverSession_def row_def)
  hence "ss_State s \<noteq> StateIdle \<longrightarrow> (\<exists>e. RunSession env (recoverSession row) w =
      Some (Inl (Err e), (recoverSession row)\<lparr>ss_err := Some e\<rparr>, w))"
    by (simp add: RunSession_not_idle Let_def)
  moreover have "(recoverSession row :: 'w TransferSession) \<in> set (map recoverSession (order_desc ts_UpdatedAt (transfer_state store')))"
    using row by simp
  moreover have "ss_ID (recoverSession row) = ss_ID s \<and> ss_PeerID (recoverSession row) = ss_PeerID s \<and>
      ss_Direction (recoverSession row) = ss_Direction s \<and> bs (ss_FileHash (recoverSession row)) = bs (ss_FileHash s) \<and>
      (\<forall>e. ss_err s = Some e \<and> Error e \<noteq> [] \<longrightarrow> ss_err (recoverSession row :: 'w TransferSession) = Some (Errorf (Error e)))"
    by (auto simp: recoverSession_def row_def)
  ultimately show ?thesis using rs r by blast
qed

theorem checkpoint_recover_session_witness:
  "\<exists>store'. CheckpointTransferState demo_engine 5 (Some empty_store) (Some (demo_session\<lparr>ss_State := StateTransferring\<rparr>)) = Inr store' \<and>
     (\<exists>rs (r :: Envelope option list TransferSession). RecoverSessions demo_engine (Some store') = Inr rs \<and> r \<in> set rs \<and>
        ss_State r = StateTransferring \<and> (\<exists>e. RunSession demo_session_env r [] = Some (Inl (Err e), r\<lparr>ss_err := Some e\<rparr>, [])))"
proof -
  let ?s = "demo_session\<lparr>ss_State := StateTransferring\<rparr>"
  obtain store' where c: "CheckpointTransferState demo_engine 5 (Some empty_store) (Some ?s) = Inr store'"
    by (simp add: CheckpointTransferState_def UpsertTransferState_def demo_session_defs clone_def demo_engine_def run_stmt_def
        not_null_def DirectionInbound_def state_defs)
  have "StateTransferring \<noteq> StateIdle" by (simp add: state_defs)
  with checkpoint_recover_session [OF demo_engine_ok c, of demo_session_env "[]"] c show ?thesis by auto
qed

end
