(* ===== verification/Node.thy ===== *)
theory Node
  imports Session_Live Manager Discovery Gossip
begin

text \<open>
  The node of \<open>node/node.go\<close>: its constructor, the event loop with the handlers of the envelopes,
  the checkpoint tick, and the operations for files.  The world of a node is its database and the
  outside (where the transport lives).  A goroutine that the node starts for a session is an entry
  of \<open>nd_spawned\<close>; its run is one step of the node that may happen at any later moment.
\<close>

section \<open>State\<close>

record 'x world =
  wd_store :: Store
  wd_ext :: 'x

text \<open>The node's transport does not see the database.\<close>

definition liftTransport :: "'x Transport \<Rightarrow> 'x world Transport" where
  "liftTransport t =
     \<lparr>tp_Send = (\<lambda>e w. let (r, x) = tp_Send t e (wd_ext w) in (r, w\<lparr>wd_ext := x\<rparr>)),
      tp_Recv = (\<lambda>w. case tp_Recv t (wd_ext w) of None \<Rightarrow> None | Some (r, x) \<Rightarrow> Some (r, w\<lparr>wd_ext := x\<rparr>)),
      tp_TryRecv = (\<lambda>w. let (e, ok, x) = tp_TryRecv t (wd_ext w) in (e, ok, w\<lparr>wd_ext := x\<rparr>)),
      tp_PutBack = (\<lambda>e w. w\<lparr>wd_ext := tp_PutBack t e (wd_ext w)\<rparr>)\<rparr>"

record 'x Node =
  nd_identity :: Identity
  nd_transfer :: SessionManager
  nd_discovery :: FileIndex
  nd_transport :: "'x Transport"
  nd_signer :: "(byte list \<Rightarrow> slice res) option"
  nd_checkpointInterval :: int
  nd_lastCheckpointAt :: int64
  nd_heap :: "'x world session_heap"
  nd_next :: session_ref
  nd_spawned :: "session_ref list"

record 'x node_env =
  ne_crypto :: crypto_prims
  ne_proto :: proto_lib
  ne_platform :: platform
  ne_order :: "(PeerEpoch \<times> int64) list \<Rightarrow> (PeerEpoch \<times> int64) list"
  ne_engine :: engine
  ne_now :: "'x world \<Rightarrow> int64"
  ne_ctx_Err :: "'x world \<Rightarrow> go_error option"

text \<open>\<open>heap\<close> is where the sessions of the new node will be allocated.\<close>

definition New ::
  "engine \<Rightarrow> 'x world session_heap \<Rightarrow> Store option \<Rightarrow> 'x Transport option \<Rightarrow> int \<Rightarrow> (byte list \<Rightarrow> slice res) option list \<Rightarrow> 'x Node res" where
  "New en heap store transport maxConcurrentTransfers signer =
     (case store of
        None \<Rightarrow> fail ''store is required''
      | Some s \<Rightarrow>
     (case transport of
        None \<Rightarrow> fail ''transport is required''
      | Some t \<Rightarrow>
          res_bind (wrap_err ''load identity: '' (GetIdentity en s)) (\<lambda>ident.
          Inr \<lparr>nd_identity = ident, nd_transfer = NewSessionManager maxConcurrentTransfers, nd_discovery = NewFileIndex,
               nd_transport = t, nd_signer = (case signer of [] \<Rightarrow> None | f # _ \<Rightarrow> f),
               nd_checkpointInterval = 100, nd_lastCheckpointAt = 0,
               nd_heap = heap, nd_next = 0, nd_spawned = []\<rparr>)))"

section \<open>Adapters\<close>

definition storeAppendRecord :: "'x node_env \<Rightarrow> ShareRecord \<Rightarrow> 'x world \<Rightarrow> unit res \<times> 'x world" where
  "storeAppendRecord ne rec w =
     (case InsertRecord (ne_engine ne) rec (wd_store w) of
        Inl e \<Rightarrow> (Inl e, w)
      | Inr s \<Rightarrow> (Inr (), w\<lparr>wd_store := s\<rparr>))"

definition storeEffectiveBalance :: "'x node_env \<Rightarrow> ShareRecord option list \<Rightarrow> slice \<Rightarrow> int64 \<Rightarrow> 'x world \<Rightarrow> int64 res" where
  "storeEffectiveBalance ne records peerPubKey peerCreatedAt w =
     (let params = DefaultParams; now = ne_now ne w;
          records = (if length records = 0
                     then (case GetRecordsByDevice (ne_engine ne) peerPubKey 0 1000 (wd_store w) of
                             Inr recs \<Rightarrow> Inr (map Some recs)
                           | Inl (Err _) \<Rightarrow> Inr records
                           | Inl (Panic p) \<Rightarrow> Inl (Panic p))
                     else Inr records)
      in res_bind records (\<lambda>records.
         ComputeEffectiveBalance (ne_platform ne) records peerPubKey peerCreatedAt now params))"

text \<open>What the sessions of the node run with.\<close>

definition sessionEnv :: "'x node_env \<Rightarrow> 'x world session_env" where
  "sessionEnv ne =
     \<lparr>se_crypto = ne_crypto ne, se_proto = ne_proto ne,
      se_policy = (\<lambda>w. \<lparr>pe_platform = ne_platform ne, pe_order = ne_order ne, pe_engine = ne_engine ne, pe_now = ne_now ne w\<rparr>),
      se_ctx_Err = ne_ctx_Err ne\<rparr>"

section \<open>Handlers\<close>

type_synonym 'x node_state = "'x Node \<times> 'x world"

definition inboundSession :: "'x node_env \<Rightarrow> 'x Node \<Rightarrow> string \<Rightarrow> TransferRequest \<Rightarrow> 'x world TransferSession" where
  "inboundSession ne n sessionID req =
     (let s = NewSession sessionID DirectionInbound (tr_FileHash req) (Some (liftTransport (nd_transport n)))
                (Some (storeAppendRecord ne)) (Some (storeEffectiveBalance ne)) (nd_signer n);
          s = s\<lparr>ss_ID := sessionID\<rparr>;
          s = SetPendingRequest (Some req) s
      in SetPolicyStore (Some wd_store) s)"

definition handleTransferRequest :: "'x node_env \<Rightarrow> TransferRequest option \<Rightarrow> ('x node_state, unit) op" where
  "handleTransferRequest ne req = (\<lambda>(n, w).
     case req of
       None \<Rightarrow> (fail ''transfer request is nil'', n, w)
     | Some q \<Rightarrow>
         (case res_bind (ValidateTransferRequest (ne_crypto ne) q) (\<lambda>_.
                 ValidateTransferRequestWindow req (ne_now ne w) DefaultTransferRequestTTLSeconds) of
            Inl e \<Rightarrow> (Inl e, n, w)
          | Inr _ \<Rightarrow>
              let sessionID = hex (bs (tr_RequesterPubkey q)) @ '':'' @ hex (bs (tr_FileHash q)) in
              (case Get sessionID (nd_transfer n) of
                 (_, False) \<Rightarrow>
                   let ref = nd_next n;
                       heap = (nd_heap n)(ref := inboundSession ne n sessionID q);
                       (_, mgr) = Add heap (Some ref) (nd_transfer n)
                   in (Inr (), n\<lparr>nd_transfer := mgr, nd_heap := heap, nd_next := ref + 1, nd_spawned := nd_spawned n @ [ref]\<rparr>, w)
               | (None, True) \<Rightarrow> (nil_deref, n, w)
               | (Some ref, True) \<Rightarrow>
                   (Inr (), n\<lparr>nd_heap := (nd_heap n)(ref := SetPendingRequest req (nd_heap n ref))\<rparr>, w))))"

text \<open>The body of the goroutine that was started for a session.\<close>

definition runSpawned :: "'x node_env \<Rightarrow> string list \<Rightarrow> session_ref \<Rightarrow> 'x node_state \<Rightarrow> (unit res \<times> 'x node_state) option" where
  "runSpawned ne order ref = (\<lambda>(n, w).
     Option.bind (RunSession (sessionEnv ne) (nd_heap n ref) w) (\<lambda>(r, s, w).
     let heap = (nd_heap n)(ref := s); n = n\<lparr>nd_heap := heap, nd_spawned := remove1 ref (nd_spawned n)\<rparr> in
     case r of
       Inl (Panic p) \<Rightarrow> Some (Inl (Panic p), n, w)
     | _ \<Rightarrow> Some (Inr (), n\<lparr>nd_transfer := snd (RemoveCompleted heap order (nd_transfer n))\<rparr>, w)))"

definition handleShareRecord :: "'x node_env \<Rightarrow> ShareRecord option \<Rightarrow> ('x node_state, unit) op" where
  "handleShareRecord ne record = (\<lambda>(n, w).
     case record of
       None \<Rightarrow> (fail ''share record is nil'', n, w)
     | Some r \<Rightarrow>
         (case res_bind (ValidateShareRecord (ne_crypto ne) r) (\<lambda>_. InsertRecord (ne_engine ne) r (wd_store w)) of
            Inl e \<Rightarrow> (Inl e, n, w)
          | Inr s \<Rightarrow>
              (case GetLatestRecord (ne_engine ne) (sr_SenderPubkey r) s of
                 Inl (Panic p) \<Rightarrow> (Inl (Panic p), n, w\<lparr>wd_store := s\<rparr>)
               | Inl (Err _) \<Rightarrow> (Inr (), n, w\<lparr>wd_store := s\<rparr>)
               | Inr latest \<Rightarrow>
                   (case DetectFork latest r (sr_SenderPubkey r) of
                      None \<Rightarrow> (Inr (), n, w\<lparr>wd_store := s\<rparr>)
                    | Some fork \<Rightarrow>
                        (case InsertForkEvidence (ne_engine ne) (ne_proto ne) (Some fork) s of
                           Inl (Panic p) \<Rightarrow> (Inl (Panic p), n, w\<lparr>wd_store := s\<rparr>)
                         | Inl (Err _) \<Rightarrow> (Inr (), n, w\<lparr>wd_store := s\<rparr>)
                         | Inr s' \<Rightarrow> (Inr (), n, w\<lparr>wd_store := s'\<rparr>))))))"

definition handleGossip :: "'x node_env \<Rightarrow> GossipPayload option \<Rightarrow> ('x node_state, unit) op" where
  "handleGossip ne payload = (\<lambda>(n, w).
     let (r, s) = ProcessGossipPayload (ne_engine ne) (ne_proto ne) payload (Some (wd_store w)) in
     (r, n, w\<lparr>wd_store := the s\<rparr>))"

section \<open>Loops\<close>

text \<open>The switch of the event loop; payloads of other kinds are ignored.\<close>

definition dispatch :: "'x node_env \<Rightarrow> Envelope \<Rightarrow> ('x node_state, unit) op" where
  "dispatch ne env =
     (case env_Payload env of
        Some (Envelope_Gossip p) \<Rightarrow> handleGossip ne p
      | Some (Envelope_TransferRequest q) \<Rightarrow> handleTransferRequest ne q
      | Some (Envelope_ShareRecord r) \<Rightarrow> handleShareRecord ne r
      | _ \<Rightarrow> st_ret ())"

text \<open>
  One round: the errors of \<open>Recv\<close> and of the handlers are dropped, a panic ends the process, and
  the loop ends when the context is done.
\<close>

definition eventStep :: "'x node_env \<Rightarrow> 'x node_state \<Rightarrow> ('x node_state + unit res \<times> 'x node_state) option" where
  "eventStep ne = (\<lambda>(n, w).
     if ne_ctx_Err ne w \<noteq> None then Some (Inr (Inr (), n, w))
     else Option.bind (tp_Recv (liftTransport (nd_transport n)) w) (\<lambda>(r, w).
       case r of
         Inl (Panic p) \<Rightarrow> Some (Inr (Inl (Panic p), n, w))
       | Inl (Err _) \<Rightarrow> Some (Inl (n, w))
       | Inr None \<Rightarrow> Some (Inl (n, w))
       | Inr (Some env) \<Rightarrow>
           (case dispatch ne env (n, w) of
              (Inl (Panic p), x) \<Rightarrow> Some (Inr (Inl (Panic p), x))
            | (_, x) \<Rightarrow> Some (Inl x))))"

definition eventLoop :: "'x node_env \<Rightarrow> 'x node_state \<Rightarrow> (unit res \<times> 'x node_state) option" where
  "eventLoop ne x = for_ever (eventStep ne) x"

text \<open>What one tick of the checkpoint loop does.\<close>

definition checkpointTick :: "'x node_env \<Rightarrow> ('x node_state, unit) op" where
  "checkpointTick ne = (\<lambda>(n, w).
     case GetRecordsByDevice (ne_engine ne) (id_Pubkey (nd_identity n)) 0 500 (wd_store w) of
       Inl (Panic p) \<Rightarrow> (Inl (Panic p), n, w)
     | Inl (Err _) \<Rightarrow> (Inr (), n, w)
     | Inr records \<Rightarrow>
         if length records = 0 then (Inr (), n, w)
         else if \<not> ShouldCheckpoint (nd_lastCheckpointAt n) (sr_Timestamp (last records)) (int (length records)) (nd_checkpointInterval n)
         then (Inr (), n, w)
         else (case ComputeCheckpoint (ne_platform ne) (map Some records) (id_Pubkey (nd_identity n)) (ne_now ne w) DefaultParams [] of
                 Inl (Panic p) \<Rightarrow> (Inl (Panic p), n, w)
               | Inl (Err _) \<Rightarrow> (Inr (), n, w)
               | Inr (cp, _) \<Rightarrow>
                   (case InsertCheckpoint (ne_engine ne) (ne_proto ne) (Some cp) (wd_store w) of
                      Inl (Panic p) \<Rightarrow> (Inl (Panic p), n, w)
                    | Inl (Err _) \<Rightarrow> (Inr (), n, w)
                    | Inr s \<Rightarrow> (Inr (), n\<lparr>nd_lastCheckpointAt := cp_Timestamp cp\<rparr>, w\<lparr>wd_store := s\<rparr>))))"

text \<open>
  What the \<open>select\<close> of the checkpoint loop sees, one case after the other; each tick has its own
  clock and driver behaviour.  A loop that has seen all of it waits.
\<close>

datatype 'x select_case = Tick "'x node_env" | CtxDone

fun checkpointLoop :: "'x select_case list \<Rightarrow> 'x node_state \<Rightarrow> (unit res \<times> 'x node_state) option" where
  "checkpointLoop [] x = None"
| "checkpointLoop (CtxDone # cs) x = Some (Inr (), x)"
| "checkpointLoop (Tick ne # cs) x =
     (case checkpointTick ne x of
        (Inl (Panic p), y) \<Rightarrow> Some (Inl (Panic p), y)
      | (_, y) \<Rightarrow> checkpointLoop cs y)"

section \<open>Starting and stopping\<close>

text \<open>The context and the wait group of the node, with the loops that run.\<close>

datatype node_loop = EventLoop | CheckpointLoop

record lifecycle =
  lc_cancelled :: bool
  lc_wg :: nat
  lc_loops :: "node_loop list"

definition newLifecycle :: lifecycle where
  "newLifecycle = \<lparr>lc_cancelled = False, lc_wg = 0, lc_loops = []\<rparr>"

definition NodeStart :: "(lifecycle option, unit) op" where
  "NodeStart n =
     (case n of
        None \<Rightarrow> (fail ''node is nil'', None)
      | Some lc \<Rightarrow> (Inr (), Some (lc\<lparr>lc_wg := lc_wg lc + 1 + 1, lc_loops := lc_loops lc @ [EventLoop, CheckpointLoop]\<rparr>)))"

text \<open>\<open>defer n.wg.Done()\<close> of a loop that returns.\<close>

definition loopDone :: "node_loop \<Rightarrow> lifecycle \<Rightarrow> lifecycle" where
  "loopDone l lc = (if l \<in> set (lc_loops lc) then lc\<lparr>lc_wg := lc_wg lc - 1, lc_loops := remove1 l (lc_loops lc)\<rparr> else lc)"

text \<open>
  \<open>ended\<close> are the loops that return while \<open>Stop\<close> waits for the group, and \<open>close\<close> is what closing
  the transport returns, nil for a nil transport.  A call that waits for ever gives \<open>None\<close>.
\<close>

definition NodeStop :: "unit res option \<Rightarrow> node_loop list \<Rightarrow> lifecycle option \<Rightarrow> (unit res \<times> lifecycle option) option" where
  "NodeStop close ended n =
     (case n of
        None \<Rightarrow> Some (fail ''node is nil'', None)
      | Some lc \<Rightarrow>
          let lc = fold loopDone ended (lc\<lparr>lc_cancelled := True\<rparr>) in
          if lc_wg lc \<noteq> 0 then None
          else (case close of Some r \<Rightarrow> Some (r, Some lc) | None \<Rightarrow> Some (Inr (), Some lc)))"

section \<open>Files\<close>

text \<open>\<open>salt\<close> is the outcome of \<open>rand.Read\<close>.\<close>

definition AdvertiseFile ::
  "'x node_env \<Rightarrow> go_error + byte list \<Rightarrow> FileMeta option \<Rightarrow> uint32 list \<Rightarrow> ('x node_state, Advertisement) op" where
  "AdvertiseFile ne salt meta chunkIndices = (\<lambda>(n, w).
     case meta of
       None \<Rightarrow> (fail ''file metadata is required'', n, w)
     | Some m \<Rightarrow>
         (case AddFile (fm_FileHash m) chunkIndices (Some (nd_discovery n)) of
            Inl e \<Rightarrow> (Inl e, n, w)
          | Inr idx \<Rightarrow>
              let n = n\<lparr>nd_discovery := idx\<rparr> in
              (case InsertFileMeta (ne_engine ne) meta (wd_store w) of
                 Inl e \<Rightarrow> (Inl e, n, w)
               | Inr s \<Rightarrow> (GenerateAdvertisement (ne_crypto ne) salt (fm_FileHash m), n, w\<lparr>wd_store := s\<rparr>))))"

fun matchLoop :: "crypto_prims \<Rightarrow> Advertisement option \<Rightarrow> FileMeta list \<Rightarrow> slice list res" where
  "matchLoop cr ad [] = Inr []"
| "matchLoop cr ad (f # fs) =
     (case MatchAdvertisement cr ad (fm_FileHash f) of
        Inl (Panic p) \<Rightarrow> Inl (Panic p)
      | Inl (Err _) \<Rightarrow> matchLoop cr ad fs
      | Inr ok \<Rightarrow> res_bind (matchLoop cr ad fs) (\<lambda>out. Inr (if ok then fm_FileHash f # out else out)))"

definition MatchIncomingAdvertisement :: "'x node_env \<Rightarrow> Advertisement option \<Rightarrow> 'x node_state \<Rightarrow> slice list res" where
  "MatchIncomingAdvertisement ne ad = (\<lambda>(n, w).
     case ad of
       None \<Rightarrow> fail ''advertisement is required''
     | Some _ \<Rightarrow> res_bind (ListFiles (ne_engine ne) 256 0 (wd_store w)) (\<lambda>files. matchLoop (ne_crypto ne) ad files))"

definition AuthorizeFileRequest :: "'x node_env \<Rightarrow> FileCapability option \<Rightarrow> slice \<Rightarrow> int64 \<Rightarrow> unit res" where
  "AuthorizeFileRequest ne capability requesterPubKey now = ValidateCapability (ne_crypto ne) capability requesterPubKey now"

end
