(* ===== verification/Node_Props.thy ===== *)
theory Node_Props
  imports Node
begin

text \<open>
  Properties of the node: what every interleaving of its event loop, checkpoint ticks, session
  goroutines and file operations keeps of the database, and what the handlers do with the
  messages of a peer.
\<close>

section \<open>Interleavings\<close>

text \<open>
  The moves of a node that was started.  A round of the event loop, a tick, a call of
  \<open>AdvertiseFile\<close> and the run of a session goroutine are one move each; between them the outside
  world may change at will.  Every move has its own clock, driver behaviour and context; the
  cryptography and the message encoding are the same throughout.
\<close>

inductive node_step :: "crypto_prims \<Rightarrow> proto_lib \<Rightarrow> 'x node_state \<Rightarrow> 'x node_state \<Rightarrow> bool" for cr pl where
  event: "ne_crypto ne = cr \<Longrightarrow> ne_proto ne = pl \<Longrightarrow> eventStep ne x = Some (Inl y) \<Longrightarrow> node_step cr pl x y"
| event_end: "ne_crypto ne = cr \<Longrightarrow> ne_proto ne = pl \<Longrightarrow> eventStep ne x = Some (Inr (r, y)) \<Longrightarrow> node_step cr pl x y"
| goroutine: "ne_crypto ne = cr \<Longrightarrow> ne_proto ne = pl \<Longrightarrow> ref \<in> set (nd_spawned n) \<Longrightarrow>
    runSpawned ne order ref (n, w) = Some (r, y) \<Longrightarrow> node_step cr pl (n, w) y"
| tick: "ne_crypto ne = cr \<Longrightarrow> ne_proto ne = pl \<Longrightarrow> checkpointTick ne x = (r, y) \<Longrightarrow> node_step cr pl x y"
| advertise: "ne_crypto ne = cr \<Longrightarrow> ne_proto ne = pl \<Longrightarrow> AdvertiseFile ne salt meta idx x = (a, y) \<Longrightarrow> node_step cr pl x y"
| outside: "node_step cr pl (n, w) (n, w\<lparr>wd_ext := e\<rparr>)"

text \<open>The storage rows that came from records that validate.\<close>

definition validated_rows :: "crypto_prims \<Rightarrow> Store \<Rightarrow> bool" where
  "validated_rows cr s \<longleftrightarrow>
     (\<forall>row\<in>set (share_records s). \<exists>en r. row = record_row en r \<and> ValidateShareRecord cr r = Inr ())"

abbreviation valid_record :: "crypto_prims \<Rightarrow> ShareRecord \<Rightarrow> bool" where
  "valid_record cr r \<equiv> ValidateShareRecord cr r = Inr ()"

lemma validated_rows_invariant: "op_invariant pl cr (valid_record cr) (validated_rows cr)"
proof -
  have "validated_rows cr s'" if "\<forall>r. op = OpInsertRecord r \<longrightarrow> valid_record cr r" "validated_rows cr s" "exec_op pl cr en op s = Inr s'"
    for en op s s'
  proof (cases "\<exists>r. op = OpInsertRecord r")
    case True
    with that show ?thesis by (auto simp: validated_rows_def InsertRecord_eq_Inr simp del: ex_simps) blast
  next
    case False
    with that(3) have "share_records s' = share_records s"
      by (cases op) (auto simp: mutator_defs stmt_Inr Let_def split: option.splits if_splits)
    with that(2) show ?thesis by (simp add: validated_rows_def)
  qed
  thus ?thesis unfolding op_invariant_def by blast
qed

text \<open>Every session that the node will run works on the node's own database.\<close>

definition node_inv :: "crypto_prims \<Rightarrow> (Store \<Rightarrow> bool) \<Rightarrow> 'x node_state \<Rightarrow> bool" where
  "node_inv cr J = (\<lambda>(n, w). J (wd_store w) \<and>
     (\<forall>ref\<in>set (nd_spawned n). parts_keep cr (\<lambda>w. J (wd_store w)) (nd_heap n ref)))"

lemma liftTransport_store:
  "wd_store (snd (tp_Send (liftTransport t) e w)) = wd_store w"
  "tp_Recv (liftTransport t) w = Some (r, w') \<Longrightarrow> wd_store w' = wd_store w"
  "wd_store (snd (snd (tp_TryRecv (liftTransport t) w))) = wd_store w"
  "wd_store (tp_PutBack (liftTransport t) e w) = wd_store w"
  by (auto simp: liftTransport_def split: option.splits prod.splits)

text \<open>
  The interface between the database and the node: a predicate that every storage operation keeps
  when the records inserted validate is kept by every move of the node.
\<close>

locale store_predicate =
  fixes pl :: proto_lib and cr :: crypto_prims and J :: "Store \<Rightarrow> bool"
  assumes op_inv: "op_invariant pl cr (valid_record cr) J"
begin

lemma insert_record: "J s \<Longrightarrow> valid_record cr r \<Longrightarrow> InsertRecord en r s = Inr s' \<Longrightarrow> J s'"
  using op_invariantD [OF op_inv, of "OpInsertRecord r" s en s'] by simp

lemma insert_fork: "J s \<Longrightarrow> InsertForkEvidence en pl e s = Inr s' \<Longrightarrow> J s'"
  using op_invariantD [OF op_inv, of "OpInsertForkEvidence e" s en s'] by simp

lemma insert_checkpoint: "J s \<Longrightarrow> InsertCheckpoint en pl c s = Inr s' \<Longrightarrow> J s'"
  using op_invariantD [OF op_inv, of "OpInsertCheckpoint c" s en s'] by simp

lemma insert_file: "J s \<Longrightarrow> InsertFileMeta en f s = Inr s' \<Longrightarrow> J s'"
  using op_invariantD [OF op_inv, of "OpInsertFileMeta f" s en s'] by simp

lemma gossip: "J s \<Longrightarrow> J (the (snd (ProcessGossipPayload en pl p (Some s))))"
  using st_keepsD [OF processPayload_keeps [OF op_inv], of s en p]
  by (auto simp: ProcessGossipPayload_def on_store_def split: prod.split)

lemma inbound_session: "parts_keep cr (\<lambda>w. J (wd_store w)) (inboundSession ne n sid q)"
  unfolding parts_keep_def inboundSession_def Let_def
  by (auto simp: NewSession_def SetPendingRequest_def SetPolicyStore_def liftTransport_store storeAppendRecord_def
      intro: insert_record split: sum.split)

lemma share_record: "node_inv cr J x \<Longrightarrow> ne_crypto ne = cr \<Longrightarrow> ne_proto ne = pl \<Longrightarrow> node_inv cr J (snd (handleShareRecord ne r x))"
  by (cases x; cases r)
    (auto simp: handleShareRecord_def node_inv_def res_bind_eq_Inr intro: insert_record insert_fork
      split: sum.split failure.split option.split)

lemma transfer_request: "node_inv cr J x \<Longrightarrow> node_inv cr J (snd (handleTransferRequest ne q x))"
  by (cases x; cases q)
    (auto simp: handleTransferRequest_def node_inv_def Let_def inbound_session
      split: sum.split failure.split option.split bool.split prod.split)

lemma gossip_message:
  assumes "node_inv cr J x" "ne_proto ne = pl"
  shows "node_inv cr J (snd (handleGossip ne p x))"
proof -
  obtain n w where x: "x = (n, w)" by (cases x)
  from assms gossip [of "wd_store w" "ne_engine ne" p] show ?thesis
    by (auto simp: x handleGossip_def node_inv_def split: prod.split)
qed

lemma dispatched:
  "node_inv cr J x \<Longrightarrow> ne_crypto ne = cr \<Longrightarrow> ne_proto ne = pl \<Longrightarrow> node_inv cr J (snd (dispatch ne env x))"
  unfolding dispatch_def
  by (auto simp: st_ret_def share_record transfer_request gossip_message split: option.split Envelope_Payload.split)

lemma received:
  assumes "node_inv cr J (n, w)" "ne_crypto ne = cr" "ne_proto ne = pl" "eventStep ne (n, w) = Some out"
  shows "node_inv cr J (case out of Inl y \<Rightarrow> y | Inr (_, y) \<Rightarrow> y)"
proof (cases "ne_ctx_Err ne w = None")
  case False
  with assms show ?thesis by (auto simp: eventStep_def)
next
  case True
  with assms(4) obtain r w1 where recv: "tp_Recv (liftTransport (nd_transport n)) w = Some (r, w1)"
    by (cases "tp_Recv (liftTransport (nd_transport n)) w") (auto simp: eventStep_def)
  with assms(1) liftTransport_store(2) [OF recv] have I: "node_inv cr J (n, w1)" by (simp add: node_inv_def)
  have "node_inv cr J y" if "dispatch ne env (n, w1) = (q, y)" for env q y
    using dispatched [OF I assms(2,3), of env] that by simp
  with True recv I assms(4) show ?thesis
    by (auto simp: eventStep_def split: sum.splits failure.splits option.splits prod.splits)
qed

lemma goroutine_run:
  assumes I: "node_inv cr J (n, w)" and "ne_crypto ne = cr" "ref \<in> set (nd_spawned n)"
    and run: "runSpawned ne order ref (n, w) = Some (r, y)"
  shows "node_inv cr J y"
proof -
  from run obtain q s w1 where s: "RunSession (sessionEnv ne) (nd_heap n ref) w = Some (q, s, w1)"
    by (auto simp: runSpawned_def bind_eq_Some_conv)
  have K: "J (wd_store w1) \<and> parts_keep cr (\<lambda>w. J (wd_store w)) s"
    using RunSession_keeps [OF _ _ s, of "\<lambda>w. J (wd_store w)"] I assms(2,3) by (auto simp: node_inv_def sessionEnv_def)
  have "node_inv cr J (n\<lparr>nd_heap := (nd_heap n)(ref := s), nd_spawned := remove1 ref (nd_spawned n)\<rparr>, w1)"
    using K I by (auto simp: node_inv_def dest: notin_set_remove1)
  with run s show ?thesis
    by (auto simp: runSpawned_def Let_def node_inv_def split: sum.splits failure.splits)
qed

lemma ticked: "node_inv cr J x \<Longrightarrow> ne_proto ne = pl \<Longrightarrow> node_inv cr J (snd (checkpointTick ne x))"
  by (cases x)
    (auto simp: checkpointTick_def node_inv_def intro: insert_checkpoint split: sum.split failure.split prod.split)

lemma advertised: "node_inv cr J x \<Longrightarrow> node_inv cr J (snd (AdvertiseFile ne salt meta idx x))"
  by (cases x; cases meta)
    (auto simp: AdvertiseFile_def node_inv_def Let_def intro: insert_file split: sum.split)

lemma step_keeps:
  assumes "node_step cr pl x y" "node_inv cr J x"
  shows "node_inv cr J y"
  using assms
proof (induction rule: node_step.induct)
  case (event ne x y)
  thus ?case using received [of "fst x" "snd x" ne "Inl y"] by simp
next
  case (event_end ne x r y)
  thus ?case using received [of "fst x" "snd x" ne "Inr (r, y)"] by simp
next
  case (goroutine ne ref n order w r y)
  show ?case using goroutine_run [OF goroutine.prems goroutine.hyps(1,3,4)] .
next
  case (tick ne x r y)
  thus ?case using ticked [of x ne] by simp
next
  case (advertise ne salt meta idx x a y)
  thus ?case using advertised [of x ne salt meta idx] by simp
qed (auto simp: node_inv_def)

lemma reachable:
  assumes "(node_step cr pl)\<^sup>*\<^sup>* (n\<^sub>0, w\<^sub>0) (n, w)" "nd_spawned n\<^sub>0 = []" "J (wd_store w\<^sub>0)"
  shows "J (wd_store w)"
proof -
  from assms(2,3) have "node_inv cr J (n\<^sub>0, w\<^sub>0)" by (simp add: node_inv_def)
  with assms(1) have "node_inv cr J (n, w)"
    by (induction rule: rtranclp_induct) (auto intro: step_keeps)
  thus ?thesis by (simp add: node_inv_def)
qed

end

interpretation validated: store_predicate pl cr "validated_rows cr" for pl cr
  by unfold_locales (rule validated_rows_invariant)

interpretation well_formed: store_predicate pl cr store_ok for pl cr
  by unfold_locales (auto simp: op_invariant_def intro: exec_op_store_ok)

interpretation append_only: store_predicate pl cr
    "\<lambda>t. prefix (share_records s) (share_records t) \<and> prefix (fork_evidence s) (fork_evidence t)" for pl cr s
  by unfold_locales (auto simp: op_invariant_def dest: exec_op_append_only intro: prefix_order.trans)

section \<open>Sessions that have not run\<close>

text \<open>
  The sessions whose goroutines were started and have not run: each has its own object, is idle, has no
  file storage, and appends to the database of the node.
\<close>

definition waiting_sessions :: "'x Node \<Rightarrow> bool" where
  "waiting_sessions n \<longleftrightarrow> distinct (nd_spawned n) \<and>
     (\<forall>ref\<in>set (nd_spawned n). ref < nd_next n \<and> ss_State (nd_heap n ref) = StateIdle \<and> ss_storage (nd_heap n ref) = None \<and>
        (\<exists>t. ss_transport (nd_heap n ref) = Some (liftTransport t)) \<and> (\<exists>ne. ss_chain (nd_heap n ref) = Some (storeAppendRecord ne)))"

lemma waiting_transfer_request: "waiting_sessions (fst x) \<Longrightarrow> waiting_sessions (fst (snd (handleTransferRequest ne q x)))"
  by (cases x; cases q)
    (auto simp: handleTransferRequest_def waiting_sessions_def Let_def inboundSession_def NewSession_def SetPendingRequest_def
      SetPolicyStore_def less_Suc_eq split: sum.split option.split bool.split prod.split)

lemma waiting_dispatch: "waiting_sessions (fst x) \<Longrightarrow> waiting_sessions (fst (snd (dispatch ne env x)))"
  unfolding dispatch_def
  by (cases x)
    (auto simp: st_ret_def waiting_transfer_request handleGossip_def handleShareRecord_def
      split: option.split Envelope_Payload.split prod.split sum.split failure.split)

lemma runSpawned_Some:
  assumes "runSpawned ne order ref (n, w) = Some (r, n', w')"
  shows "\<exists>q s. RunSession (sessionEnv ne) (nd_heap n ref) w = Some (q, s, w') \<and> nd_heap n' = (nd_heap n)(ref := s) \<and>
    nd_spawned n' = remove1 ref (nd_spawned n) \<and> nd_next n' = nd_next n"
proof -
  from assms obtain q s w1 where "RunSession (sessionEnv ne) (nd_heap n ref) w = Some (q, s, w1)"
    by (auto simp: runSpawned_def bind_eq_Some_conv)
  with assms show ?thesis by (cases q; cases "projl q") (auto simp: runSpawned_def Let_def)
qed

lemma waiting_run:
  assumes "waiting_sessions n" and "ref \<in> set (nd_spawned n)" and "runSpawned ne order ref (n, w) = Some (r, n', w')"
  shows "waiting_sessions n'"
  using runSpawned_Some [OF assms(3)] assms(1,2) by (auto simp: waiting_sessions_def set_remove1_eq)

text \<open>A property of the node alone, without the world, is kept by every move when the handlers and the session goroutines keep it.\<close>

lemma node_step_keeps:
  assumes "node_step cr pl x y" and "P (fst x)"
    and disp: "\<And>ne env n w. P n \<Longrightarrow> P (fst (snd (dispatch ne env (n, w))))"
    and run: "\<And>ne order ref n w r n' w'. P n \<Longrightarrow> ref \<in> set (nd_spawned n) \<Longrightarrow> runSpawned ne order ref (n, w) = Some (r, n', w') \<Longrightarrow> P n'"
    and frame: "\<And>n t. P n \<Longrightarrow> P (n\<lparr>nd_lastCheckpointAt := t\<rparr>)" "\<And>n i. P n \<Longrightarrow> P (n\<lparr>nd_discovery := i\<rparr>)"
  shows "P (fst y)"
proof -
  have ev: "P (fst (case out of Inl y \<Rightarrow> y | Inr (_, y) \<Rightarrow> y))" if "P n" "eventStep ne (n, w) = Some out" for ne n w out
  proof (cases "ne_ctx_Err ne w = None")
    case False
    with that show ?thesis by (auto simp: eventStep_def)
  next
    case True
    with that(2) obtain r w1 where recv: "tp_Recv (liftTransport (nd_transport n)) w = Some (r, w1)"
      by (cases "tp_Recv (liftTransport (nd_transport n)) w") (auto simp: eventStep_def)
    have "P (fst y)" if "dispatch ne env (n, w1) = (q, y)" for env q y
      using disp [OF \<open>P n\<close>, of ne env w1] that by simp
    with True recv that show ?thesis
      by (auto simp: eventStep_def split: sum.splits failure.splits option.splits prod.splits)
  qed
  from assms(1,2) show ?thesis
  proof (induction rule: node_step.induct)
    case (event ne x y)
    thus ?case using ev [of "fst x" ne "snd x" "Inl y"] by simp
  next
    case (event_end ne x r y)
    thus ?case using ev [of "fst x" ne "snd x" "Inr (r, y)"] by simp
  next
    case (goroutine ne ref n order w r y)
    thus ?case using run by (cases y) auto
  next
    case (tick ne x r y)
    thus ?case using frame(1) by (cases x) (auto simp: checkpointTick_def split: sum.splits failure.splits prod.splits if_splits)
  next
    case (advertise ne salt meta idx x a y)
    thus ?case using frame(2) by (cases x; cases meta) (auto simp: AdvertiseFile_def Let_def split: sum.splits)
  qed simp
qed

lemma waiting_step:
  assumes "node_step cr pl x y" and "waiting_sessions (fst x)"
  shows "waiting_sessions (fst y)"
  using assms
proof (rule node_step_keeps)
  fix ne :: "'a node_env" and env n w
  show "waiting_sessions n \<Longrightarrow> waiting_sessions (fst (snd (dispatch ne env (n, w))))"
    using waiting_dispatch [of "(n, w)" ne env] by simp
next
  fix ne :: "'a node_env" and order ref n w r n' w'
  show "waiting_sessions n \<Longrightarrow> ref \<in> set (nd_spawned n) \<Longrightarrow> runSpawned ne order ref (n, w) = Some (r, n', w') \<Longrightarrow> waiting_sessions n'"
    by (rule waiting_run)
qed (simp_all add: waiting_sessions_def)

lemma waiting_reachable: "(node_step cr pl)\<^sup>*\<^sup>* x y \<Longrightarrow> waiting_sessions (fst x) \<Longrightarrow> waiting_sessions (fst y)"
  by (induction rule: rtranclp_induct) (auto intro: waiting_step)

text \<open>A session that waits to run keeps the appender it was made with.\<close>

definition appends_with :: "session_ref \<Rightarrow> (ShareRecord \<Rightarrow> 'x world \<Rightarrow> unit res \<times> 'x world) \<Rightarrow> 'x Node \<Rightarrow> bool" where
  "appends_with ref app n \<longleftrightarrow> waiting_sessions n \<and> ref < nd_next n \<and>
     (ref \<in> set (nd_spawned n) \<longrightarrow> ss_chain (nd_heap n ref) = Some app)"

lemma appends_dispatch: "appends_with ref app (fst x) \<Longrightarrow> appends_with ref app (fst (snd (dispatch ne env x)))"
  using waiting_dispatch [of x ne env] unfolding appends_with_def dispatch_def
  by (cases x)
    (auto simp: st_ret_def handleGossip_def handleShareRecord_def handleTransferRequest_def SetPendingRequest_def Let_def less_Suc_eq
      split: option.splits Envelope_Payload.splits prod.splits sum.splits failure.splits bool.splits)

lemma appends_reachable:
  assumes "(node_step cr pl)\<^sup>*\<^sup>* x y" and "appends_with ref app (fst x)"
  shows "appends_with ref app (fst y)"
  using assms
proof (induction rule: rtranclp_induct)
  case (step y z)
  hence "appends_with ref app (fst y)" by blast
  with step.hyps(2) show ?case
  proof (rule node_step_keeps)
    fix ne :: "'a node_env" and env n w
    show "appends_with ref app n \<Longrightarrow> appends_with ref app (fst (snd (dispatch ne env (n, w))))"
      using appends_dispatch [of ref app "(n, w)" ne env] by simp
  next
    fix ne :: "'a node_env" and order ref' n w r n' w'
    assume "appends_with ref app n" "ref' \<in> set (nd_spawned n)" and run: "runSpawned ne order ref' (n, w) = Some (r, n', w')"
    with waiting_run [OF _ _ run] runSpawned_Some [OF run] show "appends_with ref app n'"
      by (auto simp: appends_with_def waiting_sessions_def set_remove1_eq)
  qed (auto simp: appends_with_def waiting_sessions_def)
qed

context store_predicate
begin

lemma waiting_node_inv: "waiting_sessions n \<Longrightarrow> J (wd_store w) \<Longrightarrow> node_inv cr J (n, w)"
  unfolding node_inv_def parts_keep_def waiting_sessions_def
  by (fastforce simp: liftTransport_store storeAppendRecord_def intro: insert_record split: sum.splits)

lemma later:
  assumes "(node_step cr pl)\<^sup>*\<^sup>* (n, w) (n', w')" and "waiting_sessions n" and "J (wd_store w)"
  shows "J (wd_store w')"
proof -
  have "node_inv cr J (n, w)" using assms(2,3) by (rule waiting_node_inv)
  with assms(1) have "node_inv cr J (n', w')"
    by (induction rule: rtranclp_induct) (auto intro: step_keeps)
  thus ?thesis by (simp add: node_inv_def)
qed

end

section \<open>Handlers\<close>

text \<open>The evidence that \<open>DetectFork\<close> builds has no reporter, which the table does not admit.\<close>

lemma DetectFork_not_stored:
  assumes "driver_ok en" "DetectFork a b d = Some e" "InsertForkEvidence en pl (Some e) s = Inr s'"
  shows False
  using assms by (auto simp: DetectFork_eq InsertForkEvidence_def stmt_Inr check_all_eq_Inr not_null_def fail_def split: if_splits)

lemma handleShareRecord_stored:
  assumes "driver_ok (ne_engine ne)" "ValidateShareRecord (ne_crypto ne) r = Inr ()" "InsertRecord (ne_engine ne) r (wd_store w) = Inr s"
  shows "handleShareRecord ne (Some r) (n, w) =
    (case GetLatestRecord (ne_engine ne) (sr_SenderPubkey r) s of Inl (Panic p) \<Rightarrow> Inl (Panic p)
       | Inr latest \<Rightarrow> (case DetectFork latest r (sr_SenderPubkey r) of None \<Rightarrow> Inr ()
           | Some fork \<Rightarrow> (case InsertForkEvidence (ne_engine ne) (ne_proto ne) (Some fork) s of Inl (Panic p) \<Rightarrow> Inl (Panic p) | _ \<Rightarrow> Inr ()))
       | _ \<Rightarrow> Inr (), n, w\<lparr>wd_store := s\<rparr>)"
proof -
  have "InsertForkEvidence (ne_engine ne) pl (Some e) s \<noteq> Inr s'" if "DetectFork a b d = Some e" for pl a b d e s'
    using DetectFork_not_stored [OF assms(1) that] by blast
  with assms show ?thesis
    by (auto simp: handleShareRecord_def split: sum.split failure.split option.split)
qed

text \<open>
  C20. What a share record from a peer does to the node.  It is stored exactly when it validates and
  the insertion succeeds, and then the only change is this one row; in every other case an error is
  returned and nothing changes.  Fork evidence is never stored, although the handler looks for it.
\<close>

theorem share_record_handled:
  assumes "driver_ok (ne_engine ne)" and "handleShareRecord ne (Some r) (n, w) = (res, n', w')"
  shows "n' = n \<and> fork_evidence (wd_store w') = fork_evidence (wd_store w) \<and>
    (case res_bind (ValidateShareRecord (ne_crypto ne) r) (\<lambda>_. InsertRecord (ne_engine ne) r (wd_store w)) of
       Inl e \<Rightarrow> res = Inl e \<and> w' = w
     | Inr s \<Rightarrow> w' = w\<lparr>wd_store := s\<rparr> \<and> share_records s = share_records (wd_store w) @ [record_row (ne_engine ne) r] \<and>
         (\<forall>e. res \<noteq> Inl (Err e)))"
proof (cases "res_bind (ValidateShareRecord (ne_crypto ne) r) (\<lambda>_. InsertRecord (ne_engine ne) r (wd_store w))")
  case (Inl e)
  with assms(2) show ?thesis by (simp add: handleShareRecord_def)
next
  case (Inr s)
  hence v: "ValidateShareRecord (ne_crypto ne) r = Inr ()" and i: "InsertRecord (ne_engine ne) r (wd_store w) = Inr s"
    by (auto simp: res_bind_eq_Inr)
  from i have "share_records s = share_records (wd_store w) @ [record_row (ne_engine ne) r]" "fork_evidence s = fork_evidence (wd_store w)"
    by (simp_all add: InsertRecord_eq_Inr)
  with handleShareRecord_stored [OF assms(1) v i, of n] Inr assms(2) show ?thesis
    by (auto split: sum.splits failure.splits option.splits)
qed

text \<open>
  A tick of the checkpoint loop never changes anything: the checkpoint it computes has no device
  signature, and the table refuses it.
\<close>

theorem checkpoint_tick_idle:
  assumes "driver_ok (ne_engine ne)"
  shows "snd (checkpointTick ne x) = x"
proof -
  have sig: "cp_DeviceSig cp = None" if "ComputeCheckpoint pf rs d t pr ws = Inr (cp, m)" for pf rs d t pr ws cp m
    using that by (auto simp: ComputeCheckpoint_def res_bind_eq_Inr Let_def split: prod.splits)
  have "InsertCheckpoint (ne_engine ne) pl (Some cp) s \<noteq> Inr s'" if "cp_DeviceSig cp = None" for cp pl s s'
    using that assms by (auto simp: InsertCheckpoint_def Let_def stmt_Inr check_all_eq_Inr not_null_def fail_def)
  with sig show ?thesis
    by (cases x) (auto simp: checkpointTick_def split: sum.split failure.split prod.split)
qed

definition request_session_id :: "TransferRequest \<Rightarrow> string" where
  "request_session_id q = hex (bs (tr_RequesterPubkey q)) @ '':'' @ hex (bs (tr_FileHash q))"

definition request_accepted :: "'x node_env \<Rightarrow> 'x world \<Rightarrow> TransferRequest \<Rightarrow> bool" where
  "request_accepted ne w q \<longleftrightarrow> ValidateTransferRequest (ne_crypto ne) q = Inr () \<and>
     ValidateTransferRequestWindow (Some q) (ne_now ne w) DefaultTransferRequestTTLSeconds = Inr ()"

lemma request_starts_session:
  assumes "request_accepted ne w q" "sm_sessions (nd_transfer n) (request_session_id q) = None"
  shows "handleTransferRequest ne (Some q) (n, w) =
    (let s = inboundSession ne n (request_session_id q) q; heap = (nd_heap n)(nd_next n := s)
     in (Inr (), n\<lparr>nd_transfer := snd (Add heap (Some (nd_next n)) (nd_transfer n)), nd_heap := heap,
           nd_next := nd_next n + 1, nd_spawned := nd_spawned n @ [nd_next n]\<rparr>, w))"
  using assms
  by (simp add: handleTransferRequest_def request_accepted_def Get_def request_session_id_def Let_def split: prod.split)

lemma inboundSession_fields [simp]:
  "ss_ID (inboundSession ne n sid q) = sid" "ss_State (inboundSession ne n sid q) = StateIdle"
  "ss_storage (inboundSession ne n sid q) = None" "ss_pendingRequest (inboundSession ne n sid q) = Some q"
  by (simp_all add: inboundSession_def Let_def NewSession_def SetPendingRequest_def SetPolicyStore_def)

lemma Add_full: "sm_maxConc m \<le> int (ActiveCount m) \<Longrightarrow> snd (Add h p m) = m"
  by (auto simp: Add_def ActiveCount_def split: option.split)

text \<open>
  A request that is signed and inside its time window, for which the table has no session,
  always starts a new idle session with the request pending and without file storage.  When the
  table is full it stays as it is and the session runs nevertheless: any number of copies of such a
  request starts that many sessions.
\<close>

theorem transfer_limit_not_enforced:
  assumes "request_accepted ne w q" and "sm_sessions (nd_transfer n) (request_session_id q) = None"
    and "sm_maxConc (nd_transfer n) \<le> int (ActiveCount (nd_transfer n))"
  shows "\<exists>n'. ((\<lambda>x. snd (handleTransferRequest ne (Some q) x)) ^^ k) (n, w) = (n', w) \<and> nd_transfer n' = nd_transfer n \<and>
    nd_spawned n' = nd_spawned n @ [nd_next n ..< nd_next n + k] \<and>
    (\<forall>ref\<in>{nd_next n ..< nd_next n + k}. ss_State (nd_heap n' ref) = StateIdle \<and>
       ss_pendingRequest (nd_heap n' ref) = Some q \<and> ss_storage (nd_heap n' ref) = None)"
proof -
  let ?h = "\<lambda>x. snd (handleTransferRequest ne (Some q) x)"
  have "\<exists>n'. (?h ^^ k) (n, w) = (n', w) \<and> nd_transfer n' = nd_transfer n \<and> nd_next n' = nd_next n + k \<and>
      nd_spawned n' = nd_spawned n @ [nd_next n ..< nd_next n + k] \<and>
      (\<forall>ref\<in>{nd_next n ..< nd_next n + k}. ss_State (nd_heap n' ref) = StateIdle \<and>
         ss_pendingRequest (nd_heap n' ref) = Some q \<and> ss_storage (nd_heap n' ref) = None)"
  proof (induction k)
    case (Suc k)
    then obtain m where m: "(?h ^^ k) (n, w) = (m, w)" "nd_transfer m = nd_transfer n" "nd_next m = nd_next n + k"
        "nd_spawned m = nd_spawned n @ [nd_next n ..< nd_next n + k]"
      and heap: "\<forall>ref\<in>{nd_next n ..< nd_next n + k}. ss_State (nd_heap m ref) = StateIdle \<and>
        ss_pendingRequest (nd_heap m ref) = Some q \<and> ss_storage (nd_heap m ref) = None"
      by blast
    have "sm_sessions (nd_transfer m) (request_session_id q) = None" using m(2) assms(2) by simp
    from request_starts_session [OF assms(1) this] m heap assms(3) show ?case
      by (auto simp: Let_def Add_full)
  qed simp
  thus ?thesis by blast
qed

text \<open>
  C39. A correctly signed share record whose chunk hashes are not a multiple of 32 bytes, newer than
  the sender's stored records, brings the process down: the event loop stores it, and the panic of
  reading it back ends the loop.
\<close>

theorem malformed_record_ends_event_loop:
  assumes "driver_ok (ne_engine ne)" and "ne_ctx_Err ne w = None"
    and "tp_Recv (nd_transport n) (wd_ext w) = Some (Inr (Some (envelope (Envelope_ShareRecord (Some r)))), e)"
    and "ValidateShareRecord (ne_crypto ne) r = Inr ()" and "InsertRecord (ne_engine ne) r (wd_store w) = Inr s"
    and "\<forall>row\<in>set (share_records (wd_store w)). of_device (ne_engine ne) (sr_SenderPubkey r) row \<longrightarrow>
      sint (rr_timestamp row) < sint (sr_Timestamp r)"
    and "length (concat (map bs (sr_ChunkHashes r))) mod 32 \<noteq> 0"
    and "length (en_spare (ne_engine ne) (concat (map bs (sr_ChunkHashes r)))) < 32 - length (concat (map bs (sr_ChunkHashes r))) mod 32"
  shows "\<exists>p. eventLoop ne (n, w) = Some (Inl (Panic p), n, w\<lparr>wd_store := s, wd_ext := e\<rparr>)"
proof -
  let ?en = "ne_engine ne" and ?row = "record_row (ne_engine ne) r"
  have "is_panic (splitHashes ?en (joinHashes (sr_ChunkHashes r)))"
    by (rule splitHashes_panic) (use assms(7,8) in \<open>simp_all add: bs_joinHashes\<close>)
  then obtain p where p: "splitHashes ?en (joinHashes (sr_ChunkHashes r)) = Inl (Panic p)"
    by (auto simp: is_panic_def split: sum.splits failure.splits)
  have ins: "record_row_ok ?row" "sr_SenderPubkey r \<noteq> None" "share_records s = share_records (wd_store w) @ [?row]"
    using assms(1,5) by (auto simp: InsertRecord_eq_Inr record_row_def)
  have scan: "scanRecord ?en ?row = Inl (Panic p)"
    using ins(1) assms(1) p by (simp add: scanRecord_def record_row_ok_def scan_u64_def record_row_def)
  have own: "of_device ?en (sr_SenderPubkey r) ?row"
    using ins(2) assms(1) by (auto simp: of_device_def record_row_def sql_eq_def)
  have "first_row (order_desc rr_timestamp (filter (of_device ?en (sr_SenderPubkey r)) (share_records s))) = Some ?row"
    using assms(6) own by (auto simp: ins(3) record_row_def intro!: first_row_order_desc_snoc)
  hence "GetLatestRecord ?en (sr_SenderPubkey r) s = Inl (Panic p)"
    using ins(2) assms(1) scan by (auto simp: GetLatestRecord_def scan_row_def)
  with assms(4,5) have h: "handleShareRecord ne (Some r) (n, w\<lparr>wd_ext := e\<rparr>) = (Inl (Panic p), n, w\<lparr>wd_ext := e, wd_store := s\<rparr>)"
    by (simp add: handleShareRecord_def)
  have "eventStep ne (n, w) = Some (Inr (Inl (Panic p), n, w\<lparr>wd_ext := e, wd_store := s\<rparr>))"
    using assms(2,3) h by (simp add: eventStep_def liftTransport_def dispatch_def envelope_def)
  from for_ever_unfold(3) [of "eventStep ne", OF this] show ?thesis by (simp add: eventLoop_def)
qed

section \<open>Whole runs\<close>

text \<open>
  C2. Whatever the peers send and however the node's goroutines interleave: every share record that
  was added to the database validates (two signatures over its contents, and its id is their hash),
  the tables stay well formed, and no share record and no fork evidence is ever lost or changed.
\<close>

theorem node_database_invariant:
  assumes "(node_step cr pl)\<^sup>*\<^sup>* (n\<^sub>0, w\<^sub>0) (n, w)" and "nd_spawned n\<^sub>0 = []"
    and "store_ok (wd_store w\<^sub>0)" and "validated_rows cr (wd_store w\<^sub>0)"
  shows "store_ok (wd_store w) \<and> validated_rows cr (wd_store w) \<and>
    prefix (share_records (wd_store w\<^sub>0)) (share_records (wd_store w)) \<and>
    prefix (fork_evidence (wd_store w\<^sub>0)) (fork_evidence (wd_store w))"
  using well_formed.reachable [OF assms(1,2,3)] validated.reachable [OF assms(1,2,4)]
    append_only.reachable [OF assms(1,2), of "wd_store w\<^sub>0"] by simp

section \<open>Files\<close>

lemma matchLoop_spec:
  assumes "\<And>h. bs h \<noteq> [] \<Longrightarrow> MatchAdvertisement cr ad h = Inr (P h)"
    and "\<And>h. bs h = [] \<Longrightarrow> \<exists>e. MatchAdvertisement cr ad h = Inl (Err e)"
  shows "matchLoop cr ad fs = Inr (filter (\<lambda>h. bs h \<noteq> [] \<and> P h) (map fm_FileHash fs))"
proof (induction fs)
  case (Cons f fs)
  show ?case
  proof (cases "bs (fm_FileHash f) = []")
    case True
    with assms(2) [OF True] Cons.IH show ?thesis by auto
  next
    case False
    with assms(1) [OF False] Cons.IH show ?thesis by simp
  qed
qed simp

text \<open>
  C36. Advertising round trip.  An advertisement that a node made for a file and another node receives
  is answered with exactly the hashes of its listed files whose salted digest starts with the same
  four bytes; a file that both have is always among them.
\<close>

theorem advertised_file_matched:
  assumes "sha256_ok (ne_crypto ne)" and "length salt = 8"
    and "AdvertiseFile ne (Inr salt) (Some m) idx x = (Inr ad, y)"
    and "ListFiles (ne_engine ne') 256 0 (wd_store w) = Inr fs" and "ne_crypto ne' = ne_crypto ne"
  shows "\<exists>out. MatchIncomingAdvertisement ne' (Some ad) (n, w) = Inr out \<and>
    set out = {h \<in> fm_FileHash ` set fs. bs h \<noteq> [] \<and>
       take 4 (Hash (ne_crypto ne) (bs h @ salt)) = take 4 (Hash (ne_crypto ne) (bs (fm_FileHash m) @ salt))} \<and>
    (fm_FileHash m \<in> fm_FileHash ` set fs \<longrightarrow> fm_FileHash m \<in> set out)"
proof -
  from assms(3) have ad: "GenerateAdvertisement (ne_crypto ne) (Inr salt) (fm_FileHash m) = Inr ad"
    by (cases x) (auto simp: AdvertiseFile_def Let_def split: sum.splits)
  hence ne: "bs (fm_FileHash m) \<noteq> []" by (auto simp: GenerateAdvertisement_def split: if_splits)
  let ?P = "\<lambda>h. take 4 (Hash (ne_crypto ne) (bs h @ salt)) = take 4 (Hash (ne_crypto ne) (bs (fm_FileHash m) @ salt))"
  have "matchLoop (ne_crypto ne) (Some ad) fs = Inr (filter (\<lambda>h. bs h \<noteq> [] \<and> ?P h) (map fm_FileHash fs))"
    by (rule matchLoop_spec) (simp_all add: generated_matches [OF assms(1,2) ad] unadvertised_empty_match)
  with assms(4,5) ne show ?thesis by (auto simp: MatchIncomingAdvertisement_def)
qed

section \<open>A concrete node\<close>

text \<open>A node with an empty database on a queue of incoming messages, and records signed by two devices.\<close>

definition demo_node_env :: "'x node_env" where
  "demo_node_env = \<lparr>ne_crypto = demo_crypto, ne_proto = demo_proto, ne_platform = demo_platform, ne_order = (\<lambda>xs. xs),
     ne_engine = demo_engine, ne_now = (\<lambda>_. 100), ne_ctx_Err = (\<lambda>_. None)\<rparr>"

definition demo_identity :: Identity where
  "demo_identity = \<lparr>id_Pubkey = Some (demo_pub 3), id_PrivateKey = None, id_CreatedAt = 1, id_ChainHead = None,
     id_ChainIndex = 0, id_CumulativeSent = 0, id_CumulativeReceived = 0\<rparr>"

definition demo_node :: "Envelope option list Node" where
  "demo_node = \<lparr>nd_identity = demo_identity, nd_transfer = \<lparr>sm_sessions = [''x'' \<mapsto> Some 0], sm_maxConc = 1\<rparr>,
     nd_discovery = NewFileIndex, nd_transport = queue_transport, nd_signer = None, nd_checkpointInterval = 100,
     nd_lastCheckpointAt = 0, nd_heap = (\<lambda>_. NewSession ''p'' DirectionInbound None None None None None), nd_next = 1, nd_spawned = []\<rparr>"

definition demo_cosign :: "ShareRecord \<Rightarrow> ShareRecord" where
  "demo_cosign d = AttachReceiverSig demo_crypto
     (AttachSenderSig d (Some (demo_pub 1 @ SignableBytes d))) (Some (demo_pub 2 @ SignableBytes d))"

definition demo_crash :: ShareRecord where
  "demo_crash = demo_cosign (demo_draft\<lparr>sr_ChunkHashes := [Some [1, 2, 3]]\<rparr>)"

definition demo_world :: "Envelope option list world" where
  "demo_world = \<lparr>wd_store = empty_store, wd_ext = [Some (envelope (Envelope_ShareRecord (Some demo_crash)))]\<rparr>"

lemma demo_node_env_sel [simp]:
  "ne_crypto demo_node_env = demo_crypto" "ne_proto demo_node_env = demo_proto" "ne_engine demo_node_env = demo_engine"
  "ne_ctx_Err demo_node_env w = None" "ne_now demo_node_env w = 100"
  by (simp_all add: demo_node_env_def)

lemma demo_cosign_valid:
  "sr_SenderPubkey d = Some (demo_pub 1) \<Longrightarrow> sr_ReceiverPubkey d = Some (demo_pub 2) \<Longrightarrow> ValidateShareRecord demo_crypto (demo_cosign d) = Inr ()"
  unfolding demo_cosign_def by (rule Attach_validates) (simp_all add: Verify_def PublicKeySize_def demo_crypto_def demo_pub_def)

lemma demo_crash_valid: "ValidateShareRecord demo_crypto demo_crash = Inr ()"
  unfolding demo_crash_def by (rule demo_cosign_valid) (simp_all add: demo_draft_def)

lemmas demo_crash_fields = demo_crash_def demo_cosign_def AttachReceiverSig_def AttachSenderSig_def demo_draft_def

lemma demo_crash_inserted:
  "InsertRecord demo_engine demo_crash empty_store = Inr (empty_store\<lparr>share_records := [record_row demo_engine demo_crash]\<rparr>)"
  unfolding InsertRecord_eq_Inr
  by (simp add: record_row_def record_row_ok_def empty_store_def demo_crash_fields Let_def demo_engine_def)

theorem malformed_record_ends_event_loop_witness:
  "\<exists>p. eventLoop demo_node_env (demo_node, demo_world) =
     Some (Inl (Panic p), demo_node, \<lparr>wd_store = empty_store\<lparr>share_records := [record_row demo_engine demo_crash]\<rparr>, wd_ext = []\<rparr>)"
proof -
  have "\<exists>p. eventLoop demo_node_env (demo_node, demo_world) = Some (Inl (Panic p), demo_node,
      demo_world\<lparr>wd_store := empty_store\<lparr>share_records := [record_row demo_engine demo_crash]\<rparr>, wd_ext := []\<rparr>)"
    by (rule malformed_record_ends_event_loop [of demo_node_env demo_world demo_node demo_crash])
      (simp_all add: demo_world_def demo_node_def queue_transport_def demo_crash_valid demo_crash_inserted,
       simp_all add: demo_crash_fields demo_engine_def empty_store_def Let_def)
  thus ?thesis by (simp add: demo_world_def)
qed

theorem share_record_handled_witness:
  "fork_evidence (wd_store (snd (snd (handleShareRecord demo_node_env (Some demo_crash) (demo_node, demo_world))))) = [] \<and>
   share_records (wd_store (snd (snd (handleShareRecord demo_node_env (Some demo_crash) (demo_node, demo_world))))) =
     [record_row demo_engine demo_crash]"
proof -
  obtain r n w where h: "handleShareRecord demo_node_env (Some demo_crash) (demo_node, demo_world) = (r, n, w)"
    by (cases "handleShareRecord demo_node_env (Some demo_crash) (demo_node, demo_world)") auto
  have "wd_store demo_world = empty_store" by (simp add: demo_world_def)
  with share_record_handled [OF _ h] h demo_crash_valid demo_crash_inserted show ?thesis
    by (auto simp: empty_store_def)
qed

theorem checkpoint_tick_idle_witness: "snd (checkpointTick demo_node_env (demo_node, demo_world)) = (demo_node, demo_world)"
  by (rule checkpoint_tick_idle) simp

definition demo_signed_request :: TransferRequest where
  "demo_signed_request = (let q = \<lparr>tr_RequesterPubkey = Some (demo_pub 1), tr_FileHash = Some [2], tr_ChunkIndices = [], tr_Nonce = None,
     tr_Timestamp = 100, tr_Signature = None\<rparr> in q\<lparr>tr_Signature := Some (demo_pub 1 @ TransferRequestSignableBytes q)\<rparr>)"

lemma demo_request_accepted: "request_accepted demo_node_env w demo_signed_request"
  unfolding request_accepted_def
  by (simp add: demo_signed_request_def ValidateTransferRequest_def Verify_def PublicKeySize_def demo_crypto_def demo_pub_def
      TransferRequestSignableBytes_def ValidateTransferRequestWindow_def DefaultTransferRequestTTLSeconds_def Let_def)

theorem transfer_limit_not_enforced_witness:
  "\<exists>n'. ((\<lambda>x. snd (handleTransferRequest demo_node_env (Some demo_signed_request) x)) ^^ 5) (demo_node, demo_world) = (n', demo_world) \<and>
     ActiveCount (nd_transfer n') = 1 \<and> nd_spawned n' = [1, 2, 3, 4, 5]"
proof -
  have "sm_sessions (nd_transfer demo_node) (request_session_id demo_signed_request) = None"
    by (simp add: demo_node_def request_session_id_def append_eq_Cons_conv)
  moreover have "sm_maxConc (nd_transfer demo_node) \<le> int (ActiveCount (nd_transfer demo_node))"
    by (simp add: demo_node_def ActiveCount_def)
  ultimately show ?thesis
    using transfer_limit_not_enforced [OF demo_request_accepted, of demo_node 5 demo_world]
    by (auto simp: demo_node_def ActiveCount_def upt_rec numeral_eq_Suc)
qed

lemma demo_event:
  "\<exists>n w. node_step demo_crypto demo_proto (demo_node, demo_world) (n, w) \<and>
     wd_store w = empty_store\<lparr>share_records := [record_row demo_engine demo_crash]\<rparr>"
proof -
  let ?s = "empty_store\<lparr>share_records := [record_row demo_engine demo_crash]\<rparr>" and ?w = "demo_world\<lparr>wd_ext := []\<rparr>"
  have "InsertRecord (ne_engine demo_node_env) demo_crash (wd_store ?w) = Inr ?s"
    using demo_crash_inserted by (simp add: demo_world_def)
  then obtain r where h: "handleShareRecord demo_node_env (Some demo_crash) (demo_node, ?w) = (r, demo_node, ?w\<lparr>wd_store := ?s\<rparr>)"
    by (auto simp: handleShareRecord_stored demo_crash_valid)
  have "eventStep demo_node_env (demo_node, demo_world) =
      (case r of Inl (Panic p) \<Rightarrow> Some (Inr (Inl (Panic p), demo_node, ?w\<lparr>wd_store := ?s\<rparr>)) | _ \<Rightarrow> Some (Inl (demo_node, ?w\<lparr>wd_store := ?s\<rparr>)))"
    using h by (simp add: eventStep_def liftTransport_def dispatch_def envelope_def demo_node_def queue_transport_def demo_world_def
        split: sum.split failure.split)
  hence "node_step demo_crypto demo_proto (demo_node, demo_world) (demo_node, ?w\<lparr>wd_store := ?s\<rparr>)"
    by (auto intro: node_step.event [of demo_node_env] node_step.event_end [of demo_node_env] split: sum.splits failure.splits)
  thus ?thesis by force
qed

theorem node_database_invariant_witness:
  "\<exists>n w. (node_step demo_crypto demo_proto)\<^sup>*\<^sup>* (demo_node, demo_world) (n, w) \<and>
     length (share_records (wd_store w)) = 1 \<and> validated_rows demo_crypto (wd_store w)"
proof -
  obtain n w where step: "node_step demo_crypto demo_proto (demo_node, demo_world) (n, w)"
    and w: "wd_store w = empty_store\<lparr>share_records := [record_row demo_engine demo_crash]\<rparr>"
    using demo_event by blast
  from step have reach: "(node_step demo_crypto demo_proto)\<^sup>*\<^sup>* (demo_node, demo_world) (n, w)" by simp
  have "validated_rows demo_crypto (wd_store w)"
    using node_database_invariant [OF reach] by (simp add: demo_node_def demo_world_def store_ok_empty) (simp add: validated_rows_def empty_store_def)
  with reach w show ?thesis by (intro exI [of _ n] exI [of _ w]) simp
qed

definition demo_shared_file :: FileMeta where
  "demo_shared_file = demo_file\<lparr>fm_ChunkHashes := []\<rparr>"

theorem advertised_file_matched_witness:
  "\<exists>ad n w out. AdvertiseFile demo_node_env (Inr (replicate 8 1)) (Some demo_shared_file) [0] (demo_node, demo_world) = (Inr ad, n, w) \<and>
     MatchIncomingAdvertisement demo_node_env (Some ad) (n, w) = Inr out \<and> fm_FileHash demo_shared_file \<in> set out"
proof -
  let ?row = "\<lparr>fr_file_hash = Some [4], fr_file_name = ''f'', fr_file_size = 10, fr_chunk_size = 10, fr_chunk_hashes = None,
      fr_origin_pubkey = Some [1], fr_origin_sig = Some [2], fr_created_at = 5\<rparr>"
  have ins: "InsertFileMeta demo_engine (Some demo_shared_file) (wd_store demo_world) = Inr (empty_store\<lparr>files := [?row]\<rparr>)"
    by (simp add: InsertFileMeta_def demo_engine_def demo_shared_file_def demo_file_def empty_store_def insert_row_def
        u64_arg_def not_null_def demo_world_def joinHashes_def)
  have fs: "ListFiles demo_engine 256 0 (empty_store\<lparr>files := [?row]\<rparr>) = Inr [demo_shared_file]"
    by (simp add: ListFiles_def demo_engine_def scan_rows_def order_desc_def limit_rows_def scanFileMeta_def scan_u64_def
        splitHashes_def splitFrom.simps demo_shared_file_def demo_file_def)
  obtain ad where "GenerateAdvertisement demo_crypto (Inr (replicate 8 1)) (fm_FileHash demo_shared_file) = Inr ad"
    by (simp add: GenerateAdvertisement_def ComputeSaltedPrefix_def Let_def SaltSizeBytes_def demo_shared_file_def demo_file_def)
  moreover obtain idx where "AddFile (fm_FileHash demo_shared_file) [0] (Some (nd_discovery demo_node)) = Inr idx"
    by (simp add: AddFile_def Let_def demo_shared_file_def demo_file_def)
  ultimately obtain n w where ad: "AdvertiseFile demo_node_env (Inr (replicate 8 1)) (Some demo_shared_file) [0] (demo_node, demo_world) = (Inr ad, n, w)"
    and w: "wd_store w = empty_store\<lparr>files := [?row]\<rparr>"
    using ins by (simp add: AdvertiseFile_def Let_def)
  have "\<exists>out. MatchIncomingAdvertisement demo_node_env (Some ad) (n, w) = Inr out \<and>
      set out = {h \<in> fm_FileHash ` set [demo_shared_file]. bs h \<noteq> [] \<and> take 4 (Hash demo_crypto (bs h @ replicate 8 1)) =
        take 4 (Hash demo_crypto (bs (fm_FileHash demo_shared_file) @ replicate 8 1))} \<and>
      (fm_FileHash demo_shared_file \<in> fm_FileHash ` set [demo_shared_file] \<longrightarrow> fm_FileHash demo_shared_file \<in> set out)"
    using advertised_file_matched [OF _ _ ad, of demo_node_env w "[demo_shared_file]" n] fs w demo_sha256_ok by simp
  with ad show ?thesis by auto
qed

section \<open>Stopping\<close>

text \<open>The lifecycles of a node that was started and whose loops may have returned.\<close>

inductive life :: "lifecycle \<Rightarrow> bool" where
  new: "life newLifecycle"
| start: "life lc \<Longrightarrow> NodeStart (Some lc) = (r, Some lc') \<Longrightarrow> life lc'"
| done_loop: "life lc \<Longrightarrow> life (loopDone l lc)"

lemma loopDone_counts: "lc_wg lc = length (lc_loops lc) \<Longrightarrow> lc_wg (loopDone l lc) = length (lc_loops (loopDone l lc))"
  by (simp add: loopDone_def length_remove1)

lemma fold_loopDone:
  "mset (lc_loops (fold loopDone ls lc)) = mset (lc_loops lc) - mset ls"
proof (induction ls arbitrary: lc)
  case (Cons l ls)
  have "mset (lc_loops (loopDone l lc)) = mset (lc_loops lc) - {#l#}"
    by (simp add: loopDone_def diff_single_trivial)
  with Cons [of "loopDone l lc"] show ?case by simp
qed simp

lemma fold_loopDone_counts:
  "lc_wg lc = length (lc_loops lc) \<Longrightarrow> lc_wg (fold loopDone ls lc) = length (lc_loops (fold loopDone ls lc))"
  by (induction ls arbitrary: lc) (simp_all add: loopDone_counts)

lemma life_counts: "life lc \<Longrightarrow> lc_wg lc = length (lc_loops lc)"
  by (induction rule: life.induct) (auto simp: newLifecycle_def NodeStart_def loopDone_counts)

text \<open>
  C19. \<open>Stop\<close> returns exactly when every loop that was started returns, and then with the outcome of
  closing the transport.  The event loop looks at the context only between two envelopes: a loop that
  is blocked in \<open>Recv\<close> when the node is stopped does not return, although it would return at once
  from the top of its loop.  The checkpoint loop returns when its select sees the context done.
\<close>

theorem node_stop_waits:
  assumes "life lc"
  shows "(NodeStop (Some r) ended (Some lc) = Some out \<longleftrightarrow>
      mset (lc_loops lc) \<subseteq># mset ended \<and> out = (r, Some (fold loopDone ended (lc\<lparr>lc_cancelled := True\<rparr>)))) \<and>
    (NodeStop (Some r) ended (Some lc) = Some (r, Some lc') \<longrightarrow> lc_loops lc' = [] \<and> lc_wg lc' = 0) \<and>
    (ne_ctx_Err ne w = None \<and> tp_Recv (nd_transport n) (wd_ext w) = None \<longrightarrow> eventLoop ne (n, w) = None) \<and>
    (ne_ctx_Err ne w \<noteq> None \<longrightarrow> eventLoop ne (n, w) = Some (Inr (), n, w)) \<and>
    checkpointLoop (CtxDone # cs) (n, w) = Some (Inr (), n, w)"
proof -
  let ?lc = "fold loopDone ended (lc\<lparr>lc_cancelled := True\<rparr>)"
  have wg: "lc_wg ?lc = length (lc_loops ?lc)" using life_counts [OF assms] by (intro fold_loopDone_counts) simp
  have "mset (lc_loops ?lc) = {#} \<longleftrightarrow> mset (lc_loops lc) \<subseteq># mset ended"
    unfolding fold_loopDone Diff_eq_empty_iff_mset by simp
  hence all: "lc_loops ?lc = [] \<longleftrightarrow> mset (lc_loops lc) \<subseteq># mset ended" by simp
  have "eventLoop ne (n, w) = None" if "ne_ctx_Err ne w = None \<and> tp_Recv (nd_transport n) (wd_ext w) = None"
    using that unfolding eventLoop_def by (intro for_ever_unfold) (simp add: eventStep_def liftTransport_def)
  moreover have "eventLoop ne (n, w) = Some (Inr (), n, w)" if "ne_ctx_Err ne w \<noteq> None"
    using that unfolding eventLoop_def by (intro for_ever_unfold) (simp add: eventStep_def)
  ultimately show ?thesis using wg all by (auto simp: NodeStop_def Let_def)
qed

theorem node_stop_waits_witness:
  "\<exists>lc. NodeStart (Some newLifecycle) = (Inr (), Some lc) \<and> NodeStop (Some (Inr ())) [CheckpointLoop] (Some lc) = None \<and>
     (\<exists>lc'. NodeStop (Some (Inr ())) [CheckpointLoop, EventLoop] (Some lc) = Some (Inr (), Some lc'))"
proof -
  obtain lc where s: "NodeStart (Some newLifecycle) = (Inr (), Some lc)" by (simp add: NodeStart_def)
  hence loops: "lc_loops lc = [EventLoop, CheckpointLoop]" by (auto simp: NodeStart_def newLifecycle_def)
  note stop = conjunct1 [OF node_stop_waits [OF life.start [OF life.new s], where r = "Inr ()"]]
  have "NodeStop (Some (Inr ())) [CheckpointLoop] (Some lc) \<noteq> Some out" for out
    using stop [of "[CheckpointLoop]" out] by (simp add: loops)
  hence "NodeStop (Some (Inr ())) [CheckpointLoop] (Some lc) = None"
    by (metis not_None_eq)
  moreover have "NodeStop (Some (Inr ())) [CheckpointLoop, EventLoop] (Some lc) =
      Some (Inr (), Some (fold loopDone [CheckpointLoop, EventLoop] (lc\<lparr>lc_cancelled := True\<rparr>)))"
    using stop [of "[CheckpointLoop, EventLoop]"] by (simp add: loops add_mset_commute)
  ultimately show ?thesis using s by auto
qed

end
