(* ===== verification/Cabi_Node.thy ===== *)
theory Cabi_Node
  imports Cabi_Transport Node Identity
begin

text \<open>
  The node of the C interface (\<open>cabi/types.go\<close>, \<open>cabi/flow_adapters.go\<close>, \<open>cabi/exports.go\<close>): its
  context, the sessions it starts, and the exported functions that the native layer calls when peers
  come and go, when data arrives, and to share and request files.  A goroutine started for a session
  is an entry of \<open>nx_spawned\<close>.  Log output is left out.
\<close>

section \<open>State\<close>

record 'x NodeContext =
  nx_Identity :: DeviceIdentity
  nx_Callbacks :: "'x NativeCallbacks"
  nx_Policy :: int32
  nx_Transfer :: SessionManager
  nx_ActivePeer :: uintptr
  nx_SessionKeys :: "uintptr \<rightharpoonup> slice"
  nx_SharedSecrets :: "uintptr \<rightharpoonup> slice"
  nx_PeerTransports :: "uintptr \<rightharpoonup> transport_ref"
  nx_heap :: "'x cabi world session_heap"
  nx_next :: session_ref
  nx_spawned :: "session_ref list"

type_synonym 'x cabi_state = "'x NodeContext \<times> 'x cabi world"

text \<open>The result of a call that the native layer sees.\<close>

record MLResult =
  ml_data :: slice
  ml_len :: int32
  ml_error_code :: int32

definition makeResult :: "slice \<Rightarrow> go_error option \<Rightarrow> MLResult" where
  "makeResult data err =
     (if err \<noteq> None \<or> length (bs data) = 0 then \<lparr>ml_data = None, ml_len = 0, ml_error_code = errorToCode err\<rparr>
      else \<lparr>ml_data = data, ml_len = of_nat (length (bs data)), ml_error_code = errorToCode err\<rparr>)"

text \<open>The registry holds nothing but node contexts.\<close>

definition getNode :: "uintptr \<Rightarrow> 'n handleRegistry \<Rightarrow> go_error option + 'n" where
  "getNode handle r =
     (case GetHandle handle r of None \<Rightarrow> Inl (codeToError ML_ERR_INVALID_ARG) | Some node \<Rightarrow> Inr node)"

section \<open>Peers\<close>

definition peerIDToPubkey :: "uintptr \<Rightarrow> slice" where
  "peerIDToPubkey peerID = Some (be64 peerID)"

definition uint64ToPeerID :: "int64 \<Rightarrow> uintptr" where
  "uint64ToPeerID v = (if sint v < 1 then 0 else v)"

text \<open>The keys of the map of transports are visited in an order that is not specified: an argument.\<close>

definition maxTransportPeerID :: "uintptr list \<Rightarrow> 'x NodeContext \<Rightarrow> uintptr" where
  "maxTransportPeerID order n =
     fold (\<lambda>pid maxID. if pid > maxID then pid else maxID) (filter (\<lambda>pid. nx_PeerTransports n pid \<noteq> None) order) 0"

definition pickSurvivorTransportLocked :: "uintptr list \<Rightarrow> 'x NodeContext \<Rightarrow> transport_ref option \<times> uintptr" where
  "pickSurvivorTransportLocked order n =
     (if list_all (\<lambda>pid. nx_PeerTransports n pid = None) order then (None, 0)
      else let survID = maxTransportPeerID order n;
               survID = (if nx_ActivePeer n \<noteq> 0 \<and> nx_PeerTransports n (nx_ActivePeer n) \<noteq> None then nx_ActivePeer n else survID)
           in (nx_PeerTransports n survID, survID))"

definition ensurePeerTransport :: "uintptr \<Rightarrow> 'x cabi_state \<Rightarrow> transport_ref \<times> 'x cabi_state" where
  "ensurePeerTransport peerID = (\<lambda>(n, w).
     case nx_PeerTransports n peerID of
       Some t \<Rightarrow> (t, n, w)
     | None \<Rightarrow>
         let (t, h) = newCabiPeerTransport peerID (cw_heap (wd_ext w)) in
         (t, n\<lparr>nx_PeerTransports := (nx_PeerTransports n)(peerID \<mapsto> t)\<rparr>, w\<lparr>wd_ext := (wd_ext w)\<lparr>cw_heap := h\<rparr>\<rparr>))"

section \<open>Sessions\<close>

definition liftStorage :: "'x FileStorage \<Rightarrow> 'x world FileStorage" where
  "liftStorage st =
     \<lparr>fs_ReadChunk = (\<lambda>fh i w. fs_ReadChunk st fh i (wd_ext w)),
      fs_WriteChunk = (\<lambda>fh i d w. let (r, x) = fs_WriteChunk st fh i d (wd_ext w) in (r, w\<lparr>wd_ext := x\<rparr>)),
      fs_HasChunk = (\<lambda>fh i w. fs_HasChunk st fh i (wd_ext w))\<rparr>"

text \<open>The adapters do the same as those of \<open>node/node.go\<close>.\<close>

definition cabiAppendRecord :: "'x node_env \<Rightarrow> ShareRecord \<Rightarrow> 'x world \<Rightarrow> unit res \<times> 'x world" where
  "cabiAppendRecord = storeAppendRecord"

definition cabiEffectiveBalance :: "'x node_env \<Rightarrow> ShareRecord option list \<Rightarrow> slice \<Rightarrow> int64 \<Rightarrow> 'x world \<Rightarrow> int64 res" where
  "cabiEffectiveBalance = storeEffectiveBalance"

text \<open>The sessions run with the background context, which is never cancelled.\<close>

definition cabiSessionEnv :: "'x node_env \<Rightarrow> 'x world session_env" where
  "cabiSessionEnv ne = (sessionEnv ne)\<lparr>se_ctx_Err := (\<lambda>_. None)\<rparr>"

definition cabiSession ::
  "'x cabi node_env \<Rightarrow> 'x NodeContext \<Rightarrow> transport_ref \<Rightarrow> uintptr \<Rightarrow> TransferRequest \<Rightarrow> SessionDirection \<Rightarrow> 'x cabi world TransferSession" where
  "cabiSession ne n t peerID req direction =
     (let s = NewSession (itoa (unat peerID)) direction (tr_FileHash req)
                (Some (liftTransport (cabiTransport (marshal_Envelope (ne_proto ne)) (nx_Callbacks n) t)))
                (Some (cabiAppendRecord ne)) (Some (cabiEffectiveBalance ne))
                (Some (cabiSign (ne_crypto ne) (Some (nx_Callbacks n)) (di_PrivateKey (nx_Identity n))));
          s = s\<lparr>ss_ID := itoa (unat peerID) @ '':'' @ hex (bs (tr_FileHash req))\<rparr>;
          s = SetPolicyStore (Some wd_store) s;
          s = SetFileStorage (Some (liftStorage (cabiFileStorage (nx_Callbacks n)))) s;
          s = SetLocalPubKey (di_Pubkey (nx_Identity n)) s
      in SetPendingRequest (Some req) s)"

definition startSession :: "'x cabi node_env \<Rightarrow> uintptr \<Rightarrow> TransferRequest \<Rightarrow> SessionDirection \<Rightarrow> ('x cabi_state, unit) op" where
  "startSession ne peerID req direction x =
     (let (t, n, w) = ensurePeerTransport peerID x;
          sessionID = itoa (unat peerID) @ '':'' @ hex (bs (tr_FileHash req))
      in case Get sessionID (nx_Transfer n) of
           (_, False) \<Rightarrow>
             let ref = nx_next n;
                 n = n\<lparr>nx_heap := (nx_heap n)(ref := cabiSession ne n t peerID req direction), nx_next := ref + 1\<rparr>
             in (case Add (nx_heap n) (Some ref) (nx_Transfer n) of
                   (Inl e, _) \<Rightarrow> (Inl e, n, w)
                 | (Inr _, mgr) \<Rightarrow> (Inr (), n\<lparr>nx_Transfer := mgr, nx_spawned := nx_spawned n @ [ref]\<rparr>, w))
         | (None, True) \<Rightarrow> (nil_deref, n, w)
         | (Some ref, True) \<Rightarrow> (Inr (), n\<lparr>nx_heap := (nx_heap n)(ref := SetPendingRequest (Some req) (nx_heap n ref))\<rparr>, w))"

text \<open>The body of the goroutine that was started for a session.\<close>

definition cabiRunSpawned :: "'x cabi node_env \<Rightarrow> string list \<Rightarrow> session_ref \<Rightarrow> 'x cabi_state \<Rightarrow> (unit res \<times> 'x cabi_state) option" where
  "cabiRunSpawned ne order ref = (\<lambda>(n, w).
     Option.bind (RunSession (cabiSessionEnv ne) (nx_heap n ref) w) (\<lambda>(r, s, w).
     let heap = (nx_heap n)(ref := s); n = n\<lparr>nx_heap := heap, nx_spawned := remove1 ref (nx_spawned n)\<rparr> in
     case r of
       Inl (Panic p) \<Rightarrow> Some (Inl (Panic p), n, w)
     | _ \<Rightarrow> Some (Inr (), n\<lparr>nx_Transfer := snd (RemoveCompleted heap order (nx_Transfer n))\<rparr>, w)))"

section \<open>Peers come and go\<close>

text \<open>A storage call whose error is dropped; a panic is not.\<close>

definition tryStore :: "(Store \<Rightarrow> Store res) \<Rightarrow> ('x cabi_state, unit) op" where
  "tryStore f = (\<lambda>(n, w).
     case f (wd_store w) of
       Inl (Panic p) \<Rightarrow> (Inl (Panic p), n, w)
     | Inl (Err _) \<Rightarrow> (Inr (), n, w)
     | Inr s \<Rightarrow> (Inr (), n, w\<lparr>wd_store := s\<rparr>))"

definition onHeap :: "(transport_heap \<Rightarrow> transport_heap res) \<Rightarrow> ('x cabi_state, unit) op" where
  "onHeap f = (\<lambda>(n, w).
     case f (cw_heap (wd_ext w)) of
       Inl e \<Rightarrow> (Inl e, n, w)
     | Inr h \<Rightarrow> (Inr (), n, w\<lparr>wd_ext := (wd_ext w)\<lparr>cw_heap := h\<rparr>\<rparr>))"

definition onNative :: "('x \<Rightarrow> 'x) \<Rightarrow> ('x cabi_state, unit) op" where
  "onNative f = (\<lambda>(n, w). (Inr (), n, w\<lparr>wd_ext := (wd_ext w)\<lparr>cw_native := f (cw_native (wd_ext w))\<rparr>\<rparr>))"

definition peerSeen :: "uintptr \<Rightarrow> int64 \<Rightarrow> PeerInfo" where
  "peerSeen peerID lastSeen =
     \<lparr>pi_Pubkey = peerIDToPubkey peerID, pi_ChainHead = None, pi_RecordIndex = 0,
      pi_Totals = Some \<lparr>ct_CumulativeSent = 0, ct_CumulativeReceived = 0\<rparr>, pi_LastSeen = lastSeen,
      pi_HasForkEvidence = False, pi_TransportType = []\<rparr>"

definition ml_on_peer_discovered :: "'x cabi node_env \<Rightarrow> uintptr \<Rightarrow> ('x cabi_state, unit) op" where
  "ml_on_peer_discovered ne peerID = tryStore (UpsertPeer (ne_engine ne) (Some (peerSeen peerID peerID)))"

text \<open>The transports other than the chosen one, which are all linked to it.\<close>

definition otherTransports :: "uintptr list \<Rightarrow> uintptr \<Rightarrow> 'x NodeContext \<Rightarrow> transport_ref list" where
  "otherTransports order chosen n = [t. pid \<leftarrow> order, pid \<noteq> chosen, Some t \<leftarrow> [nx_PeerTransports n pid]]"

definition linkAll :: "transport_ref list \<Rightarrow> transport_ref \<Rightarrow> ('x cabi_state, unit) op" where
  "linkAll ts surv = st_each (\<lambda>t. onHeap (linkDelegate (Some t) (Some surv))) ts"

text \<open>\<open>keys\<close> is the outcome of the key generation; every call has its own iteration order.\<close>

definition ml_on_peer_connected ::
  "'x cabi node_env \<Rightarrow> go_error + byte list \<times> byte list \<Rightarrow> uintptr list \<Rightarrow> uintptr \<Rightarrow> ('x cabi_state, unit) op" where
  "ml_on_peer_connected ne keys order pid x =
     (let (_, n, w) = ensurePeerTransport pid x; canID = maxTransportPeerID order n in
      case nx_PeerTransports n canID of
        None \<Rightarrow> (Inr (), n, w)
      | Some canT \<Rightarrow>
          let n = n\<lparr>nx_ActivePeer := canID\<rparr> in
          st_bind (linkAll (otherTransports order canID n) canT) (\<lambda>_ (n, w).
          case GenerateSessionKeyPair keys of
            Inl (Panic p) \<Rightarrow> (Inl (Panic p), n, w)
          | Inl (Err _) \<Rightarrow> (Inr (), n, w)
          | Inr (sessionPub, sessionPriv) \<Rightarrow>
              let n = n\<lparr>nx_SessionKeys := (nx_SessionKeys n)(pid \<mapsto> sessionPriv)\<rparr>;
                  env = envelope (Envelope_Handshake (Some
                    \<lparr>hs_SessionId = None, hs_EphemeralPubkey = sessionPub, hs_IdentityPubkey = di_Pubkey (nx_Identity n),
                     hs_Policy = nx_Policy n, hs_LatestCheckpoint = None, hs_RecordsSinceCheckpoint = []\<rparr>))
              in (case EncodeEnvelope (marshal_Envelope (ne_proto ne)) (Some env) of
                    Inl (Panic p) \<Rightarrow> (Inl (Panic p), n, w)
                  | Inl (Err _) \<Rightarrow> (Inr (), n, w)
                  | Inr data \<Rightarrow> onNative (\<lambda>x. snd (NativeSend (nx_Callbacks n) pid data x)) (n, w))) (n, w))"

text \<open>Every session of the lost peer is renamed to the survivor, or removed when there is none.\<close>

definition rebindSessions :: "string list \<Rightarrow> string \<Rightarrow> string \<Rightarrow> 'x NodeContext \<Rightarrow> 'x NodeContext" where
  "rebindSessions order dropped surv n =
     n\<lparr>nx_heap := fold (\<lambda>p h. case p of Some s \<Rightarrow> if ss_PeerID (h s) = dropped then h(s := RebindPeer surv (h s)) else h | None \<Rightarrow> h)
        (List_sessions order (nx_Transfer n)) (nx_heap n)\<rparr>"

definition removeSessions :: "string list \<Rightarrow> string \<Rightarrow> 'x NodeContext \<Rightarrow> 'x NodeContext" where
  "removeSessions order dropped n =
     n\<lparr>nx_Transfer := fold (\<lambda>p m. case p of Some s \<Rightarrow> if ss_PeerID (nx_heap n s) = dropped then Remove (ss_ID (nx_heap n s)) m else m | None \<Rightarrow> m)
        (List_sessions order (nx_Transfer n)) (nx_Transfer n)\<rparr>"

text \<open>The section under the lock: what is left is the lost transport and the survivor with its id.\<close>

definition dropPeer ::
  "uintptr list \<Rightarrow> uintptr \<Rightarrow> 'x NodeContext \<Rightarrow> transport_ref option \<times> transport_ref option \<times> uintptr \<times> transport_ref list \<times> 'x NodeContext" where
  "dropPeer order dropped n =
     (let oldT = nx_PeerTransports n dropped;
          n = n\<lparr>nx_PeerTransports := (nx_PeerTransports n)(dropped := None)\<rparr>;
          n = (if nx_ActivePeer n = dropped then n\<lparr>nx_ActivePeer := 0\<rparr> else n);
          (survT, survID) = pickSurvivorTransportLocked order n;
          mergeOthers = (if survT \<noteq> None then otherTransports order survID n else []);
          n = (if survT \<noteq> None \<and> nx_ActivePeer n = 0 then n\<lparr>nx_ActivePeer := survID\<rparr> else n)
      in (oldT, survT, survID, mergeOthers, n))"

text \<open>What was on the lost transport goes to the survivor, with the sessions.\<close>

definition handOver :: "string list \<Rightarrow> uintptr \<Rightarrow> transport_ref option \<Rightarrow> transport_ref option \<Rightarrow> uintptr \<Rightarrow> ('x cabi_state, unit) op" where
  "handOver sessions dropped oldT survT survID =
     (case (oldT, survT) of
        (_, None) \<Rightarrow> (\<lambda>(n, w). (Inr (), removeSessions sessions (itoa (unat dropped)) n, w))
      | (Some old, Some surv) \<Rightarrow>
          if old \<noteq> surv
          then st_bind (onHeap (linkDelegate (Some old) (Some surv))) (\<lambda>_ (n, w).
                 (Inr (), rebindSessions sessions (itoa (unat dropped)) (itoa (unat survID)) n, w))
          else st_ret ()
      | (None, Some _) \<Rightarrow> st_ret ())"

definition ml_on_peer_disconnected ::
  "'x cabi node_env \<Rightarrow> uintptr list \<Rightarrow> string list \<Rightarrow> uintptr \<Rightarrow> ('x cabi_state, unit) op" where
  "ml_on_peer_disconnected ne order sessions dropped = (\<lambda>(n, w).
     let n = n\<lparr>nx_SessionKeys := (nx_SessionKeys n)(dropped := None), nx_SharedSecrets := (nx_SharedSecrets n)(dropped := None)\<rparr>;
         (oldT, survT, survID, mergeOthers, n) = dropPeer order dropped n
     in st_bind (handOver sessions dropped oldT survT survID) (\<lambda>_.
        st_bind (case survT of None \<Rightarrow> st_ret () | Some surv \<Rightarrow> linkAll mergeOthers surv) (\<lambda>_ (n, w).
        tryStore (UpsertPeer (ne_engine ne) (Some (peerSeen dropped (ne_now ne w)))) (n, w))) (n, w))"

section \<open>Data arrives\<close>

definition enqueuePeer :: "uintptr \<Rightarrow> Envelope \<Rightarrow> ('x cabi_state, unit) op" where
  "enqueuePeer peerID env x = (let (t, x) = ensurePeerTransport peerID x in onHeap (enqueue t (Some env)) x)"

text \<open>A received batch is handed to the native storage as it is, chunk by chunk.\<close>

definition writeReceived :: "ChunkBatch \<Rightarrow> ('x cabi_state, unit) op" where
  "writeReceived batch = st_each (\<lambda>chunk (n, w).
     onNative (\<lambda>x. snd (NativeWriteChunk (nx_Callbacks n) (cb_FileHash batch) (getp 0 cd_ChunkIndex chunk) (getp None cd_Data chunk) x)) (n, w))
     (cb_Chunks batch)"

definition receiveGossip :: "'x cabi node_env \<Rightarrow> uintptr \<Rightarrow> GossipPayload option \<Rightarrow> ('x cabi_state, unit) op" where
  "receiveGossip ne peerID payload =
     st_bind (st_each (\<lambda>peer. tryStore (UpsertPeer (ne_engine ne) peer)) (getp [] gp_PeerSummaries payload)) (\<lambda>_.
     st_bind (case getp None gp_SelfSummary payload of None \<Rightarrow> st_ret () | Some p \<Rightarrow> tryStore (UpsertPeer (ne_engine ne) (Some p))) (\<lambda>_.
     st_bind (st_each (\<lambda>f. tryStore (InsertFileMeta (ne_engine ne) f)) (getp [] gp_SeedingFiles payload)) (\<lambda>_.
     st_bind (case getp None gp_LatestCheckpoint payload of None \<Rightarrow> st_ret ()
              | Some c \<Rightarrow> tryStore (InsertCheckpoint (ne_engine ne) (ne_proto ne) (Some c))) (\<lambda>_.
     st_bind (st_each (\<lambda>e. tryStore (InsertForkEvidence (ne_engine ne) (ne_proto ne) e)) (getp [] gp_ForkEvidence payload)) (\<lambda>_ (n, w).
     onNative (NotifyGossipReceived (nx_Callbacks n) peerID) (n, w))))))"

definition ml_on_data_received :: "'x cabi node_env \<Rightarrow> uintptr \<Rightarrow> byte list \<Rightarrow> ('x cabi_state, unit) op" where
  "ml_on_data_received ne peerID data =
     (if length data = 0 then st_ret ()
      else case DecodeEnvelope (unmarshal_Envelope (ne_proto ne)) data of
        Inl (Panic p) \<Rightarrow> st_fail (Panic p)
      | Inl (Err _) \<Rightarrow> st_ret ()
      | Inr env \<Rightarrow>
          (case env_Payload env of
             Some (Envelope_Gossip payload) \<Rightarrow> receiveGossip ne peerID payload
           | Some (Envelope_ForkEvidence fe) \<Rightarrow>
               (case fe of
                  None \<Rightarrow> st_ret ()
                | Some e \<Rightarrow>
                    st_bind (tryStore (InsertForkEvidence (ne_engine ne) (ne_proto ne) fe)) (\<lambda>_ (n, w).
                    onNative (NotifyForkDetected (nx_Callbacks n) (fe_DevicePubkey e)) (n, w)))
           | Some (Envelope_ShareRecord rec) \<Rightarrow>
               st_bind (case rec of None \<Rightarrow> st_ret () | Some r \<Rightarrow> tryStore (InsertRecord (ne_engine ne) r)) (\<lambda>_.
               enqueuePeer peerID env)
           | Some (Envelope_TransferRequest req) \<Rightarrow>
               (case req of
                  None \<Rightarrow> st_ret ()
                | Some q \<Rightarrow>
                    st_bind (tryStore (InsertRequest (ne_engine ne) (ne_proto ne) (ne_crypto ne) req)) (\<lambda>_ x.
                    case startSession ne peerID q DirectionInbound x of
                      (Inl (Err _), y) \<Rightarrow> (Inr (), y)
                    | out \<Rightarrow> out))
           | Some (Envelope_ChunkBatch batch) \<Rightarrow>
               st_bind (case batch of None \<Rightarrow> st_ret () | Some b \<Rightarrow> writeReceived b) (\<lambda>_. enqueuePeer peerID env)
           | Some (Envelope_Handshake _) \<Rightarrow> enqueuePeer peerID env
           | None \<Rightarrow> st_ret ()))"

section \<open>Sharing and requesting files\<close>

definition shareChunkSize :: nat where
  "shareChunkSize = 64 * 1024"

text \<open>
  The loop over the chunks from offset \<open>i\<close>: the code of a failed write that left no chunk, or the
  hashes of the chunks.
\<close>

function shareLoop :: "crypto_prims \<Rightarrow> 'x NativeCallbacks \<Rightarrow> byte list \<Rightarrow> byte list \<Rightarrow> nat \<Rightarrow> slice list \<Rightarrow> 'x \<Rightarrow> (int32 + slice list) \<times> 'x" where
  "shareLoop cr nc fileHash data i chunkHashes x =
     (if i < length data
      then let chunk = take shareChunkSize (drop i data);
               chunkHashes = chunkHashes @ [Some (Hash cr chunk)];
               chunkIndex = of_nat (i div shareChunkSize) :: uint32;
               (code, x) = NativeWriteChunk nc (Some fileHash) chunkIndex (Some chunk) x
           in if code \<noteq> ML_OK \<and> \<not> NativeHasChunk nc (Some fileHash) chunkIndex x then (Inl code, x)
              else shareLoop cr nc fileHash data (i + shareChunkSize) chunkHashes x
      else (Inr chunkHashes, x))"
  by pat_completeness auto
termination
  by (relation "measure (\<lambda>(cr, nc, fileHash, data, i, chunkHashes, x). length data - i)") (auto simp: shareChunkSize_def)

declare shareLoop.simps [simp del]

text \<open>The metadata that is stored for a shared file.\<close>

definition sharedMeta :: "'x cabi node_env \<Rightarrow> 'x NodeContext \<Rightarrow> 'x cabi world \<Rightarrow> byte list \<Rightarrow> string \<Rightarrow> slice \<Rightarrow> slice list \<Rightarrow> FileMeta" where
  "sharedMeta ne n w data name originSig chunkHashes =
     \<lparr>fm_FileHash = Some (Hash (ne_crypto ne) data), fm_FileName = name, fm_FileSize = of_nat (length data),
      fm_ChunkSize = of_nat shareChunkSize, fm_ChunkHashes = chunkHashes, fm_OriginPubkey = di_Pubkey (nx_Identity n),
      fm_OriginSig = originSig, fm_CreatedAt = ne_now ne w\<rparr>"

text \<open>\<open>data\<close> and \<open>name\<close> are the converted arguments, \<open>None\<close> for a nil pointer.\<close>

definition ml_share_file :: "'x cabi node_env \<Rightarrow> slice \<Rightarrow> string option \<Rightarrow> ('x cabi_state, int32) op" where
  "ml_share_file ne fileData fileName = (\<lambda>(n, w).
     case (fileData, fileName) of
       (Some data, Some name) \<Rightarrow>
         if length data = 0 \<or> name = [] then (Inr ML_ERR_INVALID_ARG, n, w)
         else let fileHash = Hash (ne_crypto ne) data in
           (case cabiSign (ne_crypto ne) (Some (nx_Callbacks n)) (di_PrivateKey (nx_Identity n)) fileHash of
              Inl (Panic p) \<Rightarrow> (Inl (Panic p), n, w)
            | Inl (Err _) \<Rightarrow> (Inr ML_ERR_CRYPTO, n, w)
            | Inr originSig \<Rightarrow>
                (case shareLoop (ne_crypto ne) (nx_Callbacks n) fileHash data 0 [] (cw_native (wd_ext w)) of
                   (Inl code, x) \<Rightarrow> (Inr code, n, w\<lparr>wd_ext := (wd_ext w)\<lparr>cw_native := x\<rparr>\<rparr>)
                 | (Inr chunkHashes, x) \<Rightarrow>
                     let w = w\<lparr>wd_ext := (wd_ext w)\<lparr>cw_native := x\<rparr>\<rparr> in
                     (case InsertFileMeta (ne_engine ne) (Some (sharedMeta ne n w data name originSig chunkHashes)) (wd_store w) of
                        Inl (Panic p) \<Rightarrow> (Inl (Panic p), n, w)
                      | Inl (Err e) \<Rightarrow> (Inr (errorToCode (Some e)), n, w)
                      | Inr s \<Rightarrow> (Inr ML_OK, n, w\<lparr>wd_store := s\<rparr>))))
     | _ \<Rightarrow> (Inr ML_ERR_INVALID_ARG, n, w))"

text \<open>The peer that a request goes to: the active one, else the connected one with the largest id.\<close>

definition pickFallbackPeerIDLocked :: "uintptr list \<Rightarrow> 'x NodeContext \<Rightarrow> uintptr" where
  "pickFallbackPeerIDLocked order n = maxTransportPeerID order n"

definition requestPeer :: "uintptr list \<Rightarrow> 'x NodeContext \<Rightarrow> uintptr \<times> 'x NodeContext" where
  "requestPeer order n =
     (let peerID = nx_ActivePeer n;
          (peerID, n) = (if peerID \<noteq> 0 \<and> nx_PeerTransports n peerID = None then (0, n\<lparr>nx_ActivePeer := 0\<rparr>) else (peerID, n))
      in if peerID = 0
         then let fallback = pickFallbackPeerIDLocked order n in
           if fallback \<noteq> 0 then (fallback, n\<lparr>nx_ActivePeer := fallback\<rparr>) else (0, n)
         else (peerID, n))"

text \<open>
  The common part of the two request functions: sign and store the request, find a peer, start the
  session.  \<open>nonce\<close> is the outcome of \<open>rand.Read\<close>.
\<close>

definition sendRequest ::
  "'x cabi node_env \<Rightarrow> go_error + byte list \<Rightarrow> uintptr list \<Rightarrow> byte list \<Rightarrow> uint32 list \<Rightarrow> ('x cabi_state, byte list) op" where
  "sendRequest ne nonce order hash chunks =
     st_bind (\<lambda>(n, w). (case nonce of Inl e \<Rightarrow> Inl (Err e) | Inr b \<Rightarrow> Inr b, n, w)) (\<lambda>nonce.
     st_bind (\<lambda>(n, w).
       let req = \<lparr>tr_RequesterPubkey = di_Pubkey (nx_Identity n), tr_FileHash = Some hash, tr_ChunkIndices = chunks,
                  tr_Nonce = Some nonce, tr_Timestamp = ne_now ne w, tr_Signature = None\<rparr> in
       (res_bind (cabiSign (ne_crypto ne) (Some (nx_Callbacks n)) (di_PrivateKey (nx_Identity n)) (TransferRequestSignableBytes req))
          (\<lambda>sig. Inr (req\<lparr>tr_Signature := sig\<rparr>)), n, w)) (\<lambda>req.
     st_bind (\<lambda>(n, w). case InsertRequest (ne_engine ne) (ne_proto ne) (ne_crypto ne) (Some req) (wd_store w) of
         Inl e \<Rightarrow> (Inl e, n, w) | Inr s \<Rightarrow> (Inr (), n, w\<lparr>wd_store := s\<rparr>)) (\<lambda>_.
     st_bind (\<lambda>(n, w).
       let (peerID, n) = requestPeer order n in
       if peerID \<noteq> 0 then (Inr peerID, n, w)
       else (case GetAllPeers (ne_engine ne) 1 (wd_store w) of
               Inl (Panic p) \<Rightarrow> (Inl (Panic p), n, w)
             | Inl (Err _) \<Rightarrow> (fail ''no active peer available'', n, w)
             | Inr [] \<Rightarrow> (fail ''no active peer available'', n, w)
             | Inr (p # _) \<Rightarrow> (Inr (uint64ToPeerID (pi_LastSeen p)), n, w))) (\<lambda>peerID.
     st_bind (startSession ne peerID req DirectionOutbound) (\<lambda>_ (n, w).
     (marshal_TransferRequest (ne_proto ne) req, n, w))))))"

text \<open>What the native layer gets: the result, or the code of the error.\<close>

definition resultOf :: "byte list res \<times> 'x cabi_state \<Rightarrow> MLResult res \<times> 'x cabi_state" where
  "resultOf = (\<lambda>(r, x). (case r of
       Inl (Panic p) \<Rightarrow> Inl (Panic p)
     | Inl (Err e) \<Rightarrow> Inr (makeResult None (Some e))
     | Inr data \<Rightarrow> Inr (makeResult (Some data) None), x))"

definition ml_request_file ::
  "'x cabi node_env \<Rightarrow> go_error + byte list \<Rightarrow> uintptr list \<Rightarrow> slice \<Rightarrow> 'x cabi_state \<Rightarrow> MLResult res \<times> 'x cabi_state" where
  "ml_request_file ne nonce order fileHash x =
     (if length (bs fileHash) = 0 then (Inr (makeResult None (codeToError ML_ERR_INVALID_ARG)), x)
      else resultOf (st_bind (\<lambda>(n, w). (GetFileMeta (ne_engine ne) fileHash (wd_store w), n, w)) (\<lambda>meta.
        sendRequest ne nonce order (bs fileHash) (map of_nat [0..<length (fm_ChunkHashes meta)])) x))"

definition ml_request_file_with_chunk_count ::
  "'x cabi node_env \<Rightarrow> go_error + byte list \<Rightarrow> uintptr list \<Rightarrow> slice \<Rightarrow> int32 \<Rightarrow> 'x cabi_state \<Rightarrow> MLResult res \<times> 'x cabi_state" where
  "ml_request_file_with_chunk_count ne nonce order fileHash chunkCount x =
     (if length (bs fileHash) = 0 \<or> sint chunkCount \<le> 0 then (Inr (makeResult None (codeToError ML_ERR_INVALID_ARG)), x)
      else resultOf (sendRequest ne nonce order (bs fileHash) (map of_nat [0..<unat chunkCount]) x))"

definition ml_set_service_policy :: "int32 \<Rightarrow> ('x cabi_state, int32) op" where
  "ml_set_service_policy policy = (\<lambda>(n, w). (Inr ML_OK, n\<lparr>nx_Policy := policy\<rparr>, w))"

end
