(* ===== verification/Cabi_Api.thy ===== *)
theory Cabi_Api
  imports Cabi_Node
begin

text \<open>
  The rest of the exported functions (\<open>cabi/exports.go\<close>): creating and destroying nodes, the
  functions that report peers, files, the balance and the chain, and the way every exported function
  finds its node through the table of handles.  The entries of the table are the nodes with their
  databases; nodes are created on different database files.
\<close>

section \<open>Reports\<close>

text \<open>The protobuf encoding of the messages that only this layer encodes.\<close>

record Balance =
  ba_DevicePubkey :: slice
  ba_DripAllowance :: int64
  ba_DiversityWeightedCredit :: int64
  ba_CumulativeReceived :: int64
  ba_DecayPenalty :: int64
  ba_EffectiveBalance :: int64
  ba_ComputedAt :: int64

record report_proto =
  marshal_PeerInfo :: "PeerInfo \<Rightarrow> byte list res"
  marshal_FileMeta :: "FileMeta \<Rightarrow> byte list res"
  marshal_Balance :: "Balance \<Rightarrow> byte list res"

text \<open>\<open>for _, m := range ms\<close>: every message with its length in four bytes before it.\<close>

fun frameLoop :: "('m \<Rightarrow> byte list res) \<Rightarrow> byte list \<Rightarrow> 'm list \<Rightarrow> byte list res" where
  "frameLoop marshal out [] = Inr out"
| "frameLoop marshal out (m # ms) =
     res_bind (marshal m) (\<lambda>data. frameLoop marshal (out @ be32 (of_nat (length data)) @ data) ms)"

definition ml_get_peers :: "report_proto \<Rightarrow> 'x cabi node_env \<Rightarrow> ('x cabi_state, MLResult) op" where
  "ml_get_peers rp ne = (\<lambda>(n, w).
     resultOf (res_bind (GetAllPeers (ne_engine ne) 100 (wd_store w)) (frameLoop (marshal_PeerInfo rp) []), n, w))"

definition ml_get_file_index :: "report_proto \<Rightarrow> 'x cabi node_env \<Rightarrow> ('x cabi_state, MLResult) op" where
  "ml_get_file_index rp ne = (\<lambda>(n, w).
     resultOf (res_bind (ListFiles (ne_engine ne) 200 0 (wd_store w)) (frameLoop (marshal_FileMeta rp) []), n, w))"

definition cabiBytesEqual :: "byte list \<Rightarrow> byte list \<Rightarrow> bool" where
  "cabiBytesEqual a b = (if length a \<noteq> length b then False else list_all (\<lambda>i. a ! i = b ! i) [0..<length a])"

definition receivedLoop :: "slice \<Rightarrow> ShareRecord list \<Rightarrow> int64" where
  "receivedLoop pub records =
     fold (\<lambda>r cumulativeReceived. if cabiBytesEqual (bs (sr_ReceiverPubkey r)) (bs pub) then cumulativeReceived + sr_BytesTotal r
       else cumulativeReceived) records 0"

text \<open>The message that \<open>ml_get_balance\<close> builds; an error while reading the records is dropped.\<close>

definition balanceReport :: "'x cabi node_env \<Rightarrow> 'x cabi world \<Rightarrow> Balance res" where
  "balanceReport ne w =
     res_bind (GetIdentity (ne_engine ne) (wd_store w)) (\<lambda>ident.
     res_bind (case GetRecordsByDevice (ne_engine ne) (id_Pubkey ident) 0 2000 (wd_store w) of
                 Inl (Err _) \<Rightarrow> Inr [] | r \<Rightarrow> r) (\<lambda>records.
     let params = DefaultParams; now = ne_now ne w; ptrs = map Some records;
         dripAllowance = ComputeDripAllowance (ne_platform ne) (Unix (id_CreatedAt ident)) (Unix now) params in
     res_bind (DiversityWeightedCredit ptrs (id_Pubkey ident) (WindowSize params)) (\<lambda>diversityWeighted.
     res_bind (ComputeEffectiveBalance (ne_platform ne) ptrs (id_Pubkey ident) (id_CreatedAt ident) now params) (\<lambda>effective.
     let cumulativeReceived = receivedLoop (id_Pubkey ident) records in
     res_bind (ApplyPerPeerCaps (ne_order ne) ptrs (id_Pubkey ident) params) (\<lambda>capped.
     let decayPenalty = diversityWeighted - capped;
         decayPenalty = (if sint decayPenalty < 0 then 0 else decayPenalty)
     in Inr \<lparr>ba_DevicePubkey = id_Pubkey ident, ba_DripAllowance = dripAllowance, ba_DiversityWeightedCredit = diversityWeighted,
             ba_CumulativeReceived = cumulativeReceived, ba_DecayPenalty = decayPenalty, ba_EffectiveBalance = effective,
             ba_ComputedAt = now\<rparr>)))))"

definition ml_get_balance :: "report_proto \<Rightarrow> 'x cabi node_env \<Rightarrow> ('x cabi_state, MLResult) op" where
  "ml_get_balance rp ne = (\<lambda>(n, w). resultOf (res_bind (balanceReport ne w) (marshal_Balance rp), n, w))"

definition ml_get_chain_summary :: "report_proto \<Rightarrow> 'x cabi node_env \<Rightarrow> ('x cabi_state, MLResult) op" where
  "ml_get_chain_summary rp ne = (\<lambda>(n, w).
     resultOf (res_bind (GetIdentity (ne_engine ne) (wd_store w)) (\<lambda>ident.
       marshal_PeerInfo rp
         \<lparr>pi_Pubkey = id_Pubkey ident, pi_ChainHead = id_ChainHead ident, pi_RecordIndex = id_ChainIndex ident,
          pi_Totals = Some \<lparr>ct_CumulativeSent = id_CumulativeSent ident, ct_CumulativeReceived = id_CumulativeReceived ident\<rparr>,
          pi_LastSeen = ne_now ne w, pi_HasForkEvidence = False, pi_TransportType = []\<rparr>), n, w))"

section \<open>Nodes and handles\<close>

type_synonym 'x node_table = "'x cabi_state handleRegistry"

text \<open>
  \<open>file\<close> is the database file: its schema and its rows.  \<open>generated\<close> is the outcome of the key
  generation, \<open>native\<close> the outside of the new node.  0 is the handle that stands for a failure.
\<close>

definition ml_node_create ::
  "open_calls \<Rightarrow> engine \<Rightarrow> go_error + byte list \<times> byte list \<Rightarrow> int64 \<Rightarrow> Schema \<times> Store \<Rightarrow> 'x NativeCallbacks \<Rightarrow> 'x cabi \<Rightarrow>
   ('x node_table, uintptr) op" where
  "ml_node_create oc en generated now file callbacks native r =
     (case OpenDatabase oc en (fst file) of
        Inl (Panic p) \<Rightarrow> (Inl (Panic p), r)
      | Inl (Err _) \<Rightarrow> (Inr 0, r)
      | Inr _ \<Rightarrow>
          (case (case LoadIdentity en (snd file) of
                   Inr dev \<Rightarrow> (Inr dev, snd file)
                 | Inl (Panic p) \<Rightarrow> (Inl (Panic p), snd file)
                 | Inl (Err _) \<Rightarrow> NewIdentity en generated now (snd file)) of
             (Inl (Panic p), _) \<Rightarrow> (Inl (Panic p), r)
           | (Inl (Err _), _) \<Rightarrow> (Inr 0, r)
           | (Inr dev, store) \<Rightarrow>
               let node = \<lparr>nx_Identity = dev, nx_Callbacks = callbacks, nx_Policy = 0, nx_Transfer = NewSessionManager 4,
                     nx_ActivePeer = 0, nx_SessionKeys = Map.empty, nx_SharedSecrets = Map.empty, nx_PeerTransports = Map.empty,
                     nx_heap = (\<lambda>_. NewSession [] DirectionInbound None None None None None), nx_next = 0, nx_spawned = []\<rparr>;
                   (handle, r) = RegisterHandle (node, \<lparr>wd_store = store, wd_ext = native\<rparr>) r
               in (Inr handle, r)))"

text \<open>The database of the destroyed node is closed; the outcome is dropped.\<close>

definition ml_node_destroy :: "uintptr \<Rightarrow> 'x node_table \<Rightarrow> 'x node_table" where
  "ml_node_destroy handle r = (case GetHandle handle r of None \<Rightarrow> r | Some node \<Rightarrow> ReleaseHandle handle r)"

text \<open>
  The first lines of every other exported function: find the node, or answer with the error; \<open>answer\<close>
  turns the error into the result of the function.
\<close>

definition withNode :: "(go_error option \<Rightarrow> 'r) \<Rightarrow> ('x cabi_state, 'r) op \<Rightarrow> uintptr \<Rightarrow> ('x node_table, 'r) op" where
  "withNode answer f handle r =
     (case getNode handle r of
        Inl err \<Rightarrow> (Inr (answer err), r)
      | Inr node \<Rightarrow> let (res, node') = f node in (res, r\<lparr>hr_handles := (hr_handles r)(handle \<mapsto> node')\<rparr>))"

text \<open>The exported calls that take a handle, with the arguments that the native layer or the runtime gives.\<close>

datatype 'x api_call =
    SetServicePolicy int32
  | GetPeers report_proto "'x cabi node_env"
  | GetFileIndex report_proto "'x cabi node_env"
  | ShareFile "'x cabi node_env" slice "string option"
  | GetBalance report_proto "'x cabi node_env"
  | GetChainSummary report_proto "'x cabi node_env"
  | RequestFile "'x cabi node_env" "go_error + byte list" "uintptr list" slice
  | RequestFileWithChunkCount "'x cabi node_env" "go_error + byte list" "uintptr list" slice int32
  | OnPeerDiscovered "'x cabi node_env" uintptr
  | OnPeerConnected "'x cabi node_env" "go_error + byte list \<times> byte list" "uintptr list" uintptr
  | OnPeerDisconnected "'x cabi node_env" "uintptr list" "string list" uintptr
  | OnDataReceived "'x cabi node_env" uintptr "byte list"

text \<open>What a call returns to the native layer.\<close>

datatype answer = Code int32 | Result MLResult | Nothing

definition onResult :: "('a \<Rightarrow> 'b) \<Rightarrow> ('s, 'a) op \<Rightarrow> ('s, 'b) op" where
  "onResult g f s = (let (r, s') = f s in (map_sum (\<lambda>e. e) g r, s'))"

abbreviation codeOf :: "go_error option \<Rightarrow> answer" where
  "codeOf err \<equiv> Code (errorToCode err)"

abbreviation resultOfErr :: "go_error option \<Rightarrow> answer" where
  "resultOfErr err \<equiv> Result (makeResult None err)"

fun apiBody :: "'x api_call \<Rightarrow> ('x cabi_state, answer) op" where
  "apiBody (SetServicePolicy p) = onResult Code (ml_set_service_policy p)"
| "apiBody (GetPeers rp ne) = onResult Result (ml_get_peers rp ne)"
| "apiBody (GetFileIndex rp ne) = onResult Result (ml_get_file_index rp ne)"
| "apiBody (ShareFile ne d name) = onResult Code (ml_share_file ne d name)"
| "apiBody (GetBalance rp ne) = onResult Result (ml_get_balance rp ne)"
| "apiBody (GetChainSummary rp ne) = onResult Result (ml_get_chain_summary rp ne)"
| "apiBody (RequestFile ne nonce order h) = onResult Result (ml_request_file ne nonce order h)"
| "apiBody (RequestFileWithChunkCount ne nonce order h c) = onResult Result (ml_request_file_with_chunk_count ne nonce order h c)"
| "apiBody (OnPeerDiscovered ne p) = onResult (\<lambda>_. Nothing) (ml_on_peer_discovered ne p)"
| "apiBody (OnPeerConnected ne keys order p) = onResult (\<lambda>_. Nothing) (ml_on_peer_connected ne keys order p)"
| "apiBody (OnPeerDisconnected ne order ids p) = onResult (\<lambda>_. Nothing) (ml_on_peer_disconnected ne order ids p)"
| "apiBody (OnDataReceived ne p d) = onResult (\<lambda>_. Nothing) (ml_on_data_received ne p d)"

fun apiError :: "'x api_call \<Rightarrow> go_error option \<Rightarrow> answer" where
  "apiError (SetServicePolicy _) = codeOf"
| "apiError (ShareFile _ _ _) = codeOf"
| "apiError (GetPeers _ _) = resultOfErr"
| "apiError (GetFileIndex _ _) = resultOfErr"
| "apiError (GetBalance _ _) = resultOfErr"
| "apiError (GetChainSummary _ _) = resultOfErr"
| "apiError (RequestFile _ _ _ _) = resultOfErr"
| "apiError (RequestFileWithChunkCount _ _ _ _ _) = resultOfErr"
| "apiError _ = (\<lambda>_. Nothing)"

definition apiCall :: "'x api_call \<Rightarrow> uintptr \<Rightarrow> ('x node_table, answer) op" where
  "apiCall c = withNode (apiError c) (apiBody c)"

end
