(* ===== verification/Cabi_Wf.thy ===== *)
theory Cabi_Wf
  imports Cabi_Api
begin

text \<open>
  The types of the objects behind the C interface: which references a node, its transports and its
  sessions may hold.  Every exported function, every session goroutine and everything that other
  goroutines do in between keeps them.
\<close>

section \<open>Well-formed transports\<close>

text \<open>
  A transport of a heap with \<open>n\<close> objects: its channel is within its capacity, it is closed exactly when
  it was handed over, a closed one holds nothing, and its link is not dangling.
\<close>

definition transport_ok :: "nat \<Rightarrow> cabiPeerTransport \<Rightarrow> bool" where
  "transport_ok n t \<longleftrightarrow> length (pt_incoming t) \<le> incomingCapacity \<and> (pt_incomingClosed t \<longleftrightarrow> pt_delegatePeer t \<noteq> None) \<and>
     (pt_incomingClosed t \<longrightarrow> queued t = 0) \<and> (case pt_delegatePeer t of None \<Rightarrow> True | Some d \<Rightarrow> d < n)"

text \<open>\<open>ids\<close> are the peers that the transports of the heap were made for.\<close>

definition heap_ok :: "uintptr list \<Rightarrow> transport_heap \<Rightarrow> bool" where
  "heap_ok ids h \<longleftrightarrow> map pt_peerID h = ids \<and> list_all (transport_ok (length h)) h"

lemma heap_ok_length: "heap_ok ids h \<Longrightarrow> length ids = length h"
  by (auto simp: heap_ok_def)

lemma heap_ok_nth: "heap_ok ids h \<Longrightarrow> r < length h \<Longrightarrow> transport_ok (length h) (h ! r)"
  by (simp add: heap_ok_def list_all_length)

lemma heap_ok_update:
  assumes "heap_ok ids h" "r < length h" "transport_ok (length h) t" "pt_peerID t = pt_peerID (h ! r)"
  shows "heap_ok ids (h[r := t])"
proof -
  have "map pt_peerID (h[r := t]) = map pt_peerID h" using assms(2,4) by (simp add: map_update list_update_same_conv)
  with assms(1,3) show ?thesis by (auto simp: heap_ok_def list_all_iff dest!: subsetD [OF set_update_subset_insert])
qed

lemma heap_ok_new:
  assumes "heap_ok ids h"
  shows "heap_ok (ids @ [pid]) (snd (newCabiPeerTransport pid h))"
proof -
  have "transport_ok (Suc n) t" if "transport_ok n t" for n t using that by (auto simp: transport_ok_def split: option.splits)
  with assms show ?thesis by (auto simp: heap_ok_def newCabiPeerTransport_def transport_ok_def queued_def list_all_iff)
qed

lemma enqueueLocked_ok:
  assumes "heap_ok ids h" "enqueueLocked r (Some e) h = Inr h'"
  shows "heap_ok ids h'"
proof -
  from assms(2) have r: "r < length h" "\<not> pt_incomingClosed (h ! r)"
    by (auto simp: enqueueLocked_def nil_deref_def Let_def split: if_splits)
  have t: "transport_ok (length h) (h ! r)" by (rule heap_ok_nth) fact+
  have h': "h' = h[r := (h ! r)\<lparr>pt_incoming := push (pt_incoming (h ! r)) e\<rparr>]"
    using assms(2) r by (auto simp: enqueueLocked_def push_def Let_def split: if_splits)
  show ?thesis unfolding h' using assms(1) r(1)
    by (rule heap_ok_update) (use t r(2) in \<open>auto simp: transport_ok_def length_push queued_def\<close>)
qed

lemma enqueueAll_ok: "heap_ok ids h \<Longrightarrow> enqueueAll r es h = Inr h' \<Longrightarrow> heap_ok ids h'"
  by (induction es arbitrary: h) (auto simp: res_bind_eq_Inr dest: enqueueLocked_ok)

lemma linkDelegate_ok:
  assumes "heap_ok ids h" "linkDelegate tp (Some b) h = Inr h'" "b < length h"
  shows "heap_ok ids h'"
proof (cases "\<exists>a. tp = Some a \<and> a \<noteq> b \<and> a < length h \<and> \<not> pt_incomingClosed (h ! a)")
  case False
  with assms show ?thesis by (auto simp: linkDelegate_def nil_deref_def split: option.splits if_splits)
next
  case True
  then obtain a where a: "tp = Some a" "a \<noteq> b" "a < length h" "\<not> pt_incomingClosed (h ! a)" by blast
  then obtain h1 h2 where 1: "enqueueAll b (pt_preRecv (h ! a)) h = Inr h1"
    and 2: "enqueueAll b (pt_incoming (h1 ! a)) (h1[a := (h1 ! a)\<lparr>pt_preRecv := []\<rparr>]) = Inr h2"
    and h': "h' = h2[a := (h2 ! a)\<lparr>pt_incoming := [], pt_delegatePeer := Some b, pt_incomingClosed := True\<rparr>]"
    using assms(2) by (auto simp: linkDelegate_def res_bind_eq_Inr)
  have len: "length h1 = length h" "length h2 = length h" "h2 ! a = (h1 ! a)\<lparr>pt_preRecv := []\<rparr>"
    using enqueueAll_Inr [OF 1] enqueueAll_Inr [OF 2] a(2,3) by auto
  have ok1: "heap_ok ids h1" by (rule enqueueAll_ok [OF assms(1) 1])
  have "heap_ok ids (h1[a := (h1 ! a)\<lparr>pt_preRecv := []\<rparr>])"
    using ok1 heap_ok_nth [OF ok1, of a] a(3) len by (intro heap_ok_update) (auto simp: transport_ok_def queued_def)
  hence "heap_ok ids h2" using 2 by (rule enqueueAll_ok)
  thus ?thesis unfolding h' using a(3) assms(3) len
    by (intro heap_ok_update) (auto simp: transport_ok_def queued_def incomingCapacity_def)
qed

lemma enqueue_ok: "heap_ok ids h \<Longrightarrow> enqueue r env h = Inr h' \<Longrightarrow> heap_ok ids h'"
  by (cases env) (auto simp: enqueue_def dest: enqueueLocked_ok split: sum.splits failure.splits)

text \<open>What other goroutines may do: they hold no dangling references either.\<close>

fun arrival_ok :: "nat \<Rightarrow> arrival \<Rightarrow> bool" where
  "arrival_ok n (Enqueue r e) \<longleftrightarrow> r < n"
| "arrival_ok n (Link a b) \<longleftrightarrow> a < n \<and> b < n"

definition cabi_ok :: "uintptr list \<Rightarrow> 'x cabi \<Rightarrow> bool" where
  "cabi_ok ids c \<longleftrightarrow> heap_ok ids (cw_heap c) \<and> list_all (arrival_ok (length ids)) (cw_arrivals c)"

lemma arrive_ok: "heap_ok ids h \<Longrightarrow> arrival_ok (length ids) a \<Longrightarrow> arrive a h = Inr h' \<Longrightarrow> heap_ok ids h'"
  using heap_ok_length [of ids h] by (cases a) (auto intro: enqueue_ok linkDelegate_ok)

section \<open>The transport keeps the heap well formed\<close>

lemma take_ok:
  assumes "heap_ok ids h" "r < length h"
  shows "pt_preRecv (h ! r) = e # rest \<Longrightarrow> heap_ok ids (h[r := (h ! r)\<lparr>pt_preRecv := rest\<rparr>])"
    and "pt_incoming (h ! r) = e # q \<Longrightarrow> heap_ok ids (h[r := (h ! r)\<lparr>pt_incoming := q\<rparr>])"
  using heap_ok_nth [OF assms] by (auto intro!: heap_ok_update [OF assms] simp: transport_ok_def queued_def)

lemma recvLoop_ok: "recvLoop h seen cur = Got env h' \<Longrightarrow> heap_ok ids h \<Longrightarrow> heap_ok ids h'"
proof (induction h seen cur rule: recvLoop.induct)
  case (1 h seen cur)
  from "1.prems" obtain r where r: "cur = Some r" "r < length h" "r \<notin> set seen"
    by (subst (asm) recvLoop.simps) (auto split: option.splits if_splits)
  obtain e b h1 where p: "takePreRecv r h = (e, b, h1)" by (cases "takePreRecv r h") auto
  show ?case
  proof (cases b)
    case True
    with "1.prems"(1) r p have "h' = h1" by (subst (asm) recvLoop.simps) auto
    with True p r(2) take_ok(1) [OF "1.prems"(2) r(2)] show ?thesis by (auto simp: takePreRecv_def split: list.splits)
  next
    case False
    with "1.prems"(1) r p obtain d where d: "pt_delegatePeer (h ! r) = Some d" "recvLoop h (r # seen) (Some d) = Got env h'"
      by (subst (asm) recvLoop.simps) (auto split: option.splits)
    from "1.IH" [of r _ _ b h1 d] r p False d "1.prems"(2) show ?thesis by auto
  qed
qed

lemma awaitIncoming_ok:
  "awaitIncoming r arrs h = Some (out, arrs', h') \<Longrightarrow> r < length h \<Longrightarrow> heap_ok ids h \<Longrightarrow> list_all (arrival_ok (length ids)) arrs \<Longrightarrow>
   heap_ok ids h' \<and> list_all (arrival_ok (length ids)) arrs'"
proof (induction arrs arbitrary: h)
  case Nil
  thus ?case using take_ok(2) [of ids h r] by (subst (asm) awaitIncoming.simps) (auto split: list.splits if_splits)
next
  case (Cons a arrs)
  show ?case
  proof (cases "pt_incoming (h ! r) = [] \<and> \<not> pt_incomingClosed (h ! r)")
    case False
    with Cons.prems take_ok(2) [of ids h r] show ?thesis by (subst (asm) awaitIncoming.simps) (auto split: list.splits if_splits)
  next
    case True
    show ?thesis
    proof (cases "arrive a h")
      case (Inl e)
      with True Cons.prems show ?thesis by (subst (asm) awaitIncoming.simps) auto
    next
      case (Inr h1)
      with True Cons.prems(1) have "awaitIncoming r arrs h1 = Some (out, arrs', h')" by (subst (asm) awaitIncoming.simps) simp
      with Cons.IH [OF this] arrive_ok [OF Cons.prems(3) _ Inr] arrive_length [OF Inr] Cons.prems show ?thesis by simp
    qed
  qed
qed

lemma Recv_ok:
  assumes "Recv r c = Some (out, c')" "cabi_ok ids c"
  shows "cabi_ok ids c'"
proof (cases "recvLoop (cw_heap c) [] (Some r)")
  case (Got env h)
  with assms recvLoop_ok [OF Got] show ?thesis by (auto simp: Recv_def cabi_ok_def)
next
  case (AtChannel cur)
  from assms(1) AtChannel obtain arrs h where "awaitIncoming cur (cw_arrivals c) (cw_heap c) = Some (out, arrs, h)"
    and c': "c' = c\<lparr>cw_heap := h, cw_arrivals := arrs\<rparr>" by (auto simp: Recv_def)
  from awaitIncoming_ok [OF this(1) conjunct1 [OF recvLoop_AtChannel [OF AtChannel]]] assms(2) c' show ?thesis
    by (simp add: cabi_ok_def)
qed (use assms in \<open>auto simp: Recv_def\<close>)

lemma TryRecv_ok: "cabi_ok ids c \<Longrightarrow> cabi_ok ids (snd (snd (TryRecv r c)))"
  using take_ok(2) [of ids "cw_heap c"] recvLoop_ok [of "cw_heap c" "[]" "Some r"] recvLoop_AtChannel [of "cw_heap c" "[]" "Some r"]
  by (auto simp: TryRecv_def cabi_ok_def split: recv_at.split list.split)

lemma delegateLoop_root: "delegateLoop h seen cur = Inr r \<Longrightarrow> r < length h \<and> pt_delegatePeer (h ! r) = None"
proof (induction h seen cur rule: delegateLoop.induct)
  case (1 h seen cur)
  from "1.prems" obtain k where k: "cur = Some k" "k < length h" "k \<notin> set seen"
    by (subst (asm) delegateLoop.simps) (auto simp: fail_def nil_deref_def split: option.splits if_splits)
  with "1.prems" "1.IH" [of k] show ?case
    by (subst (asm) delegateLoop.simps) (auto split: option.splits)
qed

lemma PutBack_ok: "cabi_ok ids c \<Longrightarrow> cabi_ok ids (PutBack r env c)"
proof -
  assume ok: "cabi_ok ids c"
  have "heap_ok ids ((cw_heap c)[k := (cw_heap c ! k)\<lparr>pt_preRecv := e # pt_preRecv (cw_heap c ! k)\<rparr>])"
    if "delegateRoot (cw_heap c) r = Inr k" for k e
  proof (rule heap_ok_update)
    from delegateLoop_root [OF that [unfolded delegateRoot_def]] have k: "k < length (cw_heap c)" "pt_delegatePeer (cw_heap c ! k) = None" by auto
    from ok k heap_ok_nth [of ids "cw_heap c" k]
    show "transport_ok (length (cw_heap c)) ((cw_heap c ! k)\<lparr>pt_preRecv := e # pt_preRecv (cw_heap c ! k)\<rparr>)"
      by (simp add: cabi_ok_def transport_ok_def)
  qed (use ok delegateLoop_root [OF that [unfolded delegateRoot_def]] in \<open>auto simp: cabi_ok_def\<close>)
  with ok show ?thesis by (auto simp: PutBack_def cabi_ok_def split: option.split sum.split)
qed

lemma Send_ok: "cabi_ok ids (snd (Send m nc r env c)) \<longleftrightarrow> cabi_ok ids c"
  by (simp add: Send_def cabi_ok_def Let_def split: sum.split option.split prod.split)

section \<open>Sessions\<close>

text \<open>A session that works on the world of its node through the adapters of the C interface.\<close>

definition session_ok :: "'x cabi world TransferSession \<Rightarrow> bool" where
  "session_ok s \<longleftrightarrow> (\<forall>cr ids. parts_keep cr (\<lambda>w. cabi_ok ids (wd_ext w)) s)"

lemma cabiFileStorage_ok: "cabi_ok ids (snd (fs_WriteChunk (cabiFileStorage nc) fh i d c)) \<longleftrightarrow> cabi_ok ids c"
  by (simp add: cabiFileStorage_def cabi_ok_def Let_def split: prod.split)

lemma storeAppendRecord_ext: "wd_ext (snd (storeAppendRecord ne rec w)) = wd_ext w"
  by (simp add: storeAppendRecord_def split: sum.split)

lemma cabiSession_ok: "session_ok (cabiSession ne n t peerID req dir)"
proof -
  let ?T = "cabiTransport (marshal_Envelope (ne_proto ne)) (nx_Callbacks n) t"
  have "cabi_ok ids (wd_ext (snd (tp_Send (liftTransport ?T) e w))) \<longleftrightarrow> cabi_ok ids (wd_ext w)" for ids e w
    using Send_ok [of ids "marshal_Envelope (ne_proto ne)" "nx_Callbacks n" t e "wd_ext w"]
    by (auto simp: liftTransport_def cabiTransport_def split: prod.splits)
  moreover have "tp_Recv (liftTransport ?T) w = Some (r, w') \<Longrightarrow> cabi_ok ids (wd_ext w) \<Longrightarrow> cabi_ok ids (wd_ext w')" for ids w w' r
    using Recv_ok [of t "wd_ext w" r] by (auto simp: liftTransport_def cabiTransport_def split: option.splits)
  moreover have "cabi_ok ids (wd_ext w) \<Longrightarrow> cabi_ok ids (wd_ext (snd (snd (tp_TryRecv (liftTransport ?T) w))))" for ids w
    using TryRecv_ok [of ids "wd_ext w" t] by (auto simp: liftTransport_def cabiTransport_def split: prod.splits)
  moreover have "cabi_ok ids (wd_ext w) \<Longrightarrow> cabi_ok ids (wd_ext (tp_PutBack (liftTransport ?T) e w))" for ids e w
    by (simp add: liftTransport_def cabiTransport_def PutBack_ok)
  moreover have "cabi_ok ids (wd_ext (snd (fs_WriteChunk (liftStorage (cabiFileStorage (nx_Callbacks n))) fh i d w))) \<longleftrightarrow> cabi_ok ids (wd_ext w)"
    for ids fh i d w
    using cabiFileStorage_ok [of ids "nx_Callbacks n" fh i d "wd_ext w"] by (auto simp: liftStorage_def split: prod.splits)
  ultimately show ?thesis
    unfolding session_ok_def parts_keep_def
    by (auto simp: cabiSession_def Let_def NewSession_def SetPolicyStore_def SetFileStorage_def SetLocalPubKey_def SetPendingRequest_def
        cabiAppendRecord_def storeAppendRecord_ext)
qed

lemma session_ok_update [simp]:
  "session_ok (SetPendingRequest req s) = session_ok s" "session_ok (RebindPeer p s) = session_ok s"
  by (simp_all add: session_ok_def) (simp add: parts_keep_def RebindPeer_def)

section \<open>Nodes\<close>

definition peers_ok :: "uintptr list \<Rightarrow> 'x NodeContext \<Rightarrow> bool" where
  "peers_ok ids n \<longleftrightarrow> (\<forall>pid t. nx_PeerTransports n pid = Some t \<longrightarrow> t < length ids \<and> ids ! t = pid)"

definition sessions_ok :: "'x NodeContext \<Rightarrow> bool" where
  "sessions_ok n \<longleftrightarrow> distinct (nx_spawned n) \<and> (\<forall>ref\<in>set (nx_spawned n). ref < nx_next n \<and> session_ok (nx_heap n ref))"

definition active_ok :: "'x NodeContext \<Rightarrow> bool" where
  "active_ok n \<longleftrightarrow> nx_ActivePeer n = 0 \<or> nx_PeerTransports n (nx_ActivePeer n) \<noteq> None"

definition cabi_wf :: "'x cabi_state \<Rightarrow> bool" where
  "cabi_wf = (\<lambda>(n, w). \<exists>ids. cabi_ok ids (wd_ext w) \<and> peers_ok ids n \<and> sessions_ok n \<and> active_ok n)"

lemma cabi_wfI: "cabi_ok ids (wd_ext w) \<Longrightarrow> peers_ok ids n \<Longrightarrow> sessions_ok n \<Longrightarrow> active_ok n \<Longrightarrow> cabi_wf (n, w)"
  by (auto simp: cabi_wf_def)

lemma cabi_wf_store [simp]: "cabi_wf (n, w\<lparr>wd_store := s\<rparr>) = cabi_wf (n, w)"
  by (simp add: cabi_wf_def)

lemma cabi_wf_native [simp]: "cabi_wf (n, w\<lparr>wd_ext := (wd_ext w)\<lparr>cw_native := x\<rparr>\<rparr>) = cabi_wf (n, w)"
  by (simp add: cabi_wf_def cabi_ok_def)

lemma cabi_wf_same:
  "cabi_wf (n, w) \<Longrightarrow> nx_PeerTransports n' = nx_PeerTransports n \<Longrightarrow> nx_ActivePeer n' = nx_ActivePeer n \<Longrightarrow> sessions_ok n' \<Longrightarrow> cabi_wf (n', w)"
  by (auto simp: cabi_wf_def peers_ok_def active_ok_def)

lemma tryStore_wf [intro]: "st_keeps cabi_wf (tryStore f)"
  by (auto simp: st_keeps_def tryStore_def split: sum.split failure.split)

lemma onNative_wf: "cabi_wf (n, w) \<Longrightarrow> cabi_wf (snd (onNative f (n, w)))"
  by (simp add: onNative_def)

lemma ensurePeerTransport_wf:
  assumes "cabi_wf x" "ensurePeerTransport pid x = (t, n, w)"
  shows "cabi_wf (n, w) \<and> nx_PeerTransports n pid = Some t \<and> t < length (cw_heap (wd_ext w))"
proof -
  obtain n0 w0 where x: "x = (n0, w0)" by (cases x)
  from assms(1) x obtain ids where I: "cabi_ok ids (wd_ext w0)" "peers_ok ids n0" "sessions_ok n0" "active_ok n0" by (auto simp: cabi_wf_def)
  from I(1) have len: "length ids = length (cw_heap (wd_ext w0))" by (auto simp: cabi_ok_def dest: heap_ok_length)
  show ?thesis
  proof (cases "nx_PeerTransports n0 pid")
    case (Some t')
    with assms x I len show ?thesis by (auto simp: ensurePeerTransport_def peers_ok_def)
  next
    case None
    let ?h = "snd (newCabiPeerTransport pid (cw_heap (wd_ext w0)))"
    have n: "t = length ids" "n = n0\<lparr>nx_PeerTransports := (nx_PeerTransports n0)(pid \<mapsto> length ids)\<rparr>"
      "w = w0\<lparr>wd_ext := (wd_ext w0)\<lparr>cw_heap := ?h\<rparr>\<rparr>"
      using assms(2) None x len by (auto simp: ensurePeerTransport_def newCabiPeerTransport_def)
    have "arrival_ok m a \<Longrightarrow> arrival_ok (Suc m) a" for m a by (cases a) auto
    with I(1) heap_ok_new [of ids "cw_heap (wd_ext w0)" pid] have "cabi_ok (ids @ [pid]) (wd_ext w)"
      by (auto simp: cabi_ok_def n list_all_iff)
    moreover have "peers_ok (ids @ [pid]) n" using I(2) by (auto simp: peers_ok_def n nth_append less_Suc_eq)
    moreover have "sessions_ok n" "active_ok n" using I(3,4) by (auto simp: sessions_ok_def active_ok_def n)
    ultimately have "cabi_wf (n, w)" by (rule cabi_wfI)
    moreover have "length ?h = Suc (length ids)" by (simp add: newCabiPeerTransport_def len)
    ultimately show ?thesis using n by simp
  qed
qed

lemma onHeap_link_wf:
  "cabi_wf (n, w) \<Longrightarrow> b < length (cw_heap (wd_ext w)) \<Longrightarrow> cabi_wf (snd (onHeap (linkDelegate tp (Some b)) (n, w)))"
  by (auto simp: onHeap_def cabi_wf_def cabi_ok_def dest: linkDelegate_ok split: sum.split)

lemma onHeap_enqueue_wf: "cabi_wf (n, w) \<Longrightarrow> cabi_wf (snd (onHeap (enqueue t env) (n, w)))"
  by (auto simp: onHeap_def cabi_wf_def cabi_ok_def dest: enqueue_ok split: sum.split)

lemma linkAll_wf:
  assumes "cabi_wf (n, w)" "b < length (cw_heap (wd_ext w))" "linkAll ts b (n, w) = (r, n', w')"
  shows "cabi_wf (n', w') \<and> n' = n \<and> length (cw_heap (wd_ext w')) = length (cw_heap (wd_ext w))"
  using assms
proof (induction ts arbitrary: w)
  case (Cons t ts)
  obtain r1 n1 w1 where l: "onHeap (linkDelegate (Some t) (Some b)) (n, w) = (r1, n1, w1)"
    by (cases "onHeap (linkDelegate (Some t) (Some b)) (n, w)") auto
  hence wf: "cabi_wf (n1, w1)" using onHeap_link_wf [OF Cons.prems(1,2), of "Some t"] by simp
  have len: "n1 = n" "length (cw_heap (wd_ext w1)) = length (cw_heap (wd_ext w))"
    using l arrive_length [of "Link t b" "cw_heap (wd_ext w)"] by (auto simp: onHeap_def split: sum.splits)
  show ?case
  proof (cases r1)
    case (Inl e)
    with Cons.prems(3) l wf len show ?thesis by (simp add: linkAll_def st_bind_def)
  next
    case (Inr u)
    with Cons.prems(3) l len have "linkAll ts b (n, w1) = (r, n', w')" by (simp add: linkAll_def st_bind_def)
    with Cons.IH [of w1] wf len Cons.prems(2) show ?thesis by auto
  qed
qed (auto simp: linkAll_def st_ret_def)

lemma cabi_wf_keys [simp]:
  "cabi_wf (n\<lparr>nx_SessionKeys := k\<rparr>, w) = cabi_wf (n, w)" "cabi_wf (n\<lparr>nx_SharedSecrets := k\<rparr>, w) = cabi_wf (n, w)"
  "cabi_wf (n\<lparr>nx_Policy := p\<rparr>, w) = cabi_wf (n, w)" "cabi_wf (n\<lparr>nx_Transfer := m\<rparr>, w) = cabi_wf (n, w)"
  by (simp_all add: cabi_wf_def peers_ok_def sessions_ok_def active_ok_def)

lemma cabi_wf_active: "cabi_wf (n, w) \<Longrightarrow> p = 0 \<or> nx_PeerTransports n p \<noteq> None \<Longrightarrow> cabi_wf (n\<lparr>nx_ActivePeer := p\<rparr>, w)"
  by (auto simp: cabi_wf_def peers_ok_def sessions_ok_def active_ok_def)

lemma registered_transport: "cabi_wf (n, w) \<Longrightarrow> nx_PeerTransports n pid = Some t \<Longrightarrow> t < length (cw_heap (wd_ext w))"
  by (auto simp: cabi_wf_def peers_ok_def cabi_ok_def dest: heap_ok_length)

lemma connected_wf: "st_keeps cabi_wf (ml_on_peer_connected ne keys order pid)"
  unfolding st_keeps_def
proof (intro allI impI)
  fix x :: "'a cabi_state"
  assume wf: "cabi_wf x"
  obtain t n w where e: "ensurePeerTransport pid x = (t, n, w)" by (cases "ensurePeerTransport pid x") auto
  let ?c = "maxTransportPeerID order n"
  from ensurePeerTransport_wf [OF wf e] have wf1: "cabi_wf (n, w)" by simp
  show "cabi_wf (snd (ml_on_peer_connected ne keys order pid x))"
  proof (cases "nx_PeerTransports n ?c")
    case None
    with wf1 e show ?thesis by (simp add: ml_on_peer_connected_def)
  next
    case (Some canT)
    let ?n = "n\<lparr>nx_ActivePeer := ?c\<rparr>"
    obtain r n2 w2 where l: "linkAll (otherTransports order ?c ?n) canT (?n, w) = (r, n2, w2)"
      by (cases "linkAll (otherTransports order ?c ?n) canT (?n, w)") auto
    have "cabi_wf (?n, w)" using wf1 Some by (intro cabi_wf_active) simp_all
    hence "cabi_wf (n2, w2)" using linkAll_wf [OF _ _ l] registered_transport [OF wf1 Some] by auto
    with e Some l show ?thesis
      by (auto simp: ml_on_peer_connected_def st_bind_def Let_def onNative_def split: sum.split failure.split)
  qed
qed

lemma session_ok_rebind:
  "session_ok (fold (\<lambda>p h. case p of Some s \<Rightarrow> if ss_PeerID (h s) = dropped then h(s := RebindPeer surv (h s)) else h | None \<Rightarrow> h) ps h ref) =
   session_ok (h ref)"
  by (induction ps arbitrary: h) (auto split: option.split)

lemma sessions_ok_rebind: "sessions_ok n \<Longrightarrow> sessions_ok (rebindSessions order dropped surv n)"
  by (simp add: sessions_ok_def rebindSessions_def session_ok_rebind)

lemma survivor:
  "pickSurvivorTransportLocked order n = (Some t, p) \<Longrightarrow> nx_PeerTransports n p = Some t"
  by (auto simp: pickSurvivorTransportLocked_def Let_def split: if_splits)

lemma start_session_wf: "st_keeps cabi_wf (startSession ne peerID req dir)"
  unfolding st_keeps_def
proof (intro allI impI)
  fix x :: "'a cabi_state"
  assume wf: "cabi_wf x"
  obtain t n w where e: "ensurePeerTransport peerID x = (t, n, w)" by (cases "ensurePeerTransport peerID x") auto
  from ensurePeerTransport_wf [OF wf e] have wf1: "cabi_wf (n, w)" by simp
  hence ok: "sessions_ok n" by (auto simp: cabi_wf_def)
  have "cabi_wf (n\<lparr>nx_heap := (nx_heap n)(r := SetPendingRequest q (nx_heap n r))\<rparr>, w)" for r q
    using wf1 by (rule cabi_wf_same) (use ok in \<open>auto simp: sessions_ok_def\<close>)
  moreover have "cabi_wf (n\<lparr>nx_heap := (nx_heap n)(nx_next n := s), nx_next := nx_next n + 1\<rparr>, w)" for s
    using wf1 by (rule cabi_wf_same) (use ok in \<open>auto simp: sessions_ok_def less_Suc_eq\<close>)
  moreover have "cabi_wf (n\<lparr>nx_heap := (nx_heap n)(nx_next n := cabiSession ne n t peerID req dir), nx_next := nx_next n + 1,
      nx_Transfer := m, nx_spawned := nx_spawned n @ [nx_next n]\<rparr>, w)" for m
    using wf1 by (rule cabi_wf_same) (use ok cabiSession_ok in \<open>auto simp: sessions_ok_def less_Suc_eq\<close>)
  ultimately show "cabi_wf (snd (startSession ne peerID req dir x))"
    using wf1 by (auto simp: startSession_def e Let_def split: sum.split option.split bool.split prod.split)
qed

lemma dropPeer_wf:
  assumes "cabi_wf (n, w)" "dropPeer order p n = (oldT, survT, survID, others, n')"
  shows "cabi_wf (n', w) \<and> (\<forall>surv. survT = Some surv \<longrightarrow> surv < length (cw_heap (wd_ext w)))"
proof -
  let ?n = "n\<lparr>nx_PeerTransports := (nx_PeerTransports n)(p := None)\<rparr>"
  define m where "m = (if nx_ActivePeer n = p then ?n\<lparr>nx_ActivePeer := 0\<rparr> else ?n)"
  have wf: "cabi_wf (m, w)"
    using assms(1) by (auto simp: m_def cabi_wf_def peers_ok_def sessions_ok_def active_ok_def)
  have sv: "pickSurvivorTransportLocked order m = (survT, survID)"
    and n': "n' = (if survT \<noteq> None \<and> nx_ActivePeer m = 0 then m\<lparr>nx_ActivePeer := survID\<rparr> else m)"
    using assms(2) by (auto simp: dropPeer_def m_def Let_def split: prod.splits if_splits)
  show ?thesis
  proof (cases survT)
    case None
    with wf n' show ?thesis by simp
  next
    case (Some surv)
    with sv have "nx_PeerTransports m survID = Some surv" by (auto dest: survivor)
    with wf n' Some registered_transport [OF wf this] show ?thesis by (auto intro: cabi_wf_active)
  qed
qed

lemma onHeap_link_length:
  "onHeap (linkDelegate (Some a) (Some b)) (n, w) = (r, n', w') \<Longrightarrow> length (cw_heap (wd_ext w')) = length (cw_heap (wd_ext w)) \<and> n' = n"
  using arrive_length [of "Link a b" "cw_heap (wd_ext w)"] by (auto simp: onHeap_def split: sum.splits)

lemma rebind_wf:
  assumes "cabi_wf (n, w)"
  shows "cabi_wf (rebindSessions order dropped surv n, w)"
proof (rule cabi_wf_same [OF assms])
  show "sessions_ok (rebindSessions order dropped surv n)" using assms by (auto simp: cabi_wf_def intro: sessions_ok_rebind)
qed (simp_all add: rebindSessions_def)

lemma handOver_wf:
  assumes "cabi_wf (n, w)" "handOver sessions p oldT survT survID (n, w) = (r, n', w')"
    and "\<And>surv. survT = Some surv \<Longrightarrow> surv < length (cw_heap (wd_ext w))"
  shows "cabi_wf (n', w') \<and> length (cw_heap (wd_ext w')) = length (cw_heap (wd_ext w))"
proof (cases "\<exists>old surv. oldT = Some old \<and> survT = Some surv \<and> old \<noteq> surv")
  case False
  with assms(1,2) show ?thesis by (auto simp: handOver_def st_ret_def removeSessions_def split: option.splits if_splits)
next
  case True
  then obtain old surv where s: "oldT = Some old" "survT = Some surv" "old \<noteq> surv" by blast
  obtain q m v where l: "onHeap (linkDelegate (Some old) (Some surv)) (n, w) = (q, m, v)"
    by (cases "onHeap (linkDelegate (Some old) (Some surv)) (n, w)") auto
  with onHeap_link_wf [OF assms(1) assms(3) [OF s(2)], of "Some old"] have "cabi_wf (m, v)" by simp
  with l onHeap_link_length [OF l] assms(2) s show ?thesis
    by (auto simp: handOver_def st_bind_def rebind_wf split: sum.splits)
qed

lemma disconnected_wf: "st_keeps cabi_wf (ml_on_peer_disconnected ne order sessions p)"
  unfolding st_keeps_def
proof (intro allI impI)
  fix x :: "'a cabi_state"
  assume wf: "cabi_wf x"
  obtain n w where x: "x = (n, w)" by (cases x)
  let ?n = "n\<lparr>nx_SessionKeys := (nx_SessionKeys n)(p := None), nx_SharedSecrets := (nx_SharedSecrets n)(p := None)\<rparr>"
  obtain oldT survT survID others n1 where d: "dropPeer order p ?n = (oldT, survT, survID, others, n1)" by (metis prod_cases5)
  from wf x dropPeer_wf [OF _ d, of w] have wf1: "cabi_wf (n1, w)"
    and bound: "\<And>surv. survT = Some surv \<Longrightarrow> surv < length (cw_heap (wd_ext w))" by auto
  obtain r n2 w2 where h: "handOver sessions p oldT survT survID (n1, w) = (r, n2, w2)"
    by (cases "handOver sessions p oldT survT survID (n1, w)") auto
  note ho = handOver_wf [OF wf1 h bound]
  let ?merge = "case survT of None \<Rightarrow> st_ret () | Some surv \<Rightarrow> linkAll others surv"
  obtain q n3 w3 where m: "?merge (n2, w2) = (q, n3, w3)" by (cases "?merge (n2, w2)") auto
  have wf3: "cabi_wf (n3, w3)"
  proof (cases survT)
    case (Some surv)
    with m have "linkAll others surv (n2, w2) = (q, n3, w3)" by simp
    from linkAll_wf [OF _ _ this] ho bound [OF Some] Some show ?thesis by auto
  qed (use m ho in \<open>simp add: st_ret_def\<close>)
  have "cabi_wf (snd (st_bind ?merge (\<lambda>_ (n, w). tryStore (UpsertPeer (ne_engine ne) (Some (peerSeen p (ne_now ne w)))) (n, w)) (n2, w2)))"
    by (rule st_bind_invI [where m = ?merge and I = cabi_wf, OF m wf3]) (simp add: st_keepsD [OF tryStore_wf wf3])
  hence "cabi_wf (snd (st_bind (handOver sessions p oldT survT survID) (\<lambda>_. st_bind ?merge (\<lambda>_ (n, w).
      tryStore (UpsertPeer (ne_engine ne) (Some (peerSeen p (ne_now ne w)))) (n, w))) (n1, w)))"
    using ho by (intro st_bind_invI [where m = "handOver sessions p oldT survT survID" and I = cabi_wf, OF h]) simp_all
  thus "cabi_wf (snd (ml_on_peer_disconnected ne order sessions p x))"
    by (simp add: x ml_on_peer_disconnected_def d)
qed

section \<open>Data, files and requests\<close>

lemma enqueuePeer_wf: "st_keeps cabi_wf (enqueuePeer peerID env)"
proof -
  have "cabi_wf (snd (enqueuePeer peerID env x))" if "cabi_wf x" for x :: "'a cabi_state"
  proof -
    obtain t n w where e: "ensurePeerTransport peerID x = (t, n, w)" by (cases "ensurePeerTransport peerID x") auto
    from ensurePeerTransport_wf [OF that e] onHeap_enqueue_wf [of n w t "Some env"] e show ?thesis by (simp add: enqueuePeer_def)
  qed
  thus ?thesis by (simp add: st_keeps_def)
qed

lemma native_wf: "st_keeps cabi_wf (\<lambda>(n, w). onNative (f n) (n, w))"
  by (auto simp: st_keeps_def onNative_def)

lemma data_received_wf: "st_keeps cabi_wf (ml_on_data_received ne peerID data)"
proof -
  have received: "st_keeps cabi_wf (writeReceived b)" for b
    unfolding writeReceived_def by (intro st_keeps_each native_wf)
  have gossip: "st_keeps cabi_wf (receiveGossip ne peerID payload)" for payload
    unfolding receiveGossip_def
    by (intro st_keeps_bind st_keeps_each tryStore_wf native_wf) (auto split: option.split)
  have start: "st_keeps cabi_wf (\<lambda>x. case startSession ne peerID q dir x of (Inl (Err _), y) \<Rightarrow> (Inr (), y) | out \<Rightarrow> out)" for q dir
    using start_session_wf [of ne peerID q dir]
    by (auto simp: st_keeps_def split: prod.split sum.split failure.split) (metis snd_conv)+
  show ?thesis
    unfolding ml_on_data_received_def
    by (auto intro!: st_keeps_bind gossip received start enqueuePeer_wf native_wf split: sum.split failure.split option.split Envelope_Payload.split)
qed

lemma discovered_wf: "st_keeps cabi_wf (ml_on_peer_discovered ne p)"
  unfolding ml_on_peer_discovered_def by (rule tryStore_wf)

lemma share_file_wf: "st_keeps cabi_wf (ml_share_file ne d name)"
  by (auto simp: st_keeps_def ml_share_file_def Let_def split: option.split sum.split failure.split prod.split)

lemma requestPeer_wf:
  assumes "cabi_wf (n, w)" "requestPeer order n = (p, n')"
  shows "cabi_wf (n', w)"
proof -
  have "maxTransportPeerID order (m\<lparr>nx_ActivePeer := a\<rparr>) = maxTransportPeerID order m" for m :: "'a NodeContext" and a
    by (simp add: maxTransportPeerID_def)
  moreover have "maxTransportPeerID order n = 0 \<or> nx_PeerTransports n (maxTransportPeerID order n) \<noteq> None"
  proof -
    have "fold (\<lambda>pid maxID. if pid > maxID then pid else maxID) xs (m :: uintptr) \<in> insert m (set xs)" for xs m
    proof (induction xs arbitrary: m)
      case (Cons a xs)
      from Cons [of "if m < a then a else m"] show ?case by (auto split: if_splits)
    qed simp
    from this [of "filter (\<lambda>pid. nx_PeerTransports n pid \<noteq> None) order" 0] show ?thesis by (auto simp: maxTransportPeerID_def)
  qed
  ultimately show ?thesis
    using assms by (auto simp: requestPeer_def pickFallbackPeerIDLocked_def Let_def intro!: cabi_wf_active split: if_splits)
qed

lemma sendRequest_wf: "st_keeps cabi_wf (sendRequest ne nonce order hash chunks)"
proof -
  have peer: "st_keeps cabi_wf (\<lambda>(n, w).
       let (peerID, n) = requestPeer order n in
       if peerID \<noteq> 0 then (Inr peerID, n, w)
       else (case GetAllPeers (ne_engine ne) 1 (wd_store w) of
               Inl (Panic p) \<Rightarrow> (Inl (Panic p), n, w)
             | Inl (Err _) \<Rightarrow> (fail ''no active peer available'', n, w)
             | Inr [] \<Rightarrow> (fail ''no active peer available'', n, w)
             | Inr (p # _) \<Rightarrow> (Inr (uint64ToPeerID (pi_LastSeen p)), n, w)))"
    by (auto simp: st_keeps_def dest: requestPeer_wf split: prod.split sum.split failure.split list.split)
  have pure: "st_keeps cabi_wf (\<lambda>(n, w). (f n w, n, w))" for f :: "'a NodeContext \<Rightarrow> 'a cabi world \<Rightarrow> 'b res"
    by (simp add: st_keeps_def)
  have insert: "st_keeps cabi_wf (\<lambda>(n, w). case InsertRequest (ne_engine ne) (ne_proto ne) (ne_crypto ne) req (wd_store w) of
      Inl e \<Rightarrow> (Inl e, n, w) | Inr s \<Rightarrow> (Inr (), n, w\<lparr>wd_store := s\<rparr>))" for req
    by (auto simp: st_keeps_def split: sum.split)
  show ?thesis
    unfolding sendRequest_def
    by (intro st_keeps_bind start_session_wf peer insert) (simp_all add: st_keeps_def Let_def)
qed

lemma resultOf_wf: "st_keeps cabi_wf f \<Longrightarrow> st_keeps cabi_wf (\<lambda>x. resultOf (f x))"
  by (simp add: st_keeps_def resultOf_def split: prod.split) (metis snd_conv)

lemma request_file_wf: "st_keeps cabi_wf (ml_request_file ne nonce order h)"
proof -
  have "st_keeps cabi_wf (st_bind (\<lambda>(n, w). (GetFileMeta (ne_engine ne) h (wd_store w), n, w)) (\<lambda>meta.
      sendRequest ne nonce order (bs h) (map of_nat [0..<length (fm_ChunkHashes meta)])))"
    by (intro st_keeps_bind sendRequest_wf) (simp add: st_keeps_def)
  from resultOf_wf [OF this] show ?thesis by (simp add: st_keeps_def ml_request_file_def)
qed

lemma request_file_with_chunk_count_wf: "st_keeps cabi_wf (ml_request_file_with_chunk_count ne nonce order h c)"
  using resultOf_wf [OF sendRequest_wf [of ne nonce order "bs h" "map of_nat [0..<unat c]"]]
  by (simp add: st_keeps_def ml_request_file_with_chunk_count_def)

lemma report_wf: "st_keeps cabi_wf (\<lambda>(n, w). resultOf (r n w, n, w))"
  using resultOf_wf [of "\<lambda>(n, w). (r n w, n, w)"] by (simp add: st_keeps_def)

section \<open>Reachable states\<close>

lemma onResult_wf: "st_keeps cabi_wf f \<Longrightarrow> st_keeps cabi_wf (onResult g f)"
  by (auto simp: st_keeps_def onResult_def split: prod.split) (metis snd_conv)

lemma policy_wf: "st_keeps cabi_wf (ml_set_service_policy p)"
  by (simp add: st_keeps_def ml_set_service_policy_def)

lemma api_call_wf: "st_keeps cabi_wf (apiBody c)"
  by (cases c)
    (simp_all add: onResult_wf policy_wf connected_wf disconnected_wf data_received_wf discovered_wf share_file_wf request_file_wf
      request_file_with_chunk_count_wf ml_get_peers_def ml_get_file_index_def ml_get_balance_def ml_get_chain_summary_def report_wf)

lemma goroutine_wf:
  assumes "cabi_wf (n, w)" "ref \<in> set (nx_spawned n)" "cabiRunSpawned ne order ref (n, w) = Some (r, n', w')"
  shows "cabi_wf (n', w')"
proof -
  from assms(1) obtain ids where I: "cabi_ok ids (wd_ext w)" "peers_ok ids n" "sessions_ok n" "active_ok n" by (auto simp: cabi_wf_def)
  obtain q s w1 where run: "RunSession (cabiSessionEnv ne) (nx_heap n ref) w = Some (q, s, w1)"
    using assms(3) by (auto simp: cabiRunSpawned_def bind_eq_Some_conv)
  have "session_ok (nx_heap n ref)" using I(3) assms(2) by (auto simp: sessions_ok_def)
  hence "parts_keep (se_crypto (cabiSessionEnv ne)) (\<lambda>w. cabi_ok ids (wd_ext w)) (nx_heap n ref)" by (simp add: session_ok_def)
  with RunSession_keeps [OF this I(1) run] have w1: "cabi_ok ids (wd_ext w1)" by simp
  let ?n = "n\<lparr>nx_heap := (nx_heap n)(ref := s), nx_spawned := remove1 ref (nx_spawned n)\<rparr>"
  have "sessions_ok ?n" using I(3) by (auto simp: sessions_ok_def)
  with w1 I have "cabi_wf (?n, w1)" by (intro cabi_wfI) (auto simp: peers_ok_def active_ok_def)
  with run assms(3) show ?thesis by (auto simp: cabiRunSpawned_def Let_def split: sum.splits failure.splits)
qed

text \<open>
  The states of a node of the C interface: it was created, then the native layer calls, sessions run,
  and in between the native state and what other goroutines will do may change.
\<close>

inductive cabi_reach :: "'x cabi_state \<Rightarrow> bool" where
  created: "ml_node_create oc en generated now file callbacks native r = (Inr h, r') \<Longrightarrow> h \<noteq> 0 \<Longrightarrow>
    cw_heap native = [] \<Longrightarrow> cw_arrivals native = [] \<Longrightarrow> GetHandle h r' = Some x \<Longrightarrow> cabi_reach x"
| called: "cabi_reach x \<Longrightarrow> apiBody c x = (r, y) \<Longrightarrow> cabi_reach y"
| session: "cabi_reach (n, w) \<Longrightarrow> ref \<in> set (nx_spawned n) \<Longrightarrow> cabiRunSpawned ne order ref (n, w) = Some (r, y) \<Longrightarrow> cabi_reach y"
| outside: "cabi_reach (n, w) \<Longrightarrow> list_all (arrival_ok (length (cw_heap (wd_ext w)))) arrs \<Longrightarrow>
    cabi_reach (n, w\<lparr>wd_ext := (wd_ext w)\<lparr>cw_arrivals := arrs, cw_native := x\<rparr>\<rparr>)"

lemma created_wf:
  assumes "ml_node_create oc en generated now file callbacks native r = (Inr h, r')" "h \<noteq> 0"
    and "cw_heap native = []" "cw_arrivals native = []" "GetHandle h r' = Some x"
  shows "cabi_wf x"
proof -
  from assms(1,2,5) obtain n s where x: "x = (n, \<lparr>wd_store = s, wd_ext = native\<rparr>)"
    and n: "nx_PeerTransports n = Map.empty" "nx_ActivePeer n = 0" "nx_spawned n = []"
    by (auto simp: ml_node_create_def RegisterHandle_def GetHandle_def Let_def split: sum.splits failure.splits prod.splits)
  show ?thesis unfolding x
    by (rule cabi_wfI [of "[]"]) (simp_all add: cabi_ok_def heap_ok_def assms(3,4) peers_ok_def sessions_ok_def active_ok_def n)
qed

lemma cabi_reach_wf: "cabi_reach x \<Longrightarrow> cabi_wf x"
proof (induction rule: cabi_reach.induct)
  case created
  thus ?case by (rule created_wf)
next
  case (called x c r y)
  thus ?case using st_keepsD [OF api_call_wf, of x c] by simp
next
  case (session n w ref ne order r y)
  thus ?case using goroutine_wf [of n w ref ne order r] by (cases y) simp
next
  case (outside n w arrs x)
  then obtain ids where ok: "heap_ok ids (cw_heap (wd_ext w))" "peers_ok ids n" "sessions_ok n" "active_ok n"
    by (auto simp: cabi_wf_def cabi_ok_def)
  with outside heap_ok_length [OF ok(1)] show ?case by (intro cabi_wfI) (simp_all add: cabi_ok_def)
qed

lemma delegateLoop_wf:
  "heap_ok ids h \<Longrightarrow> (\<And>r. cur = Some r \<Longrightarrow> r < length h) \<Longrightarrow> cur \<noteq> None \<Longrightarrow>
   (\<exists>r. delegateLoop h seen cur = Inr r \<and> active h r) \<or> delegateLoop h seen cur = fail ''cabiPeerTransport: delegate cycle''"
proof (induction h seen cur rule: delegateLoop.induct)
  case (1 h seen cur)
  then obtain r where r: "cur = Some r" "r < length h" by auto
  show ?case
  proof (cases "r \<in> set seen \<or> pt_delegatePeer (h ! r) = None")
    case True
    with r heap_ok_nth [OF "1.prems"(1) r(2)] show ?thesis
      by (subst (1 2) delegateLoop.simps) (auto simp: active_def transport_ok_def)
  next
    case False
    then obtain d where d: "r \<notin> set seen" "pt_delegatePeer (h ! r) = Some d" by auto
    with heap_ok_nth [OF "1.prems"(1) r(2)] have "d < length h" by (simp add: transport_ok_def)
    with "1.IH" [of r d] "1.prems"(1) r d show ?thesis by (subst (1 2) delegateLoop.simps) auto
  qed
qed

text \<open>
  C5. The state behind the C interface is well typed however the native layer calls it and however its
  goroutines interleave.  No reference dangles: the transport of every connected peer was made
  for that peer; following the hand-overs from it ends at an open transport or is reported as a cycle,
  and never dereferences nil.  No channel holds more than 32 envelopes, a transport is closed exactly
  when it was handed over and then holds nothing, the active peer is connected, and no two
  goroutines run the same session.
\<close>

theorem cabi_state_well_typed:
  assumes "cabi_reach (n, w)"
  shows "(\<forall>pid t. nx_PeerTransports n pid = Some t \<longrightarrow> t < length (cw_heap (wd_ext w)) \<and> pt_peerID (cw_heap (wd_ext w) ! t) = pid \<and>
      ((\<exists>r. delegateRoot (cw_heap (wd_ext w)) t = Inr r \<and> active (cw_heap (wd_ext w)) r) \<or>
       delegateRoot (cw_heap (wd_ext w)) t = fail ''cabiPeerTransport: delegate cycle'')) \<and>
    list_all (\<lambda>t. length (pt_incoming t) \<le> 32 \<and> (pt_incomingClosed t \<longleftrightarrow> pt_delegatePeer t \<noteq> None) \<and>
      (pt_incomingClosed t \<longrightarrow> queued t = 0)) (cw_heap (wd_ext w)) \<and>
    (nx_ActivePeer n \<noteq> 0 \<longrightarrow> nx_PeerTransports n (nx_ActivePeer n) \<noteq> None) \<and> distinct (nx_spawned n)"
proof -
  let ?h = "cw_heap (wd_ext w)"
  from cabi_reach_wf [OF assms] obtain ids where ok: "heap_ok ids ?h" "peers_ok ids n" "sessions_ok n" "active_ok n"
    by (auto simp: cabi_wf_def cabi_ok_def)
  have peer: "t < length ?h \<and> pt_peerID (?h ! t) = pid" if "nx_PeerTransports n pid = Some t" for pid t
  proof -
    from ok(1) have ids: "map pt_peerID ?h = ids" by (simp add: heap_ok_def)
    from ok(2) that have t: "t < length ids" "ids ! t = pid" by (auto simp: peers_ok_def)
    with nth_map [of t ?h pt_peerID] heap_ok_length [OF ok(1)] show ?thesis by (simp add: ids)
  qed
  hence "(\<exists>r. delegateRoot ?h t = Inr r \<and> active ?h r) \<or> delegateRoot ?h t = fail ''cabiPeerTransport: delegate cycle''"
    if "nx_PeerTransports n pid = Some t" for pid t
    using that delegateLoop_wf [OF ok(1), of "Some t" "[]"] by (auto simp: delegateRoot_def)
  moreover have "list_all (\<lambda>t. length (pt_incoming t) \<le> 32 \<and> (pt_incomingClosed t \<longleftrightarrow> pt_delegatePeer t \<noteq> None) \<and>
      (pt_incomingClosed t \<longrightarrow> queued t = 0)) ?h"
    using ok(1) by (auto simp: heap_ok_def transport_ok_def list_all_iff incomingCapacity_def)
  ultimately show ?thesis using peer ok(3,4) by (auto simp: active_ok_def sessions_ok_def)
qed

section \<open>A concrete node\<close>

definition all_open :: open_calls where
  "all_open = \<lparr>oc_writer = None, oc_pragma = None, oc_reader = None\<rparr>"

definition new_file :: "Schema \<times> Store" where
  "new_file = (\<lparr>sc_tables = [], sc_indexes = [], sc_version = []\<rparr>, empty_store)"

definition quiet :: "unit cabi" where
  "quiet = \<lparr>cw_heap = [], cw_arrivals = [], cw_native = ()\<rparr>"

definition demo_keys :: "go_error + byte list \<times> byte list" where
  "demo_keys = Inr (demo_pub 1, demo_priv 1)"

lemma demo_created:
  "\<exists>n w r'. ml_node_create all_open demo_engine demo_keys 7 new_file no_callbacks quiet registry = (Inr 1, r') \<and>
     GetHandle 1 r' = Some (n, w) \<and> nx_PeerTransports n = Map.empty \<and> wd_ext w = quiet"
  by (simp add: ml_node_create_def all_open_def new_file_def OpenDatabase_def migrate_def demo_engine_def LoadIdentity_def GetIdentity_def
      empty_store_def scan_row_def NewIdentity_def st_defs demo_keys_def GenerateKeyPair_def InitIdentity_def not_null_def
      RegisterHandle_def GetHandle_def registry_def Let_def)

definition demo_report_env :: "unit cabi node_env" where
  "demo_report_env = \<lparr>ne_crypto = demo_crypto, ne_proto = demo_proto, ne_platform = demo_platform, ne_order = (\<lambda>xs. xs), ne_engine = demo_engine,
     ne_now = (\<lambda>_. 100), ne_ctx_Err = (\<lambda>_. None)\<rparr>"

theorem cabi_state_well_typed_witness:
  "\<exists>n (w :: unit cabi world) t. cabi_reach (n, w) \<and> nx_PeerTransports n 5 = Some t \<and> pt_peerID (cw_heap (wd_ext w) ! t) = 5"
proof -
  obtain n w r' where c: "ml_node_create all_open demo_engine demo_keys 7 new_file no_callbacks quiet registry = (Inr 1, r')"
    "GetHandle 1 r' = Some (n, w)" "nx_PeerTransports n = Map.empty" "wd_ext w = quiet"
    using demo_created by blast
  hence reach: "cabi_reach (n, w)" by (intro cabi_reach.created [OF c(1)]) (simp_all add: quiet_def)
  let ?c = "OnPeerConnected demo_report_env (Inl (Errorf ''no entropy'')) [5] 5"
  obtain r n2 w2 where call: "apiBody ?c (n, w) = (r, n2, w2)" by (cases "apiBody ?c (n, w)") auto
  have "nx_PeerTransports n2 5 = Some 0"
    using call c(3,4)
    by (auto simp: onResult_def ml_on_peer_connected_def ensurePeerTransport_def newCabiPeerTransport_def quiet_def maxTransportPeerID_def
        otherTransports_def linkAll_def st_ret_def st_bind_def GenerateSessionKeyPair_def Let_def)
  moreover have "cabi_reach (n2, w2)" by (rule cabi_reach.called [OF reach call])
  moreover from this have "pt_peerID (cw_heap (wd_ext w2) ! 0) = 5"
    using conjunct1 [OF cabi_state_well_typed, of n2 w2] \<open>nx_PeerTransports n2 5 = Some 0\<close> by simp
  ultimately show ?thesis by blast
qed

end
