(* ===== verification/Cabi_Props.thy ===== *)
theory Cabi_Props
  imports Cabi_Node
begin

text \<open>
  Properties of the C interface: sessions, the merging of connections, received data, and shared files.
\<close>

section \<open>Sessions\<close>

lemma lift_finite_supply:
  assumes "finite_supply t st p"
  shows "finite_supply (liftTransport t) (liftStorage st) (\<lambda>w. p (wd_ext w))"
proof -
  note a = assms [unfolded finite_supply_def]
  show ?thesis
  proof
    fix w :: "'a world" and env w'
    show "tp_Recv (liftTransport t) w = Some (Inr env, w') \<Longrightarrow> p (wd_ext w') < p (wd_ext w)"
      using a by (auto simp: liftTransport_def split: option.splits)
    show "tp_TryRecv (liftTransport t) w = (env, True, w') \<Longrightarrow> p (wd_ext w') < p (wd_ext w)"
      using a by (auto simp: liftTransport_def split: prod.splits)
    fix fh i d and r :: "unit res"
    show "fs_WriteChunk (liftStorage st) fh i d w = (r, w') \<Longrightarrow> p (wd_ext w') \<le> p (wd_ext w)"
      using a by (auto simp: liftStorage_def split: prod.splits)
  qed
qed

interpretation node_supply: finite_supply "liftTransport (cabiTransport marshal nc r)" "liftStorage (cabiFileStorage nc')"
    "\<lambda>w. supplyOf (wd_ext w)" for marshal nc nc' r
  by (rule lift_finite_supply) unfold_locales

lemma cabiSession_fields [simp]:
  "ss_transport (cabiSession ne n t peerID req dir) = Some (liftTransport (cabiTransport (marshal_Envelope (ne_proto ne)) (nx_Callbacks n) t))"
  "ss_storage (cabiSession ne n t peerID req dir) = Some (liftStorage (cabiFileStorage (nx_Callbacks n)))"
  "ss_ID (cabiSession ne n t peerID req dir) = itoa (unat peerID) @ '':'' @ hex (bs (tr_FileHash req))"
  "ss_State (cabiSession ne n t peerID req dir) = StateIdle" "ss_pendingRequest (cabiSession ne n t peerID req dir) = Some req"
  by (simp_all add: cabiSession_def Let_def NewSession_def SetPolicyStore_def SetFileStorage_def SetLocalPubKey_def SetPendingRequest_def)

text \<open>
  C17. A session that the C interface starts never spins.  Compare it with the same session on a transport
  whose \<open>Recv\<close> returns some error \<open>e\<close> where it would wait for ever.  That session always returns.  If the real
  one returns, it does the same; if the real one does not, the other is ended by \<open>e\<close>, in a world in which
  \<open>Recv\<close> blocks: so the only way not to return is to be blocked in \<open>Recv\<close> for a message that does
  not come, and there is no timeout.
\<close>

theorem cabi_session_returns_or_waits:
  "case RunSession en (cabiSession ne n t peerID req dir) w of
     Some (r, s', w') \<Rightarrow> RunSession en (impatient e (cabiSession ne n t peerID req dir)) w = Some (r, impatient e s', w')
   | None \<Rightarrow> \<exists>m s' w'. RunSession en (impatient e (cabiSession ne n t peerID req dir)) w = Some (Inl (Err (Wrapf m e)), s', w') \<and>
       Recv t (wd_ext w') = None"
proof -
  let ?s = "cabiSession ne n t peerID req dir" and ?t = "liftTransport (cabiTransport (marshal_Envelope (ne_proto ne)) (nx_Callbacks n) t)"
  have "tp_Recv ?t w' = None \<Longrightarrow> Recv t (wd_ext w') = None" for w'
    by (simp add: liftTransport_def cabiTransport_def split: option.splits prod.splits)
  with node_supply.run_blocks_in_recv [where s = ?s and en = en and w = w and e = e and r = t and
      marshal = "marshal_Envelope (ne_proto ne)" and nc = "nx_Callbacks n" and nc' = "nx_Callbacks n"]
  show ?thesis by (auto split: option.splits)
qed

text \<open>
  The C interface respects the limit of its session table: a goroutine is started only for a
  session that was added to the table, and when the table is full the call fails and starts nothing.
\<close>

theorem start_session_limit:
  assumes "startSession ne peerID req dir (n, w) = (r, n', w')"
  shows "wd_store w' = wd_store w \<and>
    (nx_spawned n' = nx_spawned n \<and> nx_Transfer n' = nx_Transfer n \<or>
     nx_spawned n' = nx_spawned n @ [nx_next n] \<and> int (ActiveCount (nx_Transfer n)) < sm_maxConc (nx_Transfer n) \<and>
       sm_sessions (nx_Transfer n') = (sm_sessions (nx_Transfer n))(itoa (unat peerID) @ '':'' @ hex (bs (tr_FileHash req)) \<mapsto> Some (nx_next n))) \<and>
    (sm_sessions (nx_Transfer n) (itoa (unat peerID) @ '':'' @ hex (bs (tr_FileHash req))) = None \<and>
     sm_maxConc (nx_Transfer n) \<le> int (ActiveCount (nx_Transfer n)) \<longrightarrow> nx_spawned n' = nx_spawned n \<and> (\<exists>e. r = Inl (Err e)))"
proof -
  obtain t n1 w1 where e: "ensurePeerTransport peerID (n, w) = (t, n1, w1)" by (cases "ensurePeerTransport peerID (n, w)") auto
  hence same: "nx_spawned n1 = nx_spawned n" "nx_Transfer n1 = nx_Transfer n" "nx_next n1 = nx_next n" "wd_store w1 = wd_store w"
    by (auto simp: ensurePeerTransport_def Let_def split: option.splits prod.splits)
  show ?thesis
    using assms same
    by (auto simp: startSession_def e Let_def Get_def Add_def ActiveCount_def fail_def nil_deref_def split: option.splits if_splits)
qed

section \<open>Received data\<close>

lemma enqueuePeer_store: "wd_store (snd (snd (enqueuePeer peerID env (n, w)))) = wd_store w"
proof -
  obtain t n1 w1 where e: "ensurePeerTransport peerID (n, w) = (t, n1, w1)" by (cases "ensurePeerTransport peerID (n, w)") auto
  hence "wd_store w1 = wd_store w" by (auto simp: ensurePeerTransport_def Let_def split: option.splits prod.splits)
  thus ?thesis by (simp add: enqueuePeer_def e onHeap_def split: sum.split)
qed

text \<open>
  C40. A share record that arrives over the C interface is stored without any validation: whatever its
  signatures and its id are, it is in the database when the table's constraints admit it.
\<close>

theorem received_record_not_validated:
  assumes "DecodeEnvelope (unmarshal_Envelope (ne_proto ne)) data = Inr (envelope (Envelope_ShareRecord (Some r)))"
    and "data \<noteq> []" and "InsertRecord (ne_engine ne) r (wd_store w) = Inr s"
  shows "wd_store (snd (snd (ml_on_data_received ne peerID data (n, w)))) = s"
  using assms by (simp add: ml_on_data_received_def envelope_def st_bind_def tryStore_def enqueuePeer_store)

section \<open>Merging connections\<close>

lemma tryStore_peer: "\<exists>w'. tryStore (UpsertPeer en (Some (peerSeen p l))) (n, w) = (Inr (), n, w') \<and> wd_ext w' = wd_ext w"
proof -
  have "UpsertPeer en (Some (peerSeen p l)) s \<noteq> Inl (Panic m)" for s m
    by (auto simp: UpsertPeer_def peerSeen_def res_bind_def run_stmt_def u64_arg_def not_null_def fail_def split: sum.splits option.splits if_splits)
  thus ?thesis by (auto simp: tryStore_def split: sum.splits failure.splits)
qed

definition freshTransport :: "uintptr \<Rightarrow> cabiPeerTransport" where
  "freshTransport pid = \<lparr>pt_peerID = pid, pt_incoming = [], pt_preRecv = [], pt_delegatePeer = None, pt_incomingClosed = False\<rparr>"

definition handedOver :: "transport_ref \<Rightarrow> cabiPeerTransport \<Rightarrow> cabiPeerTransport" where
  "handedOver surv t = t\<lparr>pt_preRecv := [], pt_incoming := [], pt_delegatePeer := Some surv, pt_incomingClosed := True\<rparr>"

lemma linkDelegate_empty:
  assumes "a \<noteq> b" "a < length h" "\<not> pt_incomingClosed (h ! a)" "queued (h ! a) = 0"
  shows "linkDelegate (Some a) (Some b) h = Inr (h[a := handedOver b (h ! a)])"
  using assms by (simp add: linkDelegate_def queued_def handedOver_def)

lemma ensure_new:
  "nx_PeerTransports n pid = None \<Longrightarrow> ensurePeerTransport pid (n, w) =
   (length (cw_heap (wd_ext w)), n\<lparr>nx_PeerTransports := (nx_PeerTransports n)(pid \<mapsto> length (cw_heap (wd_ext w)))\<rparr>,
    w\<lparr>wd_ext := (wd_ext w)\<lparr>cw_heap := cw_heap (wd_ext w) @ [freshTransport pid]\<rparr>\<rparr>)"
  by (simp add: ensurePeerTransport_def newCabiPeerTransport_def freshTransport_def)

text \<open>What is left of a connection after the links: only keys and native state change.\<close>

lemma connect_links:
  assumes "\<And>e m. marshal_Envelope (ne_proto ne) e \<noteq> Inl (Panic m)"
    and "ensurePeerTransport pid x = (t, n, w)" "maxTransportPeerID order n = c" "nx_PeerTransports n c = Some canT"
    and "linkAll (otherTransports order c n) canT (n\<lparr>nx_ActivePeer := c\<rparr>, w) = (Inr (), n1, w1)"
  shows "\<exists>n' w'. ml_on_peer_connected ne keys order pid x = (Inr (), n', w') \<and> nx_PeerTransports n' = nx_PeerTransports n1 \<and>
    nx_ActivePeer n' = nx_ActivePeer n1 \<and> cw_heap (wd_ext w') = cw_heap (wd_ext w1)"
proof -
  have "EncodeEnvelope (marshal_Envelope (ne_proto ne)) e \<noteq> Inl (Panic m)" for e m
    using assms(1) by (auto simp: EncodeEnvelope_def res_bind_def Let_def fail_def split: option.splits sum.splits)
  moreover have "otherTransports order c (n\<lparr>nx_ActivePeer := c\<rparr>) = otherTransports order c n" by (simp add: otherTransports_def cong: if_cong)
  moreover have "GenerateSessionKeyPair keys \<noteq> Inl (Panic m)" for m
    by (auto simp: GenerateSessionKeyPair_def split: sum.splits)
  ultimately show ?thesis
    using assms(2-5)
    by (auto simp: ml_on_peer_connected_def Let_def st_bind_def onNative_def split: sum.split failure.split)
qed

text \<open>Two connections, one after the other: the first is handed over to the second.\<close>

lemma two_connections:
  assumes "0 < a" and "a < b" and "nx_PeerTransports n = Map.empty" and "\<And>e m. marshal_Envelope (ne_proto ne) e \<noteq> Inl (Panic m)"
    and "length (cw_heap (wd_ext w)) = r"
  shows "\<exists>n' w'. st_bind (ml_on_peer_connected ne keys [a] a) (\<lambda>_. ml_on_peer_connected ne keys' [a, b] b) (n, w) = (Inr (), n', w') \<and>
    nx_PeerTransports n' = [a \<mapsto> r, b \<mapsto> Suc r] \<and> nx_ActivePeer n' = b \<and>
    cw_heap (wd_ext w') = cw_heap (wd_ext w) @ [handedOver (Suc r) (freshTransport a), freshTransport b]"
proof -
  let ?h = "cw_heap (wd_ext w)"
  have "a \<noteq> 0" "a \<noteq> b" using assms(1,2) by auto
  obtain n1 w1 where c1: "ml_on_peer_connected ne keys [a] a (n, w) = (Inr (), n1, w1)" and n1: "nx_PeerTransports n1 = [a \<mapsto> r]"
    and h1: "cw_heap (wd_ext w1) = ?h @ [freshTransport a]"
    using connect_links [OF assms(4) ensure_new [of n a w], of "[a]" a r _ _ keys] assms(3,5) \<open>a \<noteq> 0\<close>
    by (auto simp: maxTransportPeerID_def otherTransports_def linkAll_def st_ret_def word_gt_0)
  have link: "linkDelegate (Some r) (Some (Suc r)) (?h @ [freshTransport a, freshTransport b]) =
      Inr (?h @ [handedOver (Suc r) (freshTransport a), freshTransport b])"
    unfolding assms(5) [symmetric] by (subst linkDelegate_empty) (simp_all add: freshTransport_def queued_def)
  show ?thesis
    using connect_links [OF assms(4) ensure_new [of n1 b w1], of "[a, b]" b "Suc r" _ _ keys'] n1 h1 assms(1,2,5) \<open>a \<noteq> b\<close> link c1
    by (auto simp: maxTransportPeerID_def otherTransports_def linkAll_def st_ret_def st_bind_def onHeap_def word_gt_0)
qed

text \<open>The newer of two connections is lost: it is linked to the older one.\<close>

lemma disconnect_links:
  assumes "nx_PeerTransports n = [a \<mapsto> r, b \<mapsto> r']" "nx_ActivePeer n = b" "a \<noteq> 0" "a \<noteq> b" "r \<noteq> r'"
    and "linkDelegate (Some r') (Some r) (cw_heap (wd_ext w)) = Inr h"
  shows "\<exists>n' w'. ml_on_peer_disconnected ne [a] sessions b (n, w) = (Inr (), n', w') \<and>
    nx_PeerTransports n' = [a \<mapsto> r] \<and> nx_ActivePeer n' = a \<and> cw_heap (wd_ext w') = h"
proof -
  have drop: "(nx_PeerTransports n)(b := None) = [a \<mapsto> r]" using assms(1,4) by auto
  have max: "maxTransportPeerID [a] m = a" if "nx_PeerTransports m = [a \<mapsto> r]" for m :: "'a NodeContext"
    using that assms(3) by (simp add: maxTransportPeerID_def word_gt_0)
  let ?w = "w\<lparr>wd_ext := (wd_ext w)\<lparr>cw_heap := h\<rparr>\<rparr>"
  let ?seen = "UpsertPeer (ne_engine ne) (Some (peerSeen b (ne_now ne ?w)))"
  have "\<exists>n'. ml_on_peer_disconnected ne [a] sessions b (n, w) = tryStore ?seen (n', ?w) \<and> nx_PeerTransports n' = [a \<mapsto> r] \<and> nx_ActivePeer n' = a"
    using assms drop
    by (auto simp: ml_on_peer_disconnected_def dropPeer_def handOver_def Let_def pickSurvivorTransportLocked_def max otherTransports_def linkAll_def
        st_ret_def st_bind_def onHeap_def rebindSessions_def)
  then obtain n' where d: "ml_on_peer_disconnected ne [a] sessions b (n, w) = tryStore ?seen (n', ?w)"
    "nx_PeerTransports n' = [a \<mapsto> r]" "nx_ActivePeer n' = a" by blast
  obtain w' where "tryStore ?seen (n', ?w) = (Inr (), n', w')" "wd_ext w' = wd_ext ?w"
    using tryStore_peer [of "ne_engine ne" b "ne_now ne ?w" n' ?w] by blast
  with d show ?thesis by simp
qed

text \<open>
  Two connections to the same device, of which the newer one is lost, leave the node without a
  usable transport: the first was linked to the second when that was made and the second is linked
  back to the first when it is lost, so that every send to the peer fails and everything that
  arrives from it is dropped.
\<close>

theorem reconnect_delegate_cycle:
  assumes "0 < a" and "a < b" and "nx_PeerTransports n = Map.empty"
    and "\<And>e m. marshal_Envelope (ne_proto ne) e \<noteq> Inl (Panic m)"
  shows "\<exists>n' w'. st_bind (ml_on_peer_connected ne keys [a] a) (\<lambda>_. st_bind (ml_on_peer_connected ne keys' [a, b] b) (\<lambda>_.
      ml_on_peer_disconnected ne [a] sessions b)) (n, w) = (Inr (), n', w') \<and>
    nx_ActivePeer n' = a \<and> nx_PeerTransports n' = [a \<mapsto> length (cw_heap (wd_ext w))] \<and>
    (\<forall>env. fst (Send (marshal_Envelope (ne_proto ne)) (nx_Callbacks n') (length (cw_heap (wd_ext w))) env (wd_ext w')) =
       fail ''cabiPeerTransport: delegate cycle'') \<and>
    (\<forall>env. enqueue (length (cw_heap (wd_ext w))) env (cw_heap (wd_ext w')) = Inr (cw_heap (wd_ext w')))"
proof -
  let ?h = "cw_heap (wd_ext w)" and ?r = "length (cw_heap (wd_ext w))"
  let ?h2 = "?h @ [handedOver (Suc ?r) (freshTransport a), freshTransport b]"
  have "a \<noteq> 0" "a \<noteq> b" using assms(1,2) by auto
  obtain n2 w2 where c12: "st_bind (ml_on_peer_connected ne keys [a] a) (\<lambda>_. ml_on_peer_connected ne keys' [a, b] b) (n, w) = (Inr (), n2, w2)"
    and n2: "nx_PeerTransports n2 = [a \<mapsto> ?r, b \<mapsto> Suc ?r]" "nx_ActivePeer n2 = b" and h2: "cw_heap (wd_ext w2) = ?h2"
    using two_connections [OF assms refl, of keys keys' w] by blast
  let ?h3 = "?h @ [handedOver (Suc ?r) (freshTransport a), handedOver ?r (freshTransport b)]"
  have link: "linkDelegate (Some (Suc ?r)) (Some ?r) ?h2 = Inr ?h3"
    by (subst linkDelegate_empty) (simp_all add: freshTransport_def queued_def list_update_append nth_append)
  obtain n3 w3 where c3: "ml_on_peer_disconnected ne [a] sessions b (n2, w2) = (Inr (), n3, w3)"
    and n3: "nx_PeerTransports n3 = [a \<mapsto> ?r]" "nx_ActivePeer n3 = a" and h3: "cw_heap (wd_ext w3) = ?h3"
    using disconnect_links [OF n2 \<open>a \<noteq> 0\<close> \<open>a \<noteq> b\<close> _ link [folded h2], of ne sessions] by auto
  have "delegateRoot ?h3 ?r = fail ''cabiPeerTransport: delegate cycle''"
    unfolding delegateRoot_def
    by (subst delegateLoop.simps, simp add: handedOver_def nth_append, subst delegateLoop.simps, simp add: handedOver_def nth_append,
        subst delegateLoop.simps, simp)
  with c12 c3 n3 h3 show ?thesis
    by (auto simp: st_bind_def Send_def enqueue_def fail_def split: option.split prod.splits sum.splits)
qed

text \<open>
  The same two connections end the process when data of the peer is waiting: a handshake that
  arrived on the newer connection is still queued when the connection is lost, is sent to
  the older one, whose channel was closed when it was handed over, and the send panics.
\<close>

lemma received_handshake:
  assumes "DecodeEnvelope (unmarshal_Envelope (ne_proto ne)) data = Inr (envelope (Envelope_Handshake hs))" "data \<noteq> []"
    and "nx_PeerTransports n b = Some t" "active (cw_heap (wd_ext w)) t"
  shows "ml_on_data_received ne b data (n, w) = (Inr (), n, w\<lparr>wd_ext := (wd_ext w)\<lparr>cw_heap :=
    (cw_heap (wd_ext w))[t := (cw_heap (wd_ext w) ! t)\<lparr>pt_incoming := push (pt_incoming (cw_heap (wd_ext w) ! t)) (envelope (Envelope_Handshake hs))\<rparr>]\<rparr>\<rparr>)"
  using assms
  by (simp add: ml_on_data_received_def envelope_def enqueuePeer_def ensurePeerTransport_def onHeap_def enqueue_def delegateRoot_active
      enqueueLocked_active)

theorem reconnect_with_pending_data_panics:
  assumes "0 < a" and "a < b" and "nx_PeerTransports n = Map.empty" and "\<And>e m. marshal_Envelope (ne_proto ne) e \<noteq> Inl (Panic m)"
    and "DecodeEnvelope (unmarshal_Envelope (ne_proto ne)) data = Inr (envelope (Envelope_Handshake hs))" and "data \<noteq> []"
  shows "is_panic (fst (st_bind (ml_on_peer_connected ne keys [a] a) (\<lambda>_. st_bind (ml_on_peer_connected ne keys' [a, b] b) (\<lambda>_.
      st_bind (ml_on_data_received ne b data) (\<lambda>_. ml_on_peer_disconnected ne [a] sessions b))) (n, w)))"
proof -
  let ?h = "cw_heap (wd_ext w)" and ?r = "length (cw_heap (wd_ext w))" and ?e = "envelope (Envelope_Handshake hs)"
  have "a \<noteq> 0" "a \<noteq> b" using assms(1,2) by auto
  obtain n2 w2 where c12: "st_bind (ml_on_peer_connected ne keys [a] a) (\<lambda>_. ml_on_peer_connected ne keys' [a, b] b) (n, w) = (Inr (), n2, w2)"
    and n2: "nx_PeerTransports n2 = [a \<mapsto> ?r, b \<mapsto> Suc ?r]" "nx_ActivePeer n2 = b"
    and h2: "cw_heap (wd_ext w2) = ?h @ [handedOver (Suc ?r) (freshTransport a), freshTransport b]"
    using two_connections [OF assms(1-4) refl, of keys keys' w] by blast
  let ?h3 = "?h @ [handedOver (Suc ?r) (freshTransport a), (freshTransport b)\<lparr>pt_incoming := [?e]\<rparr>]"
  have "active (cw_heap (wd_ext w2)) (Suc ?r)" by (simp add: h2 active_def nth_append freshTransport_def)
  from received_handshake [OF assms(5,6) _ this, of n2 b] n2(1)
  have c3: "ml_on_data_received ne b data (n2, w2) = (Inr (), n2, w2\<lparr>wd_ext := (wd_ext w2)\<lparr>cw_heap := ?h3\<rparr>\<rparr>)"
    by (simp add: h2 nth_append list_update_append push_def freshTransport_def incomingCapacity_def)
  have "linkDelegate (Some (Suc ?r)) (Some ?r) ?h3 = Inl (Panic ''send on closed channel'')"
    by (simp add: linkDelegate_def nth_append list_update_append freshTransport_def handedOver_def enqueueLocked_def Let_def)
  moreover have "maxTransportPeerID [a] m = a" if "nx_PeerTransports m = [a \<mapsto> ?r]" for m :: "'a NodeContext"
    using that \<open>a \<noteq> 0\<close> by (simp add: maxTransportPeerID_def word_gt_0)
  moreover have "(nx_PeerTransports n2)(b := None) = [a \<mapsto> ?r]" using n2(1) \<open>a \<noteq> b\<close> by auto
  ultimately have "is_panic (fst (ml_on_peer_disconnected ne [a] sessions b (n2, w2\<lparr>wd_ext := (wd_ext w2)\<lparr>cw_heap := ?h3\<rparr>\<rparr>)))"
    using n2 by (simp add: ml_on_peer_disconnected_def dropPeer_def handOver_def pickSurvivorTransportLocked_def st_bind_def onHeap_def Let_def)
  with c12 c3 show ?thesis by (auto simp: st_bind_def split: prod.splits sum.splits)
qed

section \<open>Shared files\<close>

definition chunkOf :: "byte list \<Rightarrow> nat \<Rightarrow> byte list" where
  "chunkOf data k = take shareChunkSize (drop (k * shareChunkSize) data)"

definition chunkCountOf :: "byte list \<Rightarrow> nat" where
  "chunkCountOf data = (length data + (shareChunkSize - 1)) div shareChunkSize"

lemma concat_chunks: "concat (map (chunkOf data) [0..<n]) = take (n * shareChunkSize) data"
proof (induction n)
  case (Suc n)
  have "take (n * shareChunkSize + shareChunkSize) data = take (n * shareChunkSize) data @ chunkOf data n"
    by (simp add: take_add chunkOf_def)
  with Suc show ?case by (simp add: add.commute)
qed simp

lemma shareLoop_hashes:
  "shareLoop cr nc fh data (k * shareChunkSize) acc x = (Inr hs, x') \<Longrightarrow> k \<le> chunkCountOf data \<Longrightarrow>
   hs = acc @ map (\<lambda>i. Some (Hash cr (chunkOf data i))) [k..<chunkCountOf data]"
proof (induction "chunkCountOf data - k" arbitrary: k acc x)
  case 0
  hence "k = chunkCountOf data" by simp
  hence "\<not> k * shareChunkSize < length data" by (simp add: chunkCountOf_def shareChunkSize_def)
  with 0 show ?case by (subst (asm) shareLoop.simps) simp
next
  case (Suc d)
  hence k: "k < chunkCountOf data" by simp
  hence "k * shareChunkSize < length data" by (simp add: chunkCountOf_def shareChunkSize_def)
  with Suc.prems(1) obtain x1 where
    "shareLoop cr nc fh data (Suc k * shareChunkSize) (acc @ [Some (Hash cr (chunkOf data k))]) x1 = (Inr hs, x')"
    by (subst (asm) shareLoop.simps) (auto simp: Let_def chunkOf_def add.commute split: prod.splits if_splits)
  from Suc.hyps(1) [OF _ this] Suc.hyps(2) k show ?case by (simp add: upt_conv_Cons)
qed

text \<open>Only a complete run reports success.\<close>

lemma shareLoop_code: "shareLoop cr nc fh data i acc x = (Inl code, x') \<Longrightarrow> code \<noteq> 0"
proof (induction cr nc fh data i acc x rule: shareLoop.induct)
  case (1 cr nc fh data i acc x)
  let ?chunk = "take shareChunkSize (drop i data)" and ?i = "of_nat (i div shareChunkSize) :: uint32"
  obtain c y where w: "NativeWriteChunk nc (Some fh) ?i (Some ?chunk) x = (c, y)" by fastforce
  from "1.prems" have i: "i < length data" by (subst (asm) shareLoop.simps) (simp split: if_splits)
  show ?case
  proof (cases "c \<noteq> ML_OK \<and> \<not> NativeHasChunk nc (Some fh) ?i y")
    case True
    with "1.prems" i w show ?thesis by (subst (asm) shareLoop.simps) (auto simp: ML_OK_def)
  next
    case False
    with "1.prems" i w have "shareLoop cr nc fh data (i + shareChunkSize) (acc @ [Some (Hash cr ?chunk)]) y = (Inl code, x')"
      by (subst (asm) shareLoop.simps) (simp add: Let_def)
    from "1.IH" [OF i refl refl refl w [symmetric] refl False this] show ?thesis .
  qed
qed

lemma errorToCode_Some: "errorToCode (Some e) \<noteq> 0"
  by (simp add: errorToCode_def Let_def ML_defs)

lemma insert_get_file:
  assumes "driver_ok en" "InsertFileMeta en (Some f) s = Inr s'" "fm_FileHash f = Some h"
    and "\<forall>c\<in>set (fm_ChunkHashes f). length (bs c) = 32 \<and> c \<noteq> None"
  shows "GetFileMeta en (Some h) s' = Inr f"
proof -
  let ?blob = "joinHashes (fm_ChunkHashes f)"
  have "map (\<lambda>c. Some (bs c)) (fm_ChunkHashes f) = fm_ChunkHashes f"
    using assms(4) by (auto intro!: map_idI)
  hence split: "splitHashes en ?blob = Inr (fm_ChunkHashes f)" using splitHashes_joinHashes [of "fm_ChunkHashes f" en] assms(4) by simp
  from assms(1-3) obtain row where "select_row fr_file_hash (Some h) (files s') = Some row"
    and row: "row = \<lparr>fr_file_hash = fm_FileHash f, fr_file_name = fm_FileName f, fr_file_size = fm_FileSize f,
      fr_chunk_size = fm_ChunkSize f, fr_chunk_hashes = ?blob, fr_origin_pubkey = fm_OriginPubkey f,
      fr_origin_sig = fm_OriginSig f, fr_created_at = fm_CreatedAt f\<rparr>" "0 \<le> sint (fm_FileSize f)" "0 \<le> sint (fm_ChunkSize f)"
    by (auto simp: InsertFileMeta_def stmt_Inr select_row_snoc_new)
  moreover have "scanFileMeta en row = Inr f"
    using row split by (simp add: scanFileMeta_def scan_u64_def)
  ultimately show ?thesis using assms(1) by (simp add: GetFileMeta_def scan_row_def)
qed

text \<open>
  C31. A file that was shared successfully is in the database under the hash of its contents, with one
  hash for every 64 KiB chunk: the chunks are consecutive, make up the whole file, and the i-th hash
  is the hash of the i-th chunk.
\<close>

theorem share_file_roundtrip:
  assumes "driver_ok (ne_engine ne)" and "sha256_ok (ne_crypto ne)"
    and "ml_share_file ne (Some data) (Some name) (n, w) = (Inr ML_OK, n', w')"
  shows "\<exists>sig w1. GetFileMeta (ne_engine ne) (Some (Hash (ne_crypto ne) data)) (wd_store w') =
      Inr (sharedMeta ne n w1 data name sig (map (\<lambda>i. Some (Hash (ne_crypto ne) (chunkOf data i))) [0..<chunkCountOf data])) \<and>
    concat (map (chunkOf data) [0..<chunkCountOf data]) = data"
proof -
  let ?cr = "ne_crypto ne"
  let ?w = "\<lambda>x. w\<lparr>wd_ext := (wd_ext w)\<lparr>cw_native := x\<rparr>\<rparr>"
  have "\<exists>sig hs x. shareLoop ?cr (nx_Callbacks n) (Hash ?cr data) data 0 [] (cw_native (wd_ext w)) = (Inr hs, x) \<and>
      InsertFileMeta (ne_engine ne) (Some (sharedMeta ne n (?w x) data name sig hs)) (wd_store w) = Inr (wd_store w')"
    using assms(3) errorToCode_Some
    by (auto simp: ml_share_file_def Let_def ML_ERR_INVALID_ARG_def ML_ERR_CRYPTO_def ML_OK_def dest: shareLoop_code
        split: if_splits sum.splits failure.splits prod.splits)
  then obtain sig hs x where loop: "shareLoop ?cr (nx_Callbacks n) (Hash ?cr data) data (0 * shareChunkSize) [] (cw_native (wd_ext w)) = (Inr hs, x)"
    and ins: "InsertFileMeta (ne_engine ne) (Some (sharedMeta ne n (?w x) data name sig hs)) (wd_store w) = Inr (wd_store w')" by auto
  have hs: "hs = map (\<lambda>i. Some (Hash ?cr (chunkOf data i))) [0..<chunkCountOf data]"
    using shareLoop_hashes [OF loop] by simp
  have "GetFileMeta (ne_engine ne) (Some (Hash ?cr data)) (wd_store w') = Inr (sharedMeta ne n (?w x) data name sig hs)"
    by (rule insert_get_file [OF assms(1) ins]) (auto simp: sharedMeta_def hs length_Hash [OF assms(2)])
  moreover have "concat (map (chunkOf data) [0..<chunkCountOf data]) = data"
    by (simp add: concat_chunks) (simp add: chunkCountOf_def shareChunkSize_def)
  ultimately show ?thesis using hs by blast
qed

section \<open>A concrete node\<close>

definition demo_callbacks :: "unit NativeCallbacks" where
  "demo_callbacks = no_callbacks\<lparr>nc_sign_with_secure_key := Some (\<lambda>m. ([], 0)), nc_write_chunk := Some (\<lambda>h i d x. (0, x))\<rparr>"

definition demo_context :: "unit NodeContext" where
  "demo_context = \<lparr>nx_Identity = \<lparr>di_Pubkey = Some (demo_pub 1), di_PrivateKey = None, di_ChainHead = None, di_CreatedAt = 1\<rparr>,
     nx_Callbacks = demo_callbacks, nx_Policy = 0, nx_Transfer = \<lparr>sm_sessions = [''x'' \<mapsto> Some 0], sm_maxConc = 1\<rparr>, nx_ActivePeer = 0,
     nx_SessionKeys = Map.empty, nx_SharedSecrets = Map.empty, nx_PeerTransports = Map.empty,
     nx_heap = (\<lambda>_. NewSession ''p'' DirectionInbound None None None None None), nx_next = 1, nx_spawned = []\<rparr>"

definition demo_cabi_env :: "unit cabi node_env" where
  "demo_cabi_env = \<lparr>ne_crypto = demo_crypto, ne_proto = demo_proto\<lparr>marshal_Envelope := (\<lambda>_. Inr []),
       unmarshal_Envelope := (\<lambda>_. Inr (envelope (Envelope_ShareRecord (Some demo_record))))\<rparr>,
     ne_platform = demo_platform, ne_order = (\<lambda>xs. xs), ne_engine = demo_engine, ne_now = (\<lambda>_. 100), ne_ctx_Err = (\<lambda>_. None)\<rparr>"

definition demo_cabi_world :: "unit cabi world" where
  "demo_cabi_world = \<lparr>wd_store = empty_store, wd_ext = \<lparr>cw_heap = [], cw_arrivals = [], cw_native = ()\<rparr>\<rparr>"

lemma demo_cabi_env_sel [simp]:
  "ne_crypto demo_cabi_env = demo_crypto" "ne_engine demo_cabi_env = demo_engine"
  "marshal_Envelope (ne_proto demo_cabi_env) e = Inr []"
  "unmarshal_Envelope (ne_proto demo_cabi_env) b = Inr (envelope (Envelope_ShareRecord (Some demo_record)))"
  by (simp_all add: demo_cabi_env_def)

theorem start_session_limit_witness:
  "\<exists>e n w. startSession demo_cabi_env 7 demo_request DirectionInbound (demo_context, demo_cabi_world) = (Inl (Err e), n, w) \<and> nx_spawned n = []"
proof -
  obtain r n w where s: "startSession demo_cabi_env 7 demo_request DirectionInbound (demo_context, demo_cabi_world) = (r, n, w)"
    by (cases "startSession demo_cabi_env 7 demo_request DirectionInbound (demo_context, demo_cabi_world)") auto
  have "sm_sessions (nx_Transfer demo_context) (itoa (unat (7 :: uintptr)) @ '':'' @ hex (bs (tr_FileHash demo_request))) = None"
    "sm_maxConc (nx_Transfer demo_context) \<le> int (ActiveCount (nx_Transfer demo_context))" "nx_spawned demo_context = []"
    by (simp_all add: demo_context_def append_eq_Cons_conv ActiveCount_def)
  with start_session_limit [OF s] s show ?thesis by auto
qed

lemma valid_record_id: "ValidateShareRecord cr r = Inr () \<Longrightarrow> bs (sr_Id r) = Hash cr (SignableBytes r)"
  by (auto simp: ValidateShareRecord_def Let_def res_bind_eq_Inr split: if_splits)

theorem received_record_not_validated_witness:
  "wd_store (snd (snd (ml_on_data_received demo_cabi_env 7 [0, 0, 0, 0] (demo_context, demo_cabi_world)))) = demo_store \<and>
   ValidateShareRecord demo_crypto demo_record \<noteq> Inr ()"
proof -
  have "DecodeEnvelope (unmarshal_Envelope (ne_proto demo_cabi_env)) [0, 0, 0, 0] = Inr (envelope (Envelope_ShareRecord (Some demo_record)))"
    by (simp add: DecodeEnvelope_def unbe32_def nat_be_def)
  moreover have "InsertRecord (ne_engine demo_cabi_env) demo_record (wd_store demo_cabi_world) = Inr demo_store"
    using demo_insert by (simp add: demo_cabi_world_def)
  moreover have "ValidateShareRecord demo_crypto demo_record \<noteq> Inr ()"
    using length_Hash [OF demo_sha256_ok, of "SignableBytes demo_record"] valid_record_id [of demo_crypto demo_record]
    by (auto simp: demo_record_def)
  ultimately show ?thesis using received_record_not_validated [of demo_cabi_env "[0, 0, 0, 0]" demo_record demo_cabi_world demo_store 7 demo_context] by simp
qed

theorem reconnect_delegate_cycle_witness:
  "\<exists>n' w'. st_bind (ml_on_peer_connected demo_cabi_env (Inr ([1], [2])) [1] 1) (\<lambda>_.
      st_bind (ml_on_peer_connected demo_cabi_env (Inr ([1], [2])) [1, 2] 2) (\<lambda>_.
      ml_on_peer_disconnected demo_cabi_env [1] [] 2)) (demo_context, demo_cabi_world) = (Inr (), n', w') \<and> nx_PeerTransports n' = [1 \<mapsto> 0] \<and>
    fst (Send (marshal_Envelope (ne_proto demo_cabi_env)) (nx_Callbacks n') 0 None (wd_ext w')) = fail ''cabiPeerTransport: delegate cycle''"
proof -
  have "nx_PeerTransports demo_context = Map.empty" "length (cw_heap (wd_ext demo_cabi_world)) = 0"
    by (simp_all add: demo_context_def demo_cabi_world_def)
  with reconnect_delegate_cycle [of 1 2 demo_context demo_cabi_env "Inr ([1], [2])" "Inr ([1], [2])" "[]" demo_cabi_world]
  show ?thesis by auto
qed

theorem reconnect_with_pending_data_panics_witness:
  "is_panic (fst (st_bind (ml_on_peer_connected (demo_cabi_env\<lparr>ne_proto := (ne_proto demo_cabi_env)\<lparr>unmarshal_Envelope :=
       (\<lambda>_. Inr (envelope (Envelope_Handshake None)))\<rparr>\<rparr>) (Inr ([1], [2])) [1] 1) (\<lambda>_.
     st_bind (ml_on_peer_connected (demo_cabi_env\<lparr>ne_proto := (ne_proto demo_cabi_env)\<lparr>unmarshal_Envelope :=
       (\<lambda>_. Inr (envelope (Envelope_Handshake None)))\<rparr>\<rparr>) (Inr ([1], [2])) [1, 2] 2) (\<lambda>_.
     st_bind (ml_on_data_received (demo_cabi_env\<lparr>ne_proto := (ne_proto demo_cabi_env)\<lparr>unmarshal_Envelope :=
       (\<lambda>_. Inr (envelope (Envelope_Handshake None)))\<rparr>\<rparr>) 2 [0, 0, 0, 0]) (\<lambda>_.
     ml_on_peer_disconnected (demo_cabi_env\<lparr>ne_proto := (ne_proto demo_cabi_env)\<lparr>unmarshal_Envelope :=
       (\<lambda>_. Inr (envelope (Envelope_Handshake None)))\<rparr>\<rparr>) [1] [] 2))) (demo_context, demo_cabi_world)))"
  by (rule reconnect_with_pending_data_panics [where hs = None])
    (simp_all add: demo_context_def DecodeEnvelope_def unbe32_def nat_be_def)

theorem share_file_roundtrip_witness:
  "\<exists>n' w' m. ml_share_file demo_cabi_env (Some [1, 2, 3]) (Some ''f'') (demo_context, demo_cabi_world) = (Inr ML_OK, n', w') \<and>
     GetFileMeta demo_engine (Some (Hash demo_crypto [1, 2, 3])) (wd_store w') = Inr m \<and> length (fm_ChunkHashes m) = 1"
proof -
  have loop: "shareLoop demo_crypto demo_callbacks h [1, 2, 3] 0 [] () = (Inr [Some (Hash demo_crypto [1, 2, 3])], ())" for h
    by (subst shareLoop.simps, simp add: shareChunkSize_def NativeWriteChunk_def demo_callbacks_def ML_OK_def, subst shareLoop.simps, simp)
  have sign: "cabiSign demo_crypto (Some demo_callbacks) k m = Inr (Some (filled 64 []))" for k m
    by (simp add: cabiSign_def SignWithSecureKey_def demo_callbacks_def ML_OK_def)
  obtain st where ins: "InsertFileMeta demo_engine (Some (sharedMeta demo_cabi_env demo_context demo_cabi_world [1, 2, 3] ''f''
      (Some (filled 64 [])) [Some (Hash demo_crypto [1, 2, 3])])) empty_store = Inr st"
    by (simp add: InsertFileMeta_def sharedMeta_def demo_engine_def demo_context_def empty_store_def insert_row_def u64_arg_def
        not_null_def shareChunkSize_def)
  have same: "demo_cabi_world\<lparr>wd_ext := (wd_ext demo_cabi_world)\<lparr>cw_native := ()\<rparr>\<rparr> = demo_cabi_world"
    "nx_Callbacks demo_context = demo_callbacks" "wd_store demo_cabi_world = empty_store" "cw_native (wd_ext demo_cabi_world) = ()"
    by (simp_all add: demo_cabi_world_def demo_context_def)
  obtain n' w' where s: "ml_share_file demo_cabi_env (Some [1, 2, 3]) (Some ''f'') (demo_context, demo_cabi_world) = (Inr ML_OK, n', w')"
    using ins by (simp add: ml_share_file_def same loop sign)
  from share_file_roundtrip [OF _ _ s] demo_sha256_ok obtain sig w1 where
    "GetFileMeta demo_engine (Some (Hash demo_crypto [1, 2, 3])) (wd_store w') =
      Inr (sharedMeta demo_cabi_env demo_context w1 [1, 2, 3] ''f'' sig (map (\<lambda>i. Some (Hash demo_crypto (chunkOf [1, 2, 3] i))) [0..<chunkCountOf [1, 2, 3]]))"
    by auto
  with s show ?thesis by (auto simp: sharedMeta_def chunkCountOf_def shareChunkSize_def)
qed

end
