(* ===== verification/Cabi_Api_Props.thy ===== *)
theory Cabi_Api_Props
  imports Cabi_Wf Cabi_Props Credit_Props
begin

text \<open>
  Properties of the exported functions: the life of handles, the reports, and what a node can do
  after a restart.
\<close>

section \<open>Handles\<close>

text \<open>
  The table of nodes after any calls of the native layer, from the start of the process.  \<open>gs\<close> are the
  handles given out, in order, and \<open>L\<close> those whose node has not been destroyed: a call of
  \<open>ml_node_create\<close> that returns a handle other than 0 adds it, and \<open>ml_node_destroy\<close> takes one away.
\<close>

inductive table_run :: "uintptr list \<Rightarrow> uintptr set \<Rightarrow> 'x node_table \<Rightarrow> bool" where
  start: "table_run [] {} registry"
| created: "table_run gs L r \<Longrightarrow> ml_node_create oc en generated now file callbacks native r = (Inr h, r') \<Longrightarrow> h \<noteq> 0 \<Longrightarrow>
    table_run (gs @ [h]) (insert h L) r'"
| not_created: "table_run gs L r \<Longrightarrow> ml_node_create oc en generated now file callbacks native r = (res, r') \<Longrightarrow> \<forall>h. res = Inr h \<longrightarrow> h = 0 \<Longrightarrow>
    table_run gs L r'"
| destroyed: "table_run gs L r \<Longrightarrow> table_run gs (L - {h}) (ml_node_destroy h r)"
| called: "table_run gs L r \<Longrightarrow> apiCall c h r = (res, r') \<Longrightarrow> table_run gs L r'"

lemma create_table:
  "ml_node_create oc en generated now file callbacks native r = (res, r') \<Longrightarrow>
   r' = r \<and> (\<forall>h. res = Inr h \<longrightarrow> h = 0) \<or> (\<exists>obj. RegisterHandle obj r = (hr_next r, r') \<and> res = Inr (hr_next r))"
  unfolding ml_node_create_def Let_def
  by (auto simp: RegisterHandle_def Let_def split: sum.splits failure.splits prod.splits)

lemma apiCall_cases:
  "apiCall c h r = (res, r') \<Longrightarrow>
   (GetHandle h r = None \<and> res = Inr (apiError c (codeToError ML_ERR_INVALID_ARG)) \<and> r' = r) \<or>
   (\<exists>x y. GetHandle h r = Some x \<and> apiBody c x = (res, y) \<and> r' = r\<lparr>hr_handles := (hr_handles r)(h \<mapsto> y)\<rparr>)"
  by (auto simp: apiCall_def withNode_def getNode_def split: option.splits prod.splits)

text \<open>Handles are given out in order, and the table has an entry for the live ones exactly.\<close>

lemma table_handles:
  assumes "table_run gs L r" and "length gs < 2 ^ 64 - 1"
  shows "unat (hr_next r) = Suc (length gs) \<and> (\<forall>h\<in>set gs. h \<noteq> 0 \<and> unat h \<le> length gs) \<and> distinct gs \<and> L \<subseteq> set gs \<and>
    (\<forall>h. GetHandle h r = None \<longleftrightarrow> h \<notin> L)"
  using assms
proof (induction rule: table_run.induct)
  case (created gs L r oc en generated now file' callbacks native h r')
  hence IH: "unat (hr_next r) = Suc (length gs)" "\<forall>h\<in>set gs. h \<noteq> 0 \<and> unat h \<le> length gs" "distinct gs" "L \<subseteq> set gs"
    "\<forall>h. GetHandle h r = None \<longleftrightarrow> h \<notin> L" by auto
  from create_table [OF created.hyps(2)] created.hyps(3) obtain obj where h: "h = hr_next r" "RegisterHandle obj r = (hr_next r, r')" by auto
  have "unat (hr_next r + 1) = Suc (Suc (length gs))" using IH(1) created.prems by (simp add: unat_word_ariths)
  moreover have "h \<notin> set gs" using IH(1,2) h(1) by auto
  ultimately show ?case using IH h created.hyps(3) by (auto simp: RegisterHandle_def GetHandle_def Let_def split: if_splits)
next
  case (not_created gs L r oc en generated now file' callbacks native res r')
  hence "hr_next r \<noteq> 0" by auto
  with create_table [OF not_created.hyps(2)] not_created.hyps(3) have "r' = r" by auto
  with not_created show ?case by simp
next
  case (destroyed gs L r h)
  thus ?case by (auto simp: ml_node_destroy_def ReleaseHandle_def GetHandle_def split: option.split)
next
  case (called gs L r c h res r')
  have "GetHandle k r' = None \<longleftrightarrow> GetHandle k r = None" "hr_next r' = hr_next r" for k
    using apiCall_cases [OF called.hyps(2)] by (auto simp: GetHandle_def split: if_splits)
  with called.IH [OF called.prems] show ?case by simp
qed (simp add: registry_def GetHandle_def)

text \<open>
  C32. A handle is valid exactly while its node lives.  Whatever the native layer calls from the start of the process:
  no handle is given out twice and none is 0.  A call through the handle of a node that was created and not
  destroyed reaches a node: it runs and changes the table at this handle only.  A call through any other handle (0, one never
  given out, one whose node was destroyed, whatever was created since) is answered with the code for an invalid
  argument and changes nothing.
\<close>

theorem handles_name_live_nodes:
  assumes "table_run gs L r" and "length gs < 2 ^ 64 - 1"
  shows "distinct gs \<and> 0 \<notin> set gs \<and> L \<subseteq> set gs \<and>
    (if h \<in> L then \<exists>x. GetHandle h r = Some x \<and> apiCall c h r = (fst (apiBody c x), r\<lparr>hr_handles := (hr_handles r)(h \<mapsto> snd (apiBody c x))\<rparr>)
     else apiCall c h r = (Inr (apiError c (codeToError ML_ERR_INVALID_ARG)), r))"
proof -
  note t = table_handles [OF assms]
  have "apiCall c h r = (Inr (apiError c (codeToError ML_ERR_INVALID_ARG)), r)" if "GetHandle h r = None"
    using that by (simp add: apiCall_def withNode_def getNode_def)
  moreover have "apiCall c h r = (fst (apiBody c x), r\<lparr>hr_handles := (hr_handles r)(h \<mapsto> snd (apiBody c x))\<rparr>)" if "GetHandle h r = Some x" for x
    using that by (simp add: apiCall_def withNode_def getNode_def split: prod.split)
  ultimately show ?thesis using t by (auto simp: not_None_eq [symmetric] simp del: not_None_eq)
qed

section \<open>Reports\<close>

text \<open>How the native layer reads a report: length, message, and so on.\<close>

function unframe :: "(byte list \<Rightarrow> 'm res) \<Rightarrow> byte list \<Rightarrow> 'm list option" where
  "unframe unmarshal data =
     (if data = [] then Some []
      else let n = unat (unbe32 data) in
        if length data < 4 + n then None
        else (case unmarshal (take n (drop 4 data)) of
                Inl _ \<Rightarrow> None
              | Inr m \<Rightarrow> map_option (\<lambda>ms. m # ms) (unframe unmarshal (drop (4 + n) data))))"
  by pat_completeness auto
termination
  by (relation "measure (\<lambda>(u, data). length data)") auto

declare unframe.simps [simp del]

lemma unframe_Cons:
  assumes "unmarshal data = Inr m" "length data < 2 ^ 32" "unframe unmarshal rest = Some ms"
  shows "unframe unmarshal (be32 (of_nat (length data)) @ data @ rest) = Some (m # ms)"
proof -
  have "unat (of_nat (length data) :: uint32) = length data" using assms(2) by (simp add: unat_of_nat)
  moreover have "be32 x \<noteq> []" for x by (metis length_be32 list.size(3) zero_neq_numeral)
  ultimately show ?thesis using assms by (subst unframe.simps) (auto simp: Let_def)
qed

lemma unframe_frameLoop:
  assumes "\<forall>m\<in>set ms. \<exists>d. marshal m = Inr d \<and> unmarshal d = Inr m \<and> length d < 2 ^ 32"
  shows "\<exists>res. frameLoop marshal out ms = Inr (out @ res) \<and> unframe unmarshal res = Some ms \<and> (res = [] \<longleftrightarrow> ms = [])"
  using assms
proof (induction ms arbitrary: out)
  case Nil
  have "unframe unmarshal [] = Some []" by (subst unframe.simps) simp
  thus ?case by simp
next
  case (Cons m ms)
  then obtain d where d: "marshal m = Inr d" "unmarshal d = Inr m" "length d < 2 ^ 32" by auto
  from Cons.IH [of "out @ be32 (of_nat (length d)) @ d"] Cons.prems obtain rest where
    "frameLoop marshal (out @ be32 (of_nat (length d)) @ d) ms = Inr ((out @ be32 (of_nat (length d)) @ d) @ rest)"
    "unframe unmarshal rest = Some ms" by auto
  with d unframe_Cons [of unmarshal d m rest ms] show ?case
    by (intro exI [of _ "be32 (of_nat (length d)) @ d @ rest"]) (auto dest: arg_cong [of _ _ length])
qed

text \<open>
  C33. The report on peers can be read back: split at its length fields and decoded, it is exactly the list
  of the peers in the database, the most recently seen first and at most 100 of them; a
  database without peers gives no data.  The database and the node are left alone.
\<close>

theorem get_peers_roundtrip:
  assumes "GetAllPeers (ne_engine ne) 100 (wd_store w) = Inr ps"
    and "\<forall>p\<in>set ps. \<exists>d. marshal_PeerInfo rp p = Inr d \<and> unmarshal d = Inr p \<and> length d < 2 ^ 32"
  shows "\<exists>res. ml_get_peers rp ne (n, w) = (Inr res, n, w) \<and> ml_error_code res = ML_OK \<and>
    unframe unmarshal (bs (ml_data res)) = Some ps \<and> length ps \<le> 100 \<and> (ml_data res = None \<longleftrightarrow> ps = []) \<and>
    ml_len res = of_nat (length (bs (ml_data res)))"
proof -
  obtain out where out: "frameLoop (marshal_PeerInfo rp) [] ps = Inr out" "unframe unmarshal out = Some ps" "out = [] \<longleftrightarrow> ps = []"
    using unframe_frameLoop [OF assms(2), of "[]"] by auto
  have "length ps \<le> 100"
  proof -
    from assms(1) have "list_all2 (\<lambda>r x. scanPeer r = Inr x) (limit_rows 100 (order_desc pr_last_seen (peers (wd_store w)))) ps"
      by (auto simp: GetAllPeers_def run_stmt_eq_Inr scan_rows_eq_Inr)
    thus ?thesis using length_limit_rows [of 100 "order_desc pr_last_seen (peers (wd_store w))"] by (simp add: list_all2_lengthD)
  qed
  moreover have "ml_get_peers rp ne (n, w) = (Inr (makeResult (Some out) None), n, w)"
    using assms(1) out(1) by (simp add: ml_get_peers_def resultOf_def)
  ultimately show ?thesis
    using out(2,3) by (auto simp: makeResult_def errorToCode_def)
qed

lemma receivedLoop_eq: "receivedLoop pub rs = sumReceived pub rs"
proof -
  have "cabiBytesEqual a b \<longleftrightarrow> a = b" for a b by (auto simp: cabiBytesEqual_def list_all_iff intro: nth_equalityI)
  thus ?thesis by (simp add: receivedLoop_def sumReceived_def bytes_Equal_def)
qed

text \<open>
  C34. The reported balance.  The received bytes are those of the effective balance, which is the
  drip allowance plus the diversity credit minus what was received minus what the credit lost by
  decay.  The field for the decay is something else: how far the diversity credit exceeds the credit with the
  per-peer caps, and 0 if it does not.  So the reported parts need not add up to the reported balance.
\<close>

theorem balance_report_spec:
  assumes "balanceReport ne w = Inr b" and "GetIdentity (ne_engine ne) (wd_store w) = Inr ident"
    and "GetRecordsByDevice (ne_engine ne) (id_Pubkey ident) 0 2000 (wd_store w) = Inr rs"
    and "sumCredits (ne_platform ne) (id_Pubkey ident) (ba_ComputedAt b) DefaultParams rs = (raw, decayed)"
  shows "ba_EffectiveBalance b = ba_DripAllowance b + ba_DiversityWeightedCredit b - ba_CumulativeReceived b - (raw - decayed) \<and>
    ba_CumulativeReceived b = sumReceived (id_Pubkey ident) rs \<and>
    (\<exists>capped. ApplyPerPeerCaps (ne_order ne) (map Some rs) (id_Pubkey ident) DefaultParams = Inr capped \<and>
      ba_DecayPenalty b = (if sint (ba_DiversityWeightedCredit b - capped) < 0 then 0 else ba_DiversityWeightedCredit b - capped)) \<and>
    0 \<le> sint (ba_DecayPenalty b) \<and> ba_DevicePubkey b = id_Pubkey ident"
  using assms
  by (auto simp: balanceReport_def res_bind_eq_Inr Let_def receivedLoop_eq ComputeEffectiveBalance_def deref_all_Some
      split: prod.splits if_splits)

section \<open>After a restart\<close>

text \<open>
  A node on a database that already has an identity has no private key: if the native layer does not
  sign, it can neither share a file (the code for a failure of the cryptography) nor request one.
  Nothing is stored and no session is started.
\<close>

theorem restarted_node_cannot_sign:
  assumes "ml_node_create oc en generated now file' callbacks native r = (Inr h, r')" and "h \<noteq> 0" and "GetHandle h r' = Some (n, w)"
    and "LoadIdentity en (snd file') = Inr dev" and "nc_sign_with_secure_key callbacks = None"
    and "data \<noteq> []" and "name \<noteq> []" and "hash \<noteq> []" and "0 < sint chunkCount"
  shows "ml_share_file ne (Some data) (Some name) (n, w) = (Inr ML_ERR_CRYPTO, n, w) \<and>
    (\<exists>e. ml_request_file_with_chunk_count ne (Inr nonce) order (Some hash) chunkCount (n, w) = (Inr (makeResult None (Some e)), n, w))"
proof -
  have key: "di_PrivateKey dev = None"
    using assms(4) by (auto simp: LoadIdentity_def GetIdentity_def res_bind_eq_Inr run_stmt_eq_Inr scan_row_def split: option.splits)
  have n: "nx_Identity n = dev" "nx_Callbacks n = callbacks"
    using assms(1-4) by (auto simp: ml_node_create_def RegisterHandle_def GetHandle_def Let_def split: sum.splits failure.splits)
  obtain e where e: "\<And>m. cabiSign (ne_crypto ne) (Some callbacks) None m = Inl (Err e)"
    using assms(5) by (auto simp: cabiSign_def SignWithSecureKey_def ML_defs Sign_def fail_def PrivateKeySize_def)
  have "ml_share_file ne (Some data) (Some name) (n, w) = (Inr ML_ERR_CRYPTO, n, w)"
    using assms(6,7) by (simp add: ml_share_file_def n key e)
  moreover have "ml_request_file_with_chunk_count ne (Inr nonce) order (Some hash) chunkCount (n, w) = (Inr (makeResult None (Some e)), n, w)"
    using assms(8,9) by (simp add: ml_request_file_with_chunk_count_def sendRequest_def st_bind_def n key e resultOf_def)
  ultimately show ?thesis by blast
qed

section \<open>Concrete nodes\<close>

theorem handles_name_live_nodes_witness:
  "\<exists>r r'. ml_node_create all_open demo_engine demo_keys 7 new_file no_callbacks quiet registry = (Inr 1, r) \<and>
     ml_node_create all_open demo_engine demo_keys 7 new_file no_callbacks quiet (ml_node_destroy 1 r) = (Inr 2, r') \<and>
     apiCall (SetServicePolicy 1) 1 r' = (Inr (Code 1), r') \<and> apiCall (SetServicePolicy 1) 3 r' = (Inr (Code 1), r') \<and>
     GetHandle 2 r' \<noteq> None"
proof -
  obtain r where r: "ml_node_create all_open demo_engine demo_keys 7 new_file no_callbacks quiet registry = (Inr 1, r)"
    using demo_created by blast
  hence next2: "hr_next r = 2"
    by (auto simp: ml_node_create_def RegisterHandle_def registry_def Let_def split: sum.splits failure.splits prod.splits)
  hence "hr_next (ml_node_destroy 1 r) = 2" by (simp add: ml_node_destroy_def ReleaseHandle_def split: option.split)
  then obtain r' where r': "ml_node_create all_open demo_engine demo_keys 7 new_file no_callbacks quiet (ml_node_destroy 1 r) = (Inr 2, r')"
    using r by (auto simp: ml_node_create_def RegisterHandle_def Let_def split: sum.splits failure.splits prod.splits)
  have "table_run ([] @ [1]) (insert 1 {}) r" by (rule table_run.created [OF table_run.start r]) simp
  hence "table_run (([] @ [1]) @ [2]) (insert 2 (insert 1 {} - {1})) r'" by (intro table_run.created [OF table_run.destroyed r']) simp_all
  hence "table_run [1, 2] {2} r'" by simp
  note all = handles_name_live_nodes [OF this, of _ "SetServicePolicy 1"]
  moreover have "errorToCode (codeToError ML_ERR_INVALID_ARG) = 1" by (simp add: ML_ERR_INVALID_ARG_def errorToCode_codeToError_known)
  ultimately show ?thesis using r r' all [of 1] all [of 2] all [of 3] by auto
qed

definition demo_peer_row :: PeerRow where
  "demo_peer_row = \<lparr>pr_pubkey = Some [1], pr_chain_head = None, pr_record_index = 0, pr_cumulative_sent = 0, pr_cumulative_received = 0,
     pr_last_seen = 3, pr_has_fork_evidence = False, pr_transport_type = ''ble''\<rparr>"

definition demo_peer :: PeerInfo where
  "demo_peer = \<lparr>pi_Pubkey = Some [1], pi_ChainHead = None, pi_RecordIndex = 0,
     pi_Totals = Some \<lparr>ct_CumulativeSent = 0, ct_CumulativeReceived = 0\<rparr>, pi_LastSeen = 3, pi_HasForkEvidence = False,
     pi_TransportType = ''ble''\<rparr>"

definition demo_report_proto :: report_proto where
  "demo_report_proto = \<lparr>marshal_PeerInfo = (\<lambda>p. Inr (bs (pi_Pubkey p))), marshal_FileMeta = (\<lambda>f. Inr []), marshal_Balance = (\<lambda>b. Inr [])\<rparr>"

definition demo_report_world :: "unit cabi world" where
  "demo_report_world = \<lparr>wd_store = empty_store\<lparr>peers := [demo_peer_row]\<rparr>, wd_ext = quiet\<rparr>"

theorem get_peers_roundtrip_witness:
  "\<exists>res. ml_get_peers demo_report_proto demo_report_env (demo_context, demo_report_world) = (Inr res, demo_context, demo_report_world) \<and>
     unframe (\<lambda>b. Inr (demo_peer\<lparr>pi_Pubkey := Some b\<rparr>)) (bs (ml_data res)) = Some [demo_peer]"
proof -
  have "GetAllPeers (ne_engine demo_report_env) 100 (wd_store demo_report_world) = Inr [demo_peer]"
    by (simp add: GetAllPeers_def demo_report_env_def demo_engine_def demo_report_world_def order_desc_def limit_rows_def scanPeer_def
        demo_peer_row_def demo_peer_def scan_u64_def)
  moreover have "\<forall>p\<in>set [demo_peer]. \<exists>d. marshal_PeerInfo demo_report_proto p = Inr d \<and>
      Inr (demo_peer\<lparr>pi_Pubkey := Some d\<rparr>) = (Inr p :: PeerInfo res) \<and> length d < 2 ^ 32"
    by (simp add: demo_report_proto_def demo_peer_def)
  ultimately show ?thesis
    using get_peers_roundtrip [of demo_report_env demo_report_world "[demo_peer]" demo_report_proto
        "\<lambda>b. Inr (demo_peer\<lparr>pi_Pubkey := Some b\<rparr>)" demo_context] by blast
qed

definition demo_ident :: Identity where
  "demo_ident = \<lparr>id_Pubkey = Some (demo_pub 1), id_PrivateKey = None, id_CreatedAt = 7, id_ChainHead = None, id_ChainIndex = 0,
     id_CumulativeSent = 0, id_CumulativeReceived = 0\<rparr>"

definition demo_balance_world :: "unit cabi world" where
  "demo_balance_world = \<lparr>wd_store = demo_store\<lparr>identity_row := Some demo_ident\<rparr>, wd_ext = quiet\<rparr>"

text \<open>A platform on which old credit has decayed to nothing.\<close>

definition decayed_platform :: platform where
  "decayed_platform = demo_platform\<lparr>pf_pow_half := (\<lambda>_. Fin 0)\<rparr>"

definition demo_balance_env :: "unit cabi node_env" where
  "demo_balance_env = demo_report_env\<lparr>ne_platform := decayed_platform\<rparr>"

lemma decayed_value: "DecayedValue decayed_platform 100 (Unix 50) (Unix 100) hl = 0"
proof -
  have "\<not> Before (Unix 100) (Unix 50)" by (simp add: Before_def Unix_def unixToInternal_def)
  moreover have "float64_of_int64 100 = Fin 100" by (simp add: float64_of_int64_exact)
  moreover have "to_float64 0 = Fin 0" using to_float64_nat [of 0] by simp
  ultimately show ?thesis
    by (simp add: DecayedValue_def DecayFactor_def decayed_platform_def int64_of_float64_def trunc_def)
qed

theorem balance_report_spec_witness:
  "\<exists>b. balanceReport demo_balance_env demo_balance_world = Inr b \<and> ba_DecayPenalty b = 0 \<and>
     ba_EffectiveBalance b \<noteq> ba_DripAllowance b + ba_DiversityWeightedCredit b - ba_CumulativeReceived b - ba_DecayPenalty b"
proof -
  let ?r = "stored_record demo_record" and ?pub = "Some (demo_pub 1)"
  have sel: "sr_SenderPubkey ?r = ?pub" "sr_ReceiverPubkey ?r = Some (demo_pub 2)" "sr_BytesTotal ?r = 100" "sr_Timestamp ?r = 50" "demo_pub 1 \<noteq> demo_pub 2"
    by (simp_all add: stored_record_def demo_record_def demo_pub_def)
  have ident: "GetIdentity demo_engine (wd_store demo_balance_world) = Inr demo_ident"
    by (simp add: GetIdentity_def demo_engine_def demo_balance_world_def scan_row_def demo_ident_def scan_u64_def)
  have scan: "scanRecord demo_engine (record_row demo_engine demo_record) = Inr ?r"
    using demo_insert by (intro scanRecord_record_row) (auto simp: InsertRecord_eq_Inr, simp add: demo_record_def)
  have recs: "GetRecordsByDevice demo_engine ?pub 0 2000 (wd_store demo_balance_world) = Inr [?r]"
    using scan by (simp add: GetRecordsByDevice_def demo_balance_world_def demo_store_def of_device_def order_asc_def limit_rows_def
        record_row_def demo_record_def demo_engine_def u64_arg_def)
  have div: "DiversityWeightedCredit [Some ?r] ?pub (WindowSize DefaultParams) = Inr 100"
    using sel by (simp add: DiversityWeightedCredit_def window_def DefaultParams_def countPeers_def sdiv64_def)
  have caps: "ApplyPerPeerCaps (\<lambda>xs. xs) [Some ?r] ?pub DefaultParams = Inr 100"
    using sel by (simp add: ApplyPerPeerCaps_def DefaultParams_def sdiv64_def capSum_def MB_def)
  have credits: "sumCredits decayed_platform ?pub 100 DefaultParams [?r] = (100, 0)"
    using sel by (simp add: sumCredits_def decayed_value)
  obtain e where e: "ComputeEffectiveBalance decayed_platform [Some ?r] ?pub 7 100 DefaultParams = Inr e"
    using div credits by (simp add: ComputeEffectiveBalance_def)
  have env: "ne_engine demo_balance_env = demo_engine" "ne_platform demo_balance_env = decayed_platform" "ne_order demo_balance_env = (\<lambda>xs. xs)"
    "ne_now demo_balance_env w = 100" "id_Pubkey demo_ident = ?pub" "id_CreatedAt demo_ident = 7" for w
    by (simp_all add: demo_balance_env_def demo_report_env_def demo_ident_def)
  obtain b where b: "balanceReport demo_balance_env demo_balance_world = Inr b" "ba_ComputedAt b = 100" "ba_DiversityWeightedCredit b = 100"
    using ident recs div caps e by (simp add: balanceReport_def env)
  have "sumCredits (ne_platform demo_balance_env) (id_Pubkey demo_ident) (ba_ComputedAt b) DefaultParams [?r] = (100, 0)"
    using credits by (simp add: env b(2))
  from balance_report_spec [OF b(1) _ _ this] ident recs caps b(3)
  have "ba_DecayPenalty b = 0" "ba_EffectiveBalance b = ba_DripAllowance b + 100 - ba_CumulativeReceived b - 100" by (auto simp: env)
  with b show ?thesis by auto
qed

theorem restarted_node_cannot_sign_witness:
  "\<exists>r1 n1 w1 r2 n w. ml_node_create all_open demo_engine demo_keys 7 new_file no_callbacks quiet registry = (Inr 1, r1) \<and>
     GetHandle 1 r1 = Some (n1, w1) \<and>
     ml_node_create all_open demo_engine demo_keys 8 (fst new_file, wd_store w1) no_callbacks quiet registry = (Inr 1, r2) \<and>
     GetHandle 1 r2 = Some (n, w) \<and> ml_share_file demo_report_env (Some [1]) (Some ''f'') (n, w) = (Inr ML_ERR_CRYPTO, n, w)"
proof -
  obtain n1 w1 r1 where c: "ml_node_create all_open demo_engine demo_keys 7 new_file no_callbacks quiet registry = (Inr 1, r1)"
    "GetHandle 1 r1 = Some (n1, w1)" using demo_created by blast
  hence "identity_row (wd_store w1) = Some \<lparr>id_Pubkey = Some (demo_pub 1), id_PrivateKey = None, id_CreatedAt = 7, id_ChainHead = None,
      id_ChainIndex = 0, id_CumulativeSent = 0, id_CumulativeReceived = 0\<rparr>"
    by (auto simp: ml_node_create_def all_open_def new_file_def OpenDatabase_def migrate_def demo_engine_def LoadIdentity_def GetIdentity_def
      empty_store_def scan_row_def NewIdentity_def st_defs demo_keys_def GenerateKeyPair_def InitIdentity_def not_null_def
      RegisterHandle_def GetHandle_def registry_def Let_def)
  then obtain dev where dev: "LoadIdentity demo_engine (wd_store w1) = Inr dev"
    by (simp add: LoadIdentity_def GetIdentity_def demo_engine_def scan_row_def scan_u64_def)
  then obtain n w r2 where c2: "ml_node_create all_open demo_engine demo_keys 8 (fst new_file, wd_store w1) no_callbacks quiet registry = (Inr 1, r2)"
    "GetHandle 1 r2 = Some (n, w)"
    by (auto simp: ml_node_create_def all_open_def new_file_def OpenDatabase_def migrate_def RegisterHandle_def GetHandle_def registry_def Let_def
      demo_engine_def)
  from restarted_node_cannot_sign [OF c2(1) _ c2(2), of dev "[1]" "''f''" "[1]" 1 demo_report_env] dev
  have "ml_share_file demo_report_env (Some [1]) (Some ''f'') (n, w) = (Inr ML_ERR_CRYPTO, n, w)" by (simp add: no_callbacks_def)
  with c c2 show ?thesis by blast
qed

end
