(* ===== verification/Spec2Isabelle.thy ===== *)
theory Spec2Isabelle
  imports Store_Spec Credit_Props Identity Discovery Gossip Batch Policy Session_Live Session_Pair Manager Node_Props Cabi_Api_Props
begin

text \<open>
  \<^bold>\<open>The program.\<close>  Burnt Peanut Network is the Go core of a peer-to-peer file sharing application.  Devices
  exchange chunks of files, both parties sign a share record for every transfer, credit follows from
  the records, and gossip spreads what devices know about each other.  A native application drives
  the core through a C interface and lends it its radio, its file system and its secure key.

  \<^bold>\<open>How it is modelled.\<close>  A struct is a record and a tagged union a datatype, with the names of the source
  under a prefix per type; pointers and slices that may be nil are options; integers are words of their
  width, signed ones read with \<^const>\<open>sint\<close>; \<open>float64\<close> is IEEE double precision with rounding written out.
  An error is a value and keeps its message and what it wraps; a run-time panic is a second kind of
  failure (\<^typ>\<open>failure\<close>).  A function that changes a state and may fail half way returns the state
  reached so far (\<^typ>\<open>('s, 'a) op\<close>).  A loop without a bound is \<^const>\<open>for_ever\<close>, and \<open>None\<close> is a call
  that does not return.  No fuel is used: everything else is structurally recursive or has a
  termination proof.  Code that is not in the repository is an argument of the definitions that call
  it, with what is documented about it as a named predicate: the cryptographic primitives
  (\<^const>\<open>sha256_ok\<close>, \<^const>\<open>keypair_ok\<close>), the protobuf runtime (\<^typ>\<open>proto_lib\<close>), the SQL engine with the
  faults and capacities it chooses (\<^const>\<open>driver_ok\<close>), the exponential function and float conversions of the
  platform (\<^typ>\<open>platform\<close>), iteration orders of Go maps, clocks, random sources, and the native callbacks.

  \<^bold>\<open>The theories\<close>, bottom up.

    \<^item> \<open>Prelude\<close>, \<open>Go_State\<close>, \<open>Go_Num\<close>: Go itself.  Slices, errors and their wrapping, big-endian integers
      (locale \<open>fixed_codec\<close>, interpreted for 4 and 8 bytes), stateful calls and endless loops with
      their invariant and termination rules, floating point, durations.
    \<^item> \<open>Wire_Types\<close>, \<open>Codec\<close>: the messages of \<open>wire/gen/core.pb.go\<close> and the framing of
      \<open>wire/codec.go\<close>.  Envelopes written one after the other are read back; sizes are bounded; where the size check fails.
    \<^item> \<open>Crypto\<close>, \<open>Dag\<close>: \<open>crypto/\<close> and \<open>dag/\<close>.  Signable bytes, validation of records and requests,
      chains and forks: what validation checks, when signed bytes determine a record, the pairwise
      check against the predicate of a linked chain.
    \<^item> \<open>Sql\<close>, \<open>Store\<close>, \<open>Store_Props\<close>, \<open>Store_Spec\<close>: \<open>storage/\<close>.  Tables are lists of rows with the constraints of the
      schema, statements are operations on them, every method of the store is one definition, and
      so are the migrations, opening and closing.  Locales \<open>write_once\<close> and \<open>replace_table\<close> state what a
      table of inserted or of upserted rows promises and are interpreted on the statements.
      \<open>exec_op\<close> collects the operations: records and fork evidence are permanent and the tables
      well formed under every sequence of them.  \<open>Store_Spec\<close> states what the database promises without
      tables or statements: maps by key, histories per device, an eviction that may keep any peers
      seen last.  Locale \<open>simulation\<close>, interpreted on \<open>exec_op\<close>, turns the refinement of single
      operations into that of every run, refusals and faults included; that records and files are
      never lost follows from the specification alone, by induction on its runs.
    \<^item> \<open>Credit\<close>, \<open>Credit_Props\<close>: \<open>credit/\<close> with wrap-around and rounding; bounds of the drip allowance
      and of diversity credit, the decay of a record as a law of its age and the half-life, what caps and checkpoints compute, and the balance as an
      exact sum of these.
    \<^item> \<open>Identity\<close>, \<open>Discovery\<close>, \<open>Gossip\<close>: \<open>identity/\<close>, \<open>discovery/\<close>, \<open>gossip/\<close>.  Succession, attestation,
      advertisements and capabilities; the file index refines a relation; gossip keeps every
      invariant of the store.
    \<^item> \<open>Batch\<close>, \<open>Policy\<close>, \<open>Session\<close>, \<open>Session_Props\<close>, \<open>Session_Live\<close>, \<open>Session_Pair\<close>, \<open>Manager\<close>: \<open>transfer/\<close>.  Batches are
      verified before they are written; the tiers of the policy are nested; the session is a state
      machine whose handlers run over one world state (locale \<open>phased_machine\<close>) and whose loop is
      \<^const>\<open>for_ever\<close> of \<^const>\<open>sessionStep\<close>: which states a run goes through and how it ends, what a completed run has done, and, for transports that
      can only deliver finitely many messages (locale \<open>finite_supply\<close>), that a run that does not return is
      blocked in a receive: the session is compared round by round with the one whose transport gives up there, which always returns.  \<open>Session_Pair\<close> lets two sessions face each other, the one serving what
      the other asks for: the missing chunks are copied when they are at most 64, and with more the
      requester waits for ever.  What a session relies on in a chunk storage is locale \<open>chunk_store\<close>, which
      \<open>Cabi_Transport\<close> interprets on the storage of the C interface.  The manager is a bounded table (locale \<open>bounded_table\<close>), and sessions are
      saved and recovered.
    \<^item> \<open>Node\<close>, \<open>Node_Props\<close>: \<open>node/node.go\<close>.  The state is the node with the heap of its sessions and the
      world (database and transport).  \<open>node_step\<close> is the step relation: a round of the event
      loop, a tick of the checkpoint loop, a session goroutine from start to end, a call, or a change outside.
      Locale \<open>store_predicate\<close> lifts any property that storage operations keep to every
      reachable state; it is interpreted for validity, well-formedness and permanence.
      Start and Stop are modelled with the wait group they count.
    \<^item> \<open>Cabi_Base\<close>, \<open>Cabi_Transport\<close>, \<open>Cabi_Node\<close>, \<open>Cabi_Api\<close>: \<open>cabi/\<close>.  Error codes, handles and callbacks;
      transports as objects in a heap that can be handed over to one another, with the
      envelopes that other goroutines deliver during a blocked receive as an argument; peer
      events, received data, sharing and requesting files; creation, reports and the lookup of handles.
    \<^item> \<open>Cabi_Wf\<close>, \<open>Cabi_Props\<close>, \<open>Cabi_Api_Props\<close>: the state behind the interface is well typed in every
      reachable state (\<open>cabi_reach\<close>); sessions never spin (\<open>finite_supply\<close> is interpreted on
      this transport); shared files are read back; a handle is valid exactly while its node lives; what reports say;
      and the defects in merging connections.
    \<^item> This theory: a property of the whole, from a peer's request to the permanent record.

  \<^bold>\<open>Limits that come from the code.\<close>  64 chunks per batch, 32 envelopes per channel, 64 KiB per shared chunk, a
  session table of the configured size, framed messages of \<^const>\<open>MaxMessageSize\<close>.  Handles are 64-bit counters:
  freshness is stated for fewer than \<open>2 ^ 64\<close> creations.

  \<^bold>\<open>Not modelled.\<close>  The generated marshalling and reflection code of \<open>wire/gen\<close>; the C shims and pointer
  conversions of \<open>cabi/callbacks.go\<close> and \<open>ml_free\<close>, which only move memory; the empty main functions;
  connection pools and pragmas of the database beyond the calls that open it; the order of tied rows of a query, which SQL
  leaves open (here that of insertion); mutexes
  (an exported function, a storage method and a transport operation is atomic, as its lock makes it);
  data races, such as a session whose pending request is replaced while it runs; logging; the
  tests, the Android project and the scripts.
\<close>

section \<open>From a request to the permanent record\<close>

lemma inserted_record_selected:
  assumes "InsertRecord en r s = Inr s'" and "rr_id (record_row en r) = Some k"
  shows "select_row rr_id (Some k) (share_records s') = Some (record_row en r)"
proof -
  from assms(1) have "insert_row rr_id ''share_records.id'' (record_row en r) (share_records s) = Inr (share_records s')"
    by (auto simp: InsertRecord_eq_Inr insert_row_eq_Inr)
  with assms(2) show ?thesis by (simp add: rows_once.get_ins)
qed

text \<open>A goroutine of the node that brings its session to \<open>COMPLETE\<close> has inserted a valid record, with the driver of its session.\<close>

lemma completed_goroutine_inserts:
  assumes "waiting_sessions n" and "ref \<in> set (nd_spawned n)" and "runSpawned ne' order ref (n, w) = Some (r, n', w')"
    and "ss_State (nd_heap n' ref) = StateComplete" and "ss_chain (nd_heap n ref) = Some (storeAppendRecord ne)"
  shows "\<exists>rec s. ValidateShareRecord (ne_crypto ne') rec = Inr () \<and> InsertRecord (ne_engine ne) rec s = Inr (wd_store w')"
proof -
  from runSpawned_Some [OF assms(3)] obtain q s where run: "RunSession (sessionEnv ne') (nd_heap n ref) w = Some (q, s, w')"
    and heap: "nd_heap n' = (nd_heap n)(ref := s)" by blast
  from assms(1,2) have idle: "ss_State (nd_heap n ref) = StateIdle" "ss_storage (nd_heap n ref) = None" by (auto simp: waiting_sessions_def)
  from RunSession_cosigned [OF idle(1) disjI2 [OF idle(2)] run] heap assms(4,5)
  obtain rec w1 where "ValidateShareRecord (se_crypto (sessionEnv ne')) rec = Inr ()" "storeAppendRecord ne rec w1 = (Inr (), w')"
    by auto
  thus ?thesis by (auto simp: storeAppendRecord_def sessionEnv_def split: sum.splits) blast
qed

text \<open>A request for which the node starts a goroutine makes a session that appends to the database with the driver of the handler.\<close>

lemma accepted_request_appends:
  assumes "waiting_sessions n" and "handleTransferRequest ne (Some q) (n, w) = (Inr (), n', w')" and "nd_spawned n' = nd_spawned n @ [ref]"
  shows "appends_with ref (storeAppendRecord ne) n'"
proof -
  have "waiting_sessions n'" using waiting_transfer_request [of "(n, w)" ne "Some q"] assms(1,2) by simp
  with assms(2,3) show ?thesis
    by (auto simp: appends_with_def handleTransferRequest_def inboundSession_def NewSession_def SetPendingRequest_def SetPolicyStore_def Let_def
        split: sum.splits prod.splits option.splits bool.splits)
qed

text \<open>
  C1. Every completed transfer is on record for ever.  A node in any state that its moves lead to
  accepts a peer's request and starts a goroutine for it; later, after any other moves, the goroutine runs and completes
  its session.  Then the run ended by inserting a share record that validates, with the database driver of the handler.
  Whatever the node does and receives afterwards, the row of this record is found under its id, unchanged; and when the chunk
  hashes have their 32 bytes, any driver without faults reads the record back by its id.
\<close>

theorem completed_transfer_on_record:
  assumes "(node_step cr pl)\<^sup>*\<^sup>* (n\<^sub>0, w\<^sub>0) (n\<^sub>1, w\<^sub>1)" and "nd_spawned n\<^sub>0 = []" and "sha256_ok cr" and "driver_ok (ne_engine ne)"
    and "handleTransferRequest ne (Some q) (n\<^sub>1, w\<^sub>1) = (Inr (), n\<^sub>2, w\<^sub>2)" and "nd_spawned n\<^sub>2 = nd_spawned n\<^sub>1 @ [ref]"
    and "(node_step cr pl)\<^sup>*\<^sup>* (n\<^sub>2, w\<^sub>2) (n\<^sub>3, w\<^sub>3)" and "ref \<in> set (nd_spawned n\<^sub>3)" and "ne_crypto ne' = cr"
    and "runSpawned ne' order ref (n\<^sub>3, w\<^sub>3) = Some (r, n\<^sub>4, w\<^sub>4)" and "ss_State (nd_heap n\<^sub>4 ref) = StateComplete"
    and "(node_step cr pl)\<^sup>*\<^sup>* (n\<^sub>4, w\<^sub>4) (n\<^sub>5, w\<^sub>5)"
  shows "(\<exists>rec s. ValidateShareRecord cr rec = Inr () \<and> InsertRecord (ne_engine ne) rec s = Inr (wd_store w\<^sub>4)) \<and>
    (\<forall>rec s. ValidateShareRecord cr rec = Inr () \<and> InsertRecord (ne_engine ne) rec s = Inr (wd_store w\<^sub>4) \<longrightarrow>
       select_row rr_id (sr_Id rec) (share_records (wd_store w\<^sub>5)) = Some (record_row (ne_engine ne) rec) \<and>
       (\<forall>en. driver_ok en \<and> (\<forall>h\<in>set (sr_ChunkHashes rec). length (bs h) = 32) \<longrightarrow>
          GetRecord en (sr_Id rec) (wd_store w\<^sub>5) = Inr (stored_record rec)))"
proof (intro conjI allI impI)
  have w1: "waiting_sessions n\<^sub>1" using waiting_reachable [OF assms(1)] assms(2) by (simp add: waiting_sessions_def)
  have app: "appends_with ref (storeAppendRecord ne) n\<^sub>3"
    using appends_reachable [OF assms(7)] accepted_request_appends [OF w1 assms(5,6)] by simp
  hence w3: "waiting_sessions n\<^sub>3" "ss_chain (nd_heap n\<^sub>3 ref) = Some (storeAppendRecord ne)" using assms(8) by (simp_all add: appends_with_def)
  show "\<exists>rec s. ValidateShareRecord cr rec = Inr () \<and> InsertRecord (ne_engine ne) rec s = Inr (wd_store w\<^sub>4)"
    using completed_goroutine_inserts [OF w3(1) assms(8,10,11) w3(2)] assms(9) by blast
  fix rec s assume rec: "ValidateShareRecord cr rec = Inr () \<and> InsertRecord (ne_engine ne) rec s = Inr (wd_store w\<^sub>4)"
  have "bs (sr_Id rec) \<noteq> []" using valid_record_id [OF conjunct1 [OF rec]] length_Hash [OF assms(3), of "SignableBytes rec"] by auto
  then obtain k where k: "sr_Id rec = Some k" by (cases "sr_Id rec") auto
  from append_only.later [OF assms(12) waiting_run [OF w3(1) assms(8,10)], of "wd_store w\<^sub>4"]
  have kept: "prefix (share_records (wd_store w\<^sub>4)) (share_records (wd_store w\<^sub>5))" by simp
  have "rr_id (record_row (ne_engine ne) rec) = Some k" using assms(4) k by (simp add: record_row_def)
  from select_row_prefix [OF kept inserted_record_selected [OF conjunct2 [OF rec] this]]
  show found: "select_row rr_id (sr_Id rec) (share_records (wd_store w\<^sub>5)) = Some (record_row (ne_engine ne) rec)" by (simp add: k)
  fix en assume d: "driver_ok en \<and> (\<forall>h\<in>set (sr_ChunkHashes rec). length (bs h) = 32)"
  have same: "record_row (ne_engine ne) rec = record_row en rec" using d assms(4) by (simp add: record_row_def)
  have "record_row_ok (record_row en rec)" using rec same by (simp add: InsertRecord_eq_Inr)
  with found d scanRecord_record_row [of en rec] show "GetRecord en (sr_Id rec) (wd_store w\<^sub>5) = Inr (stored_record rec)"
    by (simp add: GetRecord_def scan_row_def same)
qed

text \<open>A node that serves: a request is queued, and behind it the record that the requester has signed.\<close>

definition demo_agreed :: ShareRecord where
  "demo_agreed = demo_draft\<lparr>sr_RequestHash := Some (Hash demo_crypto [])\<rparr>"

definition demo_claimed :: ShareRecord where
  "demo_claimed = AttachReceiverSig demo_crypto demo_agreed (Some (demo_pub 2 @ SignableBytes demo_agreed))"

definition demo_sender :: "Envelope option list Node" where
  "demo_sender = demo_node\<lparr>nd_signer := Some (Sign demo_crypto (Some (demo_priv 1)))\<rparr>"

definition demo_queue :: "Envelope option list" where
  "demo_queue = [Some (envelope (Envelope_ShareRecord (Some demo_claimed)))]"

definition demo_asked :: "Envelope option list world" where
  "demo_asked = \<lparr>wd_store = empty_store, wd_ext = Some (envelope (Envelope_TransferRequest (Some demo_signed_request))) # demo_queue\<rparr>"

definition demo_accepted :: "Envelope option list Node" where
  "demo_accepted = fst (snd (handleTransferRequest demo_node_env (Some demo_signed_request) (demo_sender, demo_asked\<lparr>wd_ext := demo_queue\<rparr>)))"

lemma demo_accepted_session:
  "nd_spawned demo_accepted = [1]"
  "nd_heap demo_accepted 1 = inboundSession demo_node_env demo_sender (request_session_id demo_signed_request) demo_signed_request"
  "handleTransferRequest demo_node_env (Some demo_signed_request) (demo_sender, demo_asked\<lparr>wd_ext := demo_queue\<rparr>) =
     (Inr (), demo_accepted, demo_asked\<lparr>wd_ext := demo_queue\<rparr>)"
proof -
  have "sm_sessions (nd_transfer demo_sender) (request_session_id demo_signed_request) = None"
    by (simp add: demo_sender_def demo_node_def request_session_id_def append_eq_Cons_conv)
  note h = request_starts_session [OF demo_request_accepted this]
  show "nd_spawned demo_accepted = [1]"
    "nd_heap demo_accepted 1 = inboundSession demo_node_env demo_sender (request_session_id demo_signed_request) demo_signed_request"
    "handleTransferRequest demo_node_env (Some demo_signed_request) (demo_sender, demo_asked\<lparr>wd_ext := demo_queue\<rparr>) =
     (Inr (), demo_accepted, demo_asked\<lparr>wd_ext := demo_queue\<rparr>)"
    unfolding demo_accepted_def h by (simp_all add: demo_sender_def demo_node_def Let_def)
qed

lemma demo_request_step: "node_step demo_crypto demo_proto (demo_sender, demo_asked) (demo_accepted, demo_asked\<lparr>wd_ext := demo_queue\<rparr>)"
proof (rule node_step.event [of demo_node_env])
  have "tp_Recv (liftTransport (nd_transport demo_sender)) demo_asked =
      Some (Inr (Some (envelope (Envelope_TransferRequest (Some demo_signed_request)))), demo_asked\<lparr>wd_ext := demo_queue\<rparr>)"
    by (simp add: demo_sender_def demo_node_def liftTransport_def queue_transport_def demo_asked_def)
  thus "eventStep demo_node_env (demo_sender, demo_asked) = Some (Inl (demo_accepted, demo_asked\<lparr>wd_ext := demo_queue\<rparr>))"
    by (simp add: eventStep_def dispatch_def envelope_def demo_accepted_session(3))
qed simp_all

definition demo_serving :: "Envelope option list world TransferSession" where
  "demo_serving = inboundSession demo_node_env demo_sender (request_session_id demo_signed_request) demo_signed_request"

lemma demo_agreed_record:
  "ValidateShareRecord demo_crypto (demo_cosign demo_agreed) = Inr ()"
  "AttachSenderSig demo_claimed (Some (demo_pub 1 @ SignableBytes demo_agreed)) = demo_cosign demo_agreed"
  "Sign demo_crypto (Some (demo_priv 1)) (SignableBytes demo_claimed) = Inr (Some (demo_pub 1 @ SignableBytes demo_agreed))"
  "InsertRecord demo_engine (demo_cosign demo_agreed) empty_store = Inr (empty_store\<lparr>share_records := [record_row demo_engine (demo_cosign demo_agreed)]\<rparr>)"
proof -
  show "ValidateShareRecord demo_crypto (demo_cosign demo_agreed) = Inr ()"
    by (rule demo_cosign_valid) (simp_all add: demo_agreed_def demo_draft_def)
  show "AttachSenderSig demo_claimed (Some (demo_pub 1 @ SignableBytes demo_agreed)) = demo_cosign demo_agreed"
    by (simp add: demo_cosign_def demo_claimed_def AttachReceiverSig_def AttachSenderSig_def Let_def)
  show "Sign demo_crypto (Some (demo_priv 1)) (SignableBytes demo_claimed) = Inr (Some (demo_pub 1 @ SignableBytes demo_agreed))"
    by (simp add: Sign_eq_Inr demo_claimed_def demo_crypto_def demo_priv_def demo_pub_def)
  show "InsertRecord demo_engine (demo_cosign demo_agreed) empty_store = Inr (empty_store\<lparr>share_records := [record_row demo_engine (demo_cosign demo_agreed)]\<rparr>)"
    unfolding InsertRecord_eq_Inr
    by (simp add: record_row_def record_row_ok_def empty_store_def demo_agreed_def demo_crash_fields Let_def demo_engine_def)
qed

lemma demo_serving_cosigns:
  "handleCoSigning (sessionEnv demo_node_env) (demo_serving\<lparr>ss_State := StateCoSigning\<rparr>) (demo_asked\<lparr>wd_ext := demo_queue\<rparr>) =
   Some (Next StateGossiping, demo_serving\<lparr>ss_State := StateCoSigning\<rparr>,
     \<lparr>wd_store = empty_store\<lparr>share_records := [record_row demo_engine (demo_cosign demo_agreed)]\<rparr>, wd_ext = []\<rparr>)"
proof -
  have fields: "sr_RequestHash demo_claimed = Some (Hash demo_crypto [])" "sr_FileHash demo_claimed = Some [2]"
    by (simp_all add: demo_claimed_def AttachReceiverSig_def demo_agreed_def demo_draft_def Let_def)
  have sigs: "bs (sr_SenderSig (demo_cosign demo_agreed)) \<noteq> []" "bs (sr_ReceiverSig (demo_cosign demo_agreed)) \<noteq> []"
    by (simp_all add: demo_cosign_def AttachReceiverSig_def AttachSenderSig_def demo_pub_def Let_def)
  have hash: "Hash demo_crypto [] \<noteq> []" using length_Hash [OF demo_sha256_ok, of "[]"] by auto
  have parts: "ss_transport demo_serving = Some (liftTransport queue_transport)" "ss_chain demo_serving = Some (storeAppendRecord demo_node_env)"
    "ss_signer demo_serving = Some (Sign demo_crypto (Some (demo_priv 1)))" "ss_FileHash demo_serving = Some [2]"
    "ss_Direction demo_serving = DirectionInbound" "ss_pendingRequest demo_serving = Some demo_signed_request"
    by (simp_all add: demo_serving_def inboundSession_def Let_def NewSession_def SetPendingRequest_def SetPolicyStore_def
        demo_sender_def demo_node_def demo_signed_request_def clone_def)
  have "coSignRequestHash (sessionEnv demo_node_env) (demo_serving\<lparr>ss_State := StateCoSigning\<rparr>) demo_claimed = Inr True"
    by (simp add: coSignRequestHash_def parts fields sessionEnv_def demo_proto_def demo_signed_request_def Let_def)
  thus ?thesis
    using sigs hash
    by (simp add: handleCoSigning_def parts recv_or_stop_def or_stop_def liftTransport_def queue_transport_def demo_queue_def
        coSignRecord_def fields demo_agreed_record send_or_stop_def finishCoSign_def appendFinal_def storeAppendRecord_def)
      (simp add: sessionEnv_def demo_agreed_record demo_asked_def)
qed

lemma demo_serving_run:
  "RunSession (sessionEnv demo_node_env) demo_serving (demo_asked\<lparr>wd_ext := demo_queue\<rparr>) =
   Some (Inr (), demo_serving\<lparr>ss_State := StateComplete\<rparr>,
     \<lparr>wd_store = empty_store\<lparr>share_records := [record_row demo_engine (demo_cosign demo_agreed)]\<rparr>, wd_ext = []\<rparr>)"
    (is "RunSession ?en _ ?w = Some (_, _, ?w')")
proof -
  let ?s = "\<lambda>q. demo_serving\<lparr>ss_State := q\<rparr>"
  let ?step = "sessionStep ?en"
  have ok: "se_ctx_Err ?en w = None" "ss_err demo_serving = None" "ss_storage demo_serving = None" "ss_pendingRequest demo_serving \<noteq> None"
    "ss_State demo_serving = StateIdle" for w
    by (simp_all add: sessionEnv_def demo_serving_def) (simp add: inboundSession_def Let_def NewSession_def SetPendingRequest_def SetPolicyStore_def)
  have 1: "?step (?s StateTransferring, ?w) = Some (Inl (?s StateCoSigning, ?w))"
    by (simp add: session_step_defs handleTransferring_def ok state_defs split: option.split)
  have 2: "?step (?s StateCoSigning, ?w) = Some (Inl (?s StateGossiping, ?w'))"
    using demo_serving_cosigns by (simp add: session_step_defs ok state_defs)
  have 3: "?step (?s StateGossiping, ?w') = Some (Inl (?s StateComplete, ?w'))"
    by (simp add: session_step_defs handleGossiping_def ok state_defs)
  have 4: "?step (?s StateComplete, ?w') = Some (Inr (Inr (), ?s StateComplete, ?w'))"
    by (simp add: session_step_defs getErr_def ok state_defs)
  note run = for_ever_unfold [of ?step]
  have "for_ever ?step (?s StateTransferring, ?w) = Some (Inr (), ?s StateComplete, ?w')"
    by (simp only: run(2) [OF 1] run(2) [OF 2] run(2) [OF 3] run(3) [OF 4])
  moreover have "demo_serving\<lparr>ss_err := None, ss_State := StateTransferring\<rparr> = ?s StateTransferring" using ok(2) by simp
  ultimately show ?thesis using ok(4,5) by (subst RunSession_idle) simp_all
qed

theorem completed_transfer_on_record_witness:
  "\<exists>n w. (node_step demo_crypto demo_proto)\<^sup>*\<^sup>* (demo_sender, demo_asked) (n, w) \<and>
     GetRecord demo_engine (sr_Id (demo_cosign demo_agreed)) (wd_store w) = Inr (stored_record (demo_cosign demo_agreed))"
proof -
  let ?w = "demo_asked\<lparr>wd_ext := demo_queue\<rparr>" and ?rec = "demo_cosign demo_agreed"
  have ref: "1 \<in> set (nd_spawned demo_accepted)" using demo_accepted_session(1) by simp
  have "nd_heap demo_accepted 1 = demo_serving" using demo_accepted_session(2) by (simp add: demo_serving_def)
  then obtain n w where run: "runSpawned demo_node_env [] 1 (demo_accepted, ?w) = Some (Inr (), n, w)"
    and n: "nd_heap n 1 = demo_serving\<lparr>ss_State := StateComplete\<rparr>"
    and w: "wd_store w = empty_store\<lparr>share_records := [record_row demo_engine ?rec]\<rparr>"
    by (simp add: runSpawned_def demo_serving_run Let_def)
  have env: "ne_engine demo_node_env = demo_engine" "ne_crypto demo_node_env = demo_crypto" "ne_proto demo_node_env = demo_proto"
    by (simp_all add: demo_node_env_def)
  have none: "nd_spawned demo_sender = []" by (simp add: demo_sender_def demo_node_def)
  have spawned: "nd_spawned demo_accepted = nd_spawned demo_sender @ [1]" using demo_accepted_session(1) none by simp
  have fin: "ss_State (nd_heap n 1) = StateComplete" by (simp only: n) simp
  have hashes: "\<forall>h\<in>set (sr_ChunkHashes ?rec). length (bs h) = 32"
    by (simp add: demo_cosign_def AttachReceiverSig_def AttachSenderSig_def demo_agreed_def demo_draft_def Let_def)
  have "GetRecord demo_engine (sr_Id ?rec) (wd_store w) = Inr (stored_record ?rec)"
    using completed_transfer_on_record [OF rtranclp.rtrancl_refl none demo_sha256_ok _ demo_accepted_session(3) spawned
        rtranclp.rtrancl_refl ref env(2) run fin rtranclp.rtrancl_refl] env(1) demo_agreed_record(1,4) w hashes by auto
  moreover have "node_step demo_crypto demo_proto (demo_accepted, ?w) (n, w)"
    by (rule node_step.goroutine [OF env(2,3) ref run])
  ultimately show ?thesis using demo_request_step by (meson converse_rtranclp_into_rtranclp r_into_rtranclp)
qed

end
